(* ===== verification/Prelude.thy ===== *)
theory Prelude
  imports "HOL-Library.State_Monad" "HOL-Library.Word"
begin

text \<open>
  What every component shares: the widths of the machine integers the crate uses and the
  two saturating operations of \<open>u32\<close> it calls, Rust's \<open>Result\<close>, panics as values, the
  \<open>loop { .. }\<close> construct with its proof rules, and the collections of rewrite rules.

  Effects are computations of \<open>HOL-Library.State_Monad\<close> over a world \<open>'x\<close>: a callback, a
  clock or a user-written strategy is a function into \<open>('x, 'a) state\<close>, so anything it
  captures and mutates is a part of \<open>'x\<close> and the order of the calls is the order of the
  binds.
\<close>

named_theorems dur_simps \<open>nanosecond readings of the operations on durations\<close>
named_theorems engine_defs \<open>definitions of the retry engines\<close>

type_synonym u32 = "32 word"
type_synonym u64 = "64 word"

text \<open>A panic is a value that carries its message; a computation that may panic returns a sum.\<close>

type_synonym panic = string

text \<open>Rust's \<open>Result\<close>, and the \<open>Poll\<close> of \<open>core::task\<close>.\<close>

datatype ('t, 'e) result = is_ok: Ok (ok_value: 't) | is_err: Err (err_value: 'e)

datatype 'a poll = Pending | Ready (poll_value: 'a)

definition result_is_err :: "('t, 'e) result \<Rightarrow> bool" where
  "result_is_err o' = (case o' of Ok _ \<Rightarrow> False | Err _ \<Rightarrow> True)"

definition result_err :: "('t, 'e) result \<Rightarrow> 'e option" where
  "result_err o' = (case o' of Ok _ \<Rightarrow> None | Err e \<Rightarrow> Some e)"

lemma result_is_err_simps [simp]: "result_is_err (Ok v) = False" "result_is_err (Err e) = True"
  by (simp_all add: result_is_err_def)

lemma result_err_simps [simp]: "result_err (Ok v) = None" "result_err (Err e) = Some e"
  by (simp_all add: result_err_def)

subsection \<open>Saturating \<open>u32\<close> arithmetic\<close>

definition u32_saturating_add :: "u32 \<Rightarrow> u32 \<Rightarrow> u32" where
  "u32_saturating_add a b = (if unat a + unat b < 2 ^ 32 then a + b else - 1)"

definition u32_saturating_sub :: "u32 \<Rightarrow> u32 \<Rightarrow> u32" where
  "u32_saturating_sub a b = (if b \<le> a then a - b else 0)"

lemma unat_u32_lt: "unat (a :: u32) < 4294967296"
  using unsigned_less [of a] by simp

lemma unat_u64_lt: "unat (a :: u64) < 18446744073709551616"
  using unsigned_less [of a] by simp

lemma unat_word_of_nat_u32: "n < 4294967296 \<Longrightarrow> unat (word_of_nat n :: u32) = n"
  by (simp add: unsigned_of_nat take_bit_nat_eq_self)

lemma unat_word_of_nat_u64: "n < 18446744073709551616 \<Longrightarrow> unat (word_of_nat n :: u64) = n"
  by (simp add: unsigned_of_nat take_bit_nat_eq_self)

lemma unat_u32_max: "unat (- 1 :: u32) = 4294967295"
  by (simp add: unsigned_minus_1_eq_mask mask_eq_exp_minus_1)

lemma unat_u64_max: "unat (- 1 :: u64) = 18446744073709551615"
  by (simp add: unsigned_minus_1_eq_mask mask_eq_exp_minus_1)

lemma unat_u32_saturating_add:
  "unat (u32_saturating_add a b) = min (unat a + unat b) 4294967295"
  by (auto simp: u32_saturating_add_def unat_word_ariths unat_u32_max)

lemma unat_u32_saturating_sub:
  "unat (u32_saturating_sub a b) = unat a - unat b"
proof (cases "b \<le> a")
  case True
  then show ?thesis by (simp add: u32_saturating_sub_def unat_sub)
next
  case False
  then have "unat a \<le> unat b" by (simp add: word_le_nat_alt)
  with False show ?thesis by (simp add: u32_saturating_sub_def)
qed

lemma u32_saturating_add_one_nonzero: "u32_saturating_add a 1 \<noteq> 0"
proof
  assume "u32_saturating_add a 1 = 0"
  then have "unat (u32_saturating_add a 1) = 0" by simp
  then show False by (simp add: unat_u32_saturating_add)
qed

subsection \<open>The \<open>loop\<close> construct\<close>

text \<open>
  A Rust \<open>loop\<close> runs its body until the body leaves it. The body of the model maps the
  loop's variables to \<open>Inl\<close> of the next iteration's variables or to \<open>Inr\<close> of what the
  loop is left with; a loop that is never left is \<^const>\<open>None\<close>. \<open>iterate body n\<close> is the
  loop cut off after \<open>n\<close> iterations, which is what the proofs use.
\<close>

partial_function (option) rust_loop :: "('s \<Rightarrow> 's + 'r) \<Rightarrow> 's \<Rightarrow> 'r option" where
  "rust_loop body s = (case body s of Inl s' \<Rightarrow> rust_loop body s' | Inr r \<Rightarrow> Some r)"

fun iterate :: "('s \<Rightarrow> 's + 'r) \<Rightarrow> nat \<Rightarrow> 's \<Rightarrow> 's + 'r" where
  "iterate body 0 s = Inl s"
| "iterate body (Suc n) s = (case body s of Inl s' \<Rightarrow> iterate body n s' | Inr r \<Rightarrow> Inr r)"

lemma iterate_rust_loop:
  "iterate body n s = Inr r \<Longrightarrow> rust_loop body s = Some r"
proof (induction n arbitrary: s)
  case 0
  then show ?case by simp
next
  case (Suc n)
  then show ?case by (subst rust_loop.simps) (auto split: sum.splits)
qed

lemma rust_loop_iterate:
  assumes "rust_loop body s = Some r"
  shows "\<exists>n. iterate body n s = Inr r"
proof (rule rust_loop.raw_induct [where P = "\<lambda>b s r. \<exists>n. iterate b n s = Inr r", OF _ assms])
  fix loop body s r
  assume IH: "\<And>body s r. loop body s = Some r \<Longrightarrow> \<exists>n. iterate body n s = Inr r"
    and eq: "(case body s of Inl s' \<Rightarrow> loop body s' | Inr r \<Rightarrow> Some r) = Some r"
  show "\<exists>n. iterate body n s = Inr r"
  proof (cases "body s")
    case (Inl s')
    with eq IH obtain n where "iterate body n s' = Inr r" by fastforce
    with Inl have "iterate body (Suc n) s = Inr r" by simp
    then show ?thesis ..
  next
    case (Inr r')
    with eq have "iterate body (Suc 0) s = Inr r" by simp
    then show ?thesis ..
  qed
qed

lemma rust_loop_Some_iff: "rust_loop body s = Some r \<longleftrightarrow> (\<exists>n. iterate body n s = Inr r)"
  using iterate_rust_loop rust_loop_iterate by metis

lemma rust_loop_None_iff: "rust_loop body s = None \<longleftrightarrow> (\<forall>n. \<exists>s'. iterate body n s = Inl s')"
proof -
  have "rust_loop body s = None \<longleftrightarrow> (\<forall>n r. iterate body n s \<noteq> Inr r)"
    using rust_loop_Some_iff [of body s] by (cases "rust_loop body s") (auto, blast)
  also have "\<dots> \<longleftrightarrow> (\<forall>n. \<exists>s'. iterate body n s = Inl s')"
    by (metis sum.exhaust sum.distinct(1))
  finally show ?thesis .
qed

lemma rust_loop_step: "body s = Inl s' \<Longrightarrow> rust_loop body s = rust_loop body s'"
  by (subst rust_loop.simps) simp

lemma rust_loop_exit: "body s = Inr r \<Longrightarrow> rust_loop body s = Some r"
  by (subst rust_loop.simps) simp

text \<open>The invariant rule: what every iteration keeps, and what it says of the exit.\<close>

lemma rust_loop_invariant:
  assumes run: "rust_loop body s = Some r"
    and init: "I s"
    and keep: "\<And>s s'. I s \<Longrightarrow> body s = Inl s' \<Longrightarrow> I s'"
    and exit: "\<And>s r. I s \<Longrightarrow> body s = Inr r \<Longrightarrow> Q r"
  shows "Q r"
proof -
  obtain n where "iterate body n s = Inr r" using rust_loop_iterate [OF run] ..
  then show ?thesis using init
  proof (induction n arbitrary: s)
    case 0
    then show ?case by simp
  next
    case (Suc n)
    then show ?case by (auto split: sum.splits intro: keep exit)
  qed
qed

text \<open>The variant rule: a \<open>nat\<close> measure that every iteration decreases.\<close>

lemma rust_loop_terminates:
  fixes m :: "'s \<Rightarrow> nat"
  assumes init: "I s"
    and keep: "\<And>s s'. I s \<Longrightarrow> body s = Inl s' \<Longrightarrow> I s' \<and> m s' < m s"
  shows "\<exists>r. rust_loop body s = Some r"
  using init
proof (induction "m s" arbitrary: s rule: less_induct)
  case less
  show ?case
  proof (cases "body s")
    case (Inl s')
    with keep [OF less.prems] have "I s'" "m s' < m s" by auto
    with less.hyps obtain r where "rust_loop body s' = Some r" by blast
    with Inl show ?thesis by (auto simp: rust_loop_step)
  next
    case (Inr r)
    then show ?thesis by (auto intro: rust_loop_exit)
  qed
qed

lemma rust_loop_total:
  fixes m :: "'s \<Rightarrow> nat"
  assumes init: "I s"
    and keep: "\<And>s s'. I s \<Longrightarrow> body s = Inl s' \<Longrightarrow> I s' \<and> m s' < m s"
    and exit: "\<And>s r. I s \<Longrightarrow> body s = Inr r \<Longrightarrow> Q r"
  shows "\<exists>r. rust_loop body s = Some r \<and> Q r"
proof -
  obtain r where r: "rust_loop body s = Some r"
    using rust_loop_terminates [of I, OF init keep] by blast
  moreover have "Q r"
    by (rule rust_loop_invariant [OF r, of I]) (use init keep exit in blast)+
  ultimately show ?thesis by blast
qed

text \<open>The divergence rule: an invariant under which the body never leaves the loop.\<close>

lemma rust_loop_diverges:
  assumes init: "I s"
    and keep: "\<And>s. I s \<Longrightarrow> \<exists>s'. body s = Inl s' \<and> I s'"
  shows "rust_loop body s = None"
proof -
  have "\<exists>s'. iterate body n s = Inl s'" for n
    using init
  proof (induction n arbitrary: s)
    case 0
    then show ?case by simp
  next
    case (Suc n)
    then show ?case using keep [OF Suc.prems] by auto
  qed
  then show ?thesis by (simp add: rust_loop_None_iff)
qed

text \<open>
  The lockstep rule: two loops whose bodies, on related states, go on in related states or
  leave with related answers, end alike.
\<close>

lemma rust_loop_lockstep:
  assumes init: "R s t"
    and turn: "\<And>s t. R s t \<Longrightarrow> rel_sum R Q (b s) (c t)"
  shows "rel_option Q (rust_loop b s) (rust_loop c t)"
proof -
  have it: "rel_sum R Q (iterate b n s) (iterate c n t)" for n
    using init
  proof (induction n arbitrary: s t)
    case (Suc n)
    show ?case
      using turn [OF Suc.prems] Suc.IH by (auto elim!: rel_sum.cases split: sum.split)
  qed simp
  show ?thesis
  proof (cases "rust_loop b s")
    case None
    then have "\<exists>t'. iterate c n t = Inl t'" for n
      using it [of n] by (auto simp: rust_loop_None_iff rel_sum_simps dest!: spec [of _ n] elim!: rel_sum.cases)
    then have "rust_loop c t = None" by (simp add: rust_loop_None_iff)
    with None show ?thesis by simp
  next
    case (Some r)
    then obtain n where "iterate b n s = Inr r" by (auto simp: rust_loop_Some_iff)
    with it [of n] obtain q where "iterate c n t = Inr q" "Q r q" by (auto elim: rel_sum.cases)
    then show ?thesis using Some iterate_rust_loop [of c n t q] by simp
  qed
qed

text \<open>
  The simulation rule: a loop \<open>c\<close> whose states include those of \<open>b\<close> (under \<open>h\<close>) and which
  takes one or more turns for every turn of \<open>b\<close> leaves with what \<open>b\<close> leaves with, and
  does not terminate when \<open>b\<close> does not.
\<close>

lemma iterate_add:
  "iterate c (m + n) s = (case iterate c m s of Inl s' \<Rightarrow> iterate c n s' | Inr r \<Rightarrow> Inr r)"
  by (induction m arbitrary: s) (auto split: sum.split)

lemma rust_loop_simulation:
  assumes init: "I s"
    and turn: "\<And>s s'. I s \<Longrightarrow> b s = Inl s' \<Longrightarrow> I s' \<and> (\<exists>n. iterate c (Suc n) (h s) = Inl (h s'))"
    and leave: "\<And>s r. I s \<Longrightarrow> b s = Inr r \<Longrightarrow> \<exists>n q. iterate c n (h s) = Inr q \<and> g q = f r"
  shows "map_option g (rust_loop c (h s)) = map_option f (rust_loop b s)"
proof (cases "rust_loop b s")
  case (Some r)
  then obtain n where "iterate b n s = Inr r" using rust_loop_iterate by metis
  then have "\<exists>q. rust_loop c (h s) = Some q \<and> g q = f r"
    using init
  proof (induction n arbitrary: s)
    case (Suc n)
    show ?case
    proof (cases "b s")
      case (Inl s')
      obtain k where k: "iterate c (Suc k) (h s) = Inl (h s')" and I: "I s'"
        using turn [OF Suc.prems(2) Inl] by blast
      have "iterate b n s' = Inr r" using Suc.prems(1) Inl by simp
      from Suc.IH [OF this I] obtain q where q: "rust_loop c (h s') = Some q" "g q = f r" by blast
      then obtain m where "iterate c m (h s') = Inr q" using rust_loop_iterate by metis
      then have "iterate c (Suc k + m) (h s) = Inr q" by (simp only: iterate_add k sum.case)
      then have "rust_loop c (h s) = Some q" by (rule iterate_rust_loop)
      then show ?thesis using q(2) by blast
    next
      case (Inr r')
      with Suc.prems(1) have "r' = r" by simp
      with leave [OF Suc.prems(2) Inr] show ?thesis by (metis iterate_rust_loop)
    qed
  qed simp
  with Some show ?thesis by auto
next
  case None
  have "\<exists>r. rust_loop b s = Some r" if "iterate c n (h s) = Inr q" "I s" for n q s
    using that
  proof (induction n arbitrary: s rule: less_induct)
    case (less n)
    show ?case
    proof (cases "b s")
      case (Inl s')
      obtain k where k: "iterate c (Suc k) (h s) = Inl (h s')" and I: "I s'"
        using turn [OF less.prems(2) Inl] by blast
      have "Suc k \<le> n"
      proof (rule ccontr)
        assume "\<not> Suc k \<le> n"
        then obtain j where "Suc k = n + j" using less_imp_add_positive [of n "Suc k"] by (metis not_le)
        then show False using k less.prems(1) iterate_add [of c n j "h s"] by simp
      qed
      then obtain j where j: "n = Suc k + j" by (metis le_add_diff_inverse)
      have "iterate c j (h s') = Inr q"
        using less.prems(1) unfolding j by (simp only: iterate_add k sum.case)
      moreover have "j < n" using j by simp
      ultimately have "\<exists>r. rust_loop b s' = Some r" using less.IH I by blast
      then show ?thesis using Inl by (simp add: rust_loop_step)
    next
      case (Inr r)
      then show ?thesis by (auto intro: rust_loop_exit)
    qed
  qed
  with None init have "rust_loop c (h s) = None"
    by (metis rust_loop_iterate not_None_eq)
  with None show ?thesis by simp
qed

text \<open>
  A loop that runs another loop and goes on with what that one is left with is one loop,
  whose turns are those of the inner loop and, between them, the outer continuation.
\<close>

definition fuse :: "('s \<Rightarrow> 's + 'q) \<Rightarrow> ('q \<Rightarrow> 's + 'r) \<Rightarrow> 's \<Rightarrow> 's + 'r" where
  "fuse b k s = (case b s of Inl s' \<Rightarrow> Inl s' | Inr q \<Rightarrow> k q)"

lemma rust_loop_fuse:
  assumes "rust_loop b s = Some q"
  shows "rust_loop (fuse b k) s =
           (case k q of Inl s' \<Rightarrow> rust_loop (fuse b k) s' | Inr r \<Rightarrow> Some r)"
proof -
  obtain n where "iterate b n s = Inr q" using rust_loop_iterate [OF assms] ..
  then show ?thesis
  proof (induction n arbitrary: s)
    case (Suc n)
    show ?case
    proof (cases "b s")
      case (Inl s')
      then have "rust_loop (fuse b k) s = rust_loop (fuse b k) s'"
        by (intro rust_loop_step) (simp add: fuse_def)
      then show ?thesis using Suc.IH [of s'] Suc.prems Inl by simp
    next
      case (Inr q')
      then have "fuse b k s = k q" using Suc.prems by (simp add: fuse_def)
      then show ?thesis by (subst rust_loop.simps) simp
    qed
  qed simp
qed

lemma fuse_unnest:
  assumes F: "\<And>s. I s \<Longrightarrow> F s = (case rust_loop b s of None \<Rightarrow> None
      | Some q \<Rightarrow> (case k q of Inl s' \<Rightarrow> F s' | Inr r \<Rightarrow> Some r))"
    and inner: "\<And>s s'. I s \<Longrightarrow> b s = Inl s' \<Longrightarrow> I s'"
    and outer: "\<And>s q s'. I s \<Longrightarrow> b s = Inr q \<Longrightarrow> k q = Inl s' \<Longrightarrow> I s'"
    and "I s" and "iterate (fuse b k) n s = Inr r"
  shows "F s = Some r"
  using assms(4,5)
proof (induction n arbitrary: s)
  case (Suc n)
  show ?case
  proof (cases "b s")
    case (Inl s')
    then have "F s' = Some r" using Suc inner by (auto simp: fuse_def)
    then show ?thesis
      using F [OF Suc.prems(1)] F [OF inner [OF Suc.prems(1) Inl]] Inl by (simp add: rust_loop_step)
  next
    case (Inr q)
    then have eq: "F s = (case k q of Inl s' \<Rightarrow> F s' | Inr r \<Rightarrow> Some r)"
      using F [OF Suc.prems(1)] by (simp add: rust_loop_exit)
    show ?thesis
      using Suc.prems Suc.IH outer [OF Suc.prems(1) Inr] Inr unfolding eq
      by (cases "k q") (auto simp: fuse_def)
  qed
qed simp

definition reaches :: "('s \<Rightarrow> 's + 'r) \<Rightarrow> 's \<Rightarrow> 's \<Rightarrow> bool" where
  "reaches c s t \<longleftrightarrow> (\<exists>n. iterate c n s = Inl t)"

lemma reaches_refl: "reaches c s s"
  unfolding reaches_def by (rule exI [of _ 0]) simp

lemma reaches_trans: "reaches c s t \<Longrightarrow> reaches c t u \<Longrightarrow> reaches c s u"
  unfolding reaches_def by (metis iterate_add sum.case(1))

lemma reaches_step: "c s = Inl t \<Longrightarrow> reaches c t u \<Longrightarrow> \<exists>n. iterate c (Suc n) s = Inl u"
  by (auto simp: reaches_def)

lemma reaches_turn: "c s = Inl t \<Longrightarrow> reaches c t u \<Longrightarrow> reaches c s u"
  using reaches_step [of c s t u] by (auto simp: reaches_def simp del: iterate.simps)

lemma reaches_exit: "reaches c s t \<Longrightarrow> c t = Inr q \<Longrightarrow> \<exists>n. iterate c n s = Inr q"
proof -
  assume "reaches c s t" and q: "c t = Inr q"
  then obtain n where "iterate c n s = Inl t" by (auto simp: reaches_def)
  then have "iterate c (n + 1) s = Inr q" using q by (simp only: iterate_add sum.case) simp
  then show ?thesis ..
qed

subsection \<open>A \<open>loop\<close> whose body acts on the world\<close>

definition loop_body :: "('v \<Rightarrow> ('x, 'v + 'e) state) \<Rightarrow> 'v \<times> 'x \<Rightarrow> ('v \<times> 'x) + ('e \<times> 'x)" where
  "loop_body body = (\<lambda>(v, x).
     case run_state (body v) x of (Inl v', x') \<Rightarrow> Inl (v', x') | (Inr e, x') \<Rightarrow> Inr (e, x'))"

definition state_loop :: "('v \<Rightarrow> ('x, 'v + 'e) state) \<Rightarrow> 'v \<Rightarrow> 'x \<Rightarrow> ('e \<times> 'x) option" where
  "state_loop body v x = rust_loop (loop_body body) (v, x)"

lemma run_map_state: "run_state (map_state f m) x = (case run_state m x of (a, x') \<Rightarrow> (f a, x'))"
  by (cases m) (simp add: map_prod_def)

lemma loop_body_Inl_iff:
  "loop_body body s = Inl s' \<longleftrightarrow> run_state (body (fst s)) (snd s) = (Inl (fst s'), snd s')"
  by (cases s; cases s') (auto simp: loop_body_def split: prod.splits sum.splits)

lemma loop_body_Inr_iff:
  "loop_body body s = Inr r \<longleftrightarrow> run_state (body (fst s)) (snd s) = (Inr (fst r), snd r)"
  by (cases s; cases r) (auto simp: loop_body_def split: prod.splits sum.splits)

lemma state_loop_step:
  "run_state (body v) x = (Inl v', x') \<Longrightarrow> state_loop body v x = state_loop body v' x'"
  unfolding state_loop_def by (rule rust_loop_step) (simp add: loop_body_Inl_iff)

lemma state_loop_exit:
  "run_state (body v) x = (Inr e, x') \<Longrightarrow> state_loop body v x = Some (e, x')"
  unfolding state_loop_def by (rule rust_loop_exit) (simp add: loop_body_Inr_iff)

lemma state_loop_invariant:
  assumes "state_loop body v x = Some (e, x')"
    and "I v x"
    and "\<And>v x v' x'. I v x \<Longrightarrow> run_state (body v) x = (Inl v', x') \<Longrightarrow> I v' x'"
    and "\<And>v x e x'. I v x \<Longrightarrow> run_state (body v) x = (Inr e, x') \<Longrightarrow> Q e x'"
  shows "Q e x'"
proof -
  have "case_prod Q (e, x')"
    using assms(1) unfolding state_loop_def
    by (rule rust_loop_invariant [where I = "case_prod I" and Q = "case_prod Q"])
      (auto simp: loop_body_Inl_iff loop_body_Inr_iff intro: assms)
  then show ?thesis by simp
qed

lemma state_loop_total:
  fixes m :: "'v \<Rightarrow> 'x \<Rightarrow> nat"
  assumes "I v x"
    and "\<And>v x v' x'. I v x \<Longrightarrow> run_state (body v) x = (Inl v', x') \<Longrightarrow> I v' x' \<and> m v' x' < m v x"
    and "\<And>v x e x'. I v x \<Longrightarrow> run_state (body v) x = (Inr e, x') \<Longrightarrow> Q e x'"
  shows "\<exists>e x'. state_loop body v x = Some (e, x') \<and> Q e x'"
proof -
  have "\<exists>r. rust_loop (loop_body body) (v, x) = Some r \<and> case_prod Q r"
    by (rule rust_loop_total [where I = "case_prod I" and m = "case_prod m"])
      (use assms(1) in \<open>auto simp: loop_body_Inl_iff loop_body_Inr_iff dest: assms(2) intro: assms(3)\<close>)
  then show ?thesis by (auto simp: state_loop_def)
qed

lemma state_loop_diverges:
  assumes "I v x"
    and "\<And>v x. I v x \<Longrightarrow> \<exists>v' x'. run_state (body v) x = (Inl v', x') \<and> I v' x'"
  shows "state_loop body v x = None"
  unfolding state_loop_def
proof (rule rust_loop_diverges [where I = "case_prod I"])
  show "case_prod I (v, x)" using assms(1) by simp
next
  fix s assume "case_prod I s"
  then show "\<exists>s'. loop_body body s = Inl s' \<and> case_prod I s'"
    using assms(2) [of "fst s" "snd s"] by (force simp: loop_body_Inl_iff case_prod_beta)
qed

subsection \<open>Computations that respect a relation between worlds\<close>

text \<open>
  \<open>keeps R m\<close>: whatever world \<open>m\<close> starts from, the world it leaves is related to it. With
  a preorder \<open>R\<close> this is closed under sequencing, which is how a property of the callbacks
  (they leave a log alone, they do not turn the clock back) becomes one of the engine.
\<close>

definition keeps :: "('x \<Rightarrow> 'x \<Rightarrow> bool) \<Rightarrow> ('x, 'a) state \<Rightarrow> bool" where
  "keeps R m \<longleftrightarrow> (\<forall>x. R x (snd (run_state m x)))"

lemma keepsI [intro]: "(\<And>x. R x (snd (run_state m x))) \<Longrightarrow> keeps R m"
  by (simp add: keeps_def)

lemma keepsD: "keeps R m \<Longrightarrow> run_state m x = (a, x') \<Longrightarrow> R x x'"
  by (metis keeps_def snd_conv)

lemma keeps_return: "reflp R \<Longrightarrow> keeps R (State_Monad.return a)"
  by (auto simp: reflp_def)

lemma keeps_bind:
  assumes "transp R" and "keeps R m" and "\<And>a. keeps R (f a)"
  shows "keeps R (State_Monad.bind m f)"
proof
  fix x
  obtain a x1 where m: "run_state m x = (a, x1)" by fastforce
  obtain b x2 where f: "run_state (f a) x1 = (b, x2)" by fastforce
  have "R x x1" "R x1 x2" using keepsD [OF assms(2) m] keepsD [OF assms(3) f] by auto
  then show "R x (snd (run_state (State_Monad.bind m f) x))"
    using m f assms(1) by (auto dest: transpD)
qed

lemma keeps_fold:
  assumes "reflp R" and "transp R" and "\<And>f. f \<in> set fs \<Longrightarrow> keeps R (f v)"
  shows "R x (fold (\<lambda>f x. snd (run_state (f v) x)) fs x)"
  using assms(3)
proof (induction fs arbitrary: x)
  case Nil
  then show ?case using assms(1) by (simp add: reflp_def)
next
  case (Cons f fs)
  have "R x (snd (run_state (f v) x))" using Cons.prems by (simp add: keeps_def)
  moreover have "R (snd (run_state (f v) x)) (fold (\<lambda>f x. snd (run_state (f v) x)) fs (snd (run_state (f v) x)))"
    using Cons by simp
  ultimately show ?case using assms(2) by (auto dest: transpD)
qed

end
