(* ===== verification/Rust_Duration.thy ===== *)
theory Rust_Duration
  imports Prelude
begin

text \<open>
  \<open>core::time::Duration\<close>, which \<open>src/src/compat.rs\<close> re-exports and every module uses: a
  whole number of nanoseconds, at most \<open>u64::MAX\<close> seconds and 999999999 nanoseconds. The
  type carries the bound, so no operation of the model can leave the range, and each
  operation is given by its reading in nanoseconds (the \<open>dur_simps\<close>).

  Readings such as \<open>as_nanos\<close> return \<open>u128\<close> in Rust and \<open>nat\<close> here: they are below
  \<open>2 ^ 94\<close>, so no \<open>u128\<close> operation of the crate on them wraps.
\<close>

definition duration_max_nanos :: nat where
  "duration_max_nanos = 18446744073709551615999999999"

lemma duration_max_nanos_eq: "duration_max_nanos = (2 ^ 64 - 1) * 1000000000 + 999999999"
  by (simp add: duration_max_nanos_def)

typedef duration = "{n. n \<le> duration_max_nanos}" morphisms as_nanos Abs_duration
  by (rule exI [of _ 0]) simp

setup_lifting type_definition_duration

lemma as_nanos_le: "as_nanos d \<le> duration_max_nanos"
  using as_nanos [of d] by simp

lemma as_nanos_bound: "as_nanos d \<le> 18446744073709551615999999999"
  using as_nanos_le [of d] by (simp add: duration_max_nanos_def)

lemma as_nanos_inject_iff: "d = e \<longleftrightarrow> as_nanos d = as_nanos e"
  by (simp add: as_nanos_inject)

instantiation duration :: equal
begin

definition equal_duration :: "duration \<Rightarrow> duration \<Rightarrow> bool" where
  "equal_duration d e \<longleftrightarrow> as_nanos d = as_nanos e"

instance
  by standard (simp add: equal_duration_def as_nanos_inject)

end

instantiation duration :: linorder
begin

definition less_eq_duration :: "duration \<Rightarrow> duration \<Rightarrow> bool" where
  "d \<le> e \<longleftrightarrow> as_nanos d \<le> as_nanos e"

definition less_duration :: "duration \<Rightarrow> duration \<Rightarrow> bool" where
  "d < e \<longleftrightarrow> as_nanos d < as_nanos e"

instance
  by standard (auto simp: less_eq_duration_def less_duration_def as_nanos_inject)

end

lemmas [dur_simps] = less_eq_duration_def less_duration_def as_nanos_inject_iff

lemma as_nanos_min [dur_simps]: "as_nanos (min d e) = min (as_nanos d) (as_nanos e)"
  by (simp add: min_def less_eq_duration_def)

lemma as_nanos_max [dur_simps]: "as_nanos (max d e) = max (as_nanos d) (as_nanos e)"
  by (simp add: max_def less_eq_duration_def)

subsection \<open>Constants and constructors\<close>

lift_definition duration_zero :: duration is "0"
  by simp

lift_definition duration_MAX :: duration is duration_max_nanos
  by simp

lift_definition from_nanos :: "u64 \<Rightarrow> duration" is "\<lambda>n. unat n"
proof -
  fix n :: u64
  show "unat n \<le> duration_max_nanos"
    using unat_u64_lt [of n] by (simp add: duration_max_nanos_def)
qed

lift_definition from_micros :: "u64 \<Rightarrow> duration" is "\<lambda>n. unat n * 1000"
proof -
  fix n :: u64
  show "unat n * 1000 \<le> duration_max_nanos"
    using unat_u64_lt [of n] by (simp add: duration_max_nanos_def)
qed

lift_definition from_millis :: "u64 \<Rightarrow> duration" is "\<lambda>n. unat n * 1000000"
proof -
  fix n :: u64
  show "unat n * 1000000 \<le> duration_max_nanos"
    using unat_u64_lt [of n] by (simp add: duration_max_nanos_def)
qed

lift_definition from_secs :: "u64 \<Rightarrow> duration" is "\<lambda>n. unat n * 1000000000"
proof -
  fix n :: u64
  show "unat n * 1000000000 \<le> duration_max_nanos"
    using unat_u64_lt [of n] by (simp add: duration_max_nanos_def)
qed

text \<open>The duration of a number of nanoseconds, cut off at the maximum.\<close>

lift_definition duration_of :: "nat \<Rightarrow> duration" is "\<lambda>n. min n duration_max_nanos"
  by simp

text \<open>
  \<open>Duration::new\<close> carries whole seconds out of the nanoseconds and panics when the seconds
  overflow \<open>u64\<close>: \<^const>\<open>None\<close>.
\<close>

definition duration_new :: "u64 \<Rightarrow> u32 \<Rightarrow> duration option" where
  "duration_new secs nanos =
     (let total = unat secs * 1000000000 + unat nanos
      in if total \<le> duration_max_nanos then Some (duration_of total) else None)"

subsection \<open>Operations\<close>

lift_definition saturating_add :: "duration \<Rightarrow> duration \<Rightarrow> duration"
  is "\<lambda>a b. min (a + b) duration_max_nanos"
  by simp

lift_definition saturating_sub :: "duration \<Rightarrow> duration \<Rightarrow> duration" is "\<lambda>a b. a - b"
  by simp

lift_definition saturating_mul :: "duration \<Rightarrow> u32 \<Rightarrow> duration"
  is "\<lambda>a k. min (a * unat k) duration_max_nanos"
  by simp

definition checked_mul :: "duration \<Rightarrow> u32 \<Rightarrow> duration option" where
  "checked_mul d k =
     (if as_nanos d * unat k \<le> duration_max_nanos
      then Some (duration_of (as_nanos d * unat k)) else None)"

text \<open>Division by the constant two, the only divisor of the crate.\<close>

lift_definition duration_half :: "duration \<Rightarrow> duration" is "\<lambda>a. a div 2"
  by simp

definition duration_is_zero :: "duration \<Rightarrow> bool" where
  "duration_is_zero d \<longleftrightarrow> as_nanos d = 0"

definition as_micros :: "duration \<Rightarrow> nat" where
  "as_micros d = as_nanos d div 1000"

definition as_millis :: "duration \<Rightarrow> nat" where
  "as_millis d = as_nanos d div 1000000"

lemmas as_nanos_ops [dur_simps] =
  duration_zero.rep_eq duration_MAX.rep_eq from_nanos.rep_eq from_micros.rep_eq
  from_millis.rep_eq from_secs.rep_eq duration_of.rep_eq saturating_add.rep_eq
  saturating_sub.rep_eq saturating_mul.rep_eq duration_half.rep_eq

lemmas [dur_simps] = duration_is_zero_def as_micros_def as_millis_def duration_max_nanos_def

subsection \<open>Laws\<close>

lemma duration_of_as_nanos [simp]: "duration_of (as_nanos d) = d"
  using as_nanos_le [of d] by (simp add: as_nanos_inject_iff duration_of.rep_eq)

lemma saturating_add_zero [simp]:
  "saturating_add d duration_zero = d" "saturating_add duration_zero d = d"
  using as_nanos_le [of d] by (simp_all add: as_nanos_inject_iff saturating_add.rep_eq duration_zero.rep_eq)

lemma saturating_add_assoc:
  "saturating_add (saturating_add a b) c = saturating_add a (saturating_add b c)"
  by (simp add: as_nanos_inject_iff saturating_add.rep_eq min_def)

lemma saturating_add_commute: "saturating_add a b = saturating_add b a"
  by (simp add: as_nanos_inject_iff saturating_add.rep_eq add.commute)

lemma saturating_add_mono: "a \<le> a' \<Longrightarrow> b \<le> b' \<Longrightarrow> saturating_add a b \<le> saturating_add a' b'"
  by (simp add: less_eq_duration_def saturating_add.rep_eq min_def)

lemma saturating_add_ge: "a \<le> saturating_add a b" "b \<le> saturating_add a b"
  using as_nanos_le [of a] as_nanos_le [of b]
  by (simp_all add: less_eq_duration_def saturating_add.rep_eq)

lemma duration_zero_le [simp]: "duration_zero \<le> d"
  by (simp add: less_eq_duration_def duration_zero.rep_eq)

lemma duration_le_MAX [simp]: "d \<le> duration_MAX"
  by (simp add: less_eq_duration_def duration_MAX.rep_eq as_nanos_le)

lemma duration_is_zero_iff [simp]: "duration_is_zero d \<longleftrightarrow> d = duration_zero"
  by (simp add: dur_simps)

subsection \<open>Evaluation\<close>

text \<open>
  Durations given in nanoseconds, for following a run on concrete values: every operation on
  them is one on the numbers while these stay in range.
\<close>

lemma duration_of_ops:
  "saturating_add (duration_of a) (duration_of b) = duration_of (a + b)"
  "a \<le> duration_max_nanos \<Longrightarrow> saturating_sub (duration_of a) (duration_of b) = duration_of (a - b)"
  "min (duration_of a) (duration_of b) = duration_of (min a b)"
  unfolding as_nanos_inject_iff as_nanos_min duration_of.rep_eq saturating_add.rep_eq saturating_sub.rep_eq
  by linarith+

lemma duration_of_rels:
  "a \<le> duration_max_nanos \<Longrightarrow> duration_of a \<le> duration_of b \<longleftrightarrow> a \<le> b"
  "a \<le> duration_max_nanos \<Longrightarrow> b \<le> duration_max_nanos \<Longrightarrow> duration_of a = duration_of b \<longleftrightarrow> a = b"
  by (auto simp: as_nanos_inject_iff duration_of.rep_eq less_eq_duration_def)

lemma duration_of_constants:
  "duration_zero = duration_of 0" "from_millis n = duration_of (unat n * 1000000)"
  "from_secs m = duration_of (unat m * 1000000000)"
  using from_millis.rep_eq [of n] as_nanos_le [of "from_millis n"]
    from_secs.rep_eq [of m] as_nanos_le [of "from_secs m"]
  by (simp_all add: as_nanos_inject_iff duration_of.rep_eq duration_zero.rep_eq)

lemmas dur_eval = duration_of_ops duration_of_rels duration_of_constants
  duration_of.rep_eq duration_max_nanos_def

end
