(* ===== verification/Rust_F64.thy ===== *)
theory Rust_F64
  imports "HOL-Library.Log_Nat" Prelude
begin

text \<open>
  Rust's \<open>f64\<close>, as far as the exponential backoff uses it: IEEE 754 binary64 with rounding
  to nearest, ties to even. A finite number is a sign, a mantissa and a binary exponent,
  \<open>F64 s m e\<close> standing for \<open>m * 2 ^ e\<close>; every operation computes the exact result and
  rounds it once. Several pairs may stand for one number; comparison is by value.

  \<open>floorlog 2 m\<close> is the number of bits of \<open>m\<close>. A finite number is representable
  (\<open>f64_wf\<close>) when its mantissa is at most \<open>2 ^ 53\<close>, its exponent is at least that of the
  least subnormal, \<open>-1074\<close>, and its value is below \<open>2 ^ 1024\<close>.
\<close>

datatype f64 = F64_NaN | F64_Inf bool | F64 bool nat int

definition f64_zero :: f64 where "f64_zero = F64 False 0 0"
definition f64_one :: f64 where "f64_one = F64 False 1 0"
definition f64_two :: f64 where "f64_two = F64 False 1 1"

fun f64_is_finite :: "f64 \<Rightarrow> bool" where
  "f64_is_finite (F64 _ _ _) = True"
| "f64_is_finite _ = False"

fun f64_wf :: "f64 \<Rightarrow> bool" where
  "f64_wf (F64 s m e) \<longleftrightarrow>
     m \<le> 2 ^ 53 \<and> -1074 \<le> e \<and> (m = 0 \<or> int (floorlog 2 m) + e \<le> 1024)"
| "f64_wf _ = True"

subsection \<open>Rounding\<close>

text \<open>A mantissa that fits: zero, or an infinity when the value reaches \<open>2 ^ 1024\<close>.\<close>

definition f64_fit :: "bool \<Rightarrow> nat \<Rightarrow> int \<Rightarrow> f64" where
  "f64_fit s m e =
     (if m = 0 then F64 s 0 0
      else if 1024 < int (floorlog 2 m) + e then F64_Inf s
      else F64 s m e)"

definition f64_round :: "bool \<Rightarrow> nat \<Rightarrow> int \<Rightarrow> f64" where
  "f64_round s m e =
     (let sh = max (int (floorlog 2 m) - 53) (-1074 - e)
      in if sh \<le> 0 then f64_fit s m e
         else let q = m div 2 ^ nat sh; r = m mod 2 ^ nat sh; half = 2 ^ (nat sh - 1);
                  q' = (if half < r \<or> (r = half \<and> odd q) then q + 1 else q)
              in f64_fit s q' (e + sh))"

subsection \<open>Operations\<close>

fun f64_mul :: "f64 \<Rightarrow> f64 \<Rightarrow> f64" where
  "f64_mul F64_NaN _ = F64_NaN"
| "f64_mul _ F64_NaN = F64_NaN"
| "f64_mul (F64_Inf s) (F64_Inf t) = F64_Inf (s \<noteq> t)"
| "f64_mul (F64_Inf s) (F64 t m e) = (if m = 0 then F64_NaN else F64_Inf (s \<noteq> t))"
| "f64_mul (F64 s m e) (F64_Inf t) = (if m = 0 then F64_NaN else F64_Inf (s \<noteq> t))"
| "f64_mul (F64 s m e) (F64 t n f) = f64_round (s \<noteq> t) (m * n) (e + f)"

text \<open>The order \<open>x \<le> y\<close>; every comparison with a NaN is false. The crate only uses \<open>\<le>\<close>, \<open>\<ge>\<close>.\<close>

definition f64_signed :: "bool \<Rightarrow> nat \<Rightarrow> int" where
  "f64_signed s m = (if s then - int m else int m)"

fun f64_le :: "f64 \<Rightarrow> f64 \<Rightarrow> bool" where
  "f64_le F64_NaN _ = False"
| "f64_le _ F64_NaN = False"
| "f64_le (F64_Inf s) (F64_Inf t) = (s \<or> \<not> t)"
| "f64_le (F64_Inf s) (F64 _ _ _) = s"
| "f64_le (F64 _ _ _) (F64_Inf t) = (\<not> t)"
| "f64_le (F64 s m e) (F64 t n f) =
     (f64_signed s m * 2 ^ nat (e - min e f) \<le> f64_signed t n * 2 ^ nat (f - min e f))"

text \<open>\<open>f64::max\<close>: a NaN argument gives the other one.\<close>

definition f64_max :: "f64 \<Rightarrow> f64 \<Rightarrow> f64" where
  "f64_max x y =
     (if x = F64_NaN then y else if y = F64_NaN then x else if f64_le x y then y else x)"

text \<open>The casts \<open>n as f64\<close> (rounds) and \<open>x as u128\<close> (truncates, saturates, NaN to zero).\<close>

definition f64_of_nat :: "nat \<Rightarrow> f64" where
  "f64_of_nat n = f64_round False n 0"

definition f64_trunc :: "nat \<Rightarrow> int \<Rightarrow> nat" where
  "f64_trunc m e = (if 0 \<le> e then m * 2 ^ nat e else m div 2 ^ nat (- e))"

fun f64_to_u128 :: "f64 \<Rightarrow> nat" where
  "f64_to_u128 F64_NaN = 0"
| "f64_to_u128 (F64_Inf s) = (if s then 0 else 2 ^ 128 - 1)"
| "f64_to_u128 (F64 s m e) = (if s then 0 else min (2 ^ 128 - 1) (f64_trunc m e))"

subsection \<open>Values\<close>

text \<open>The real number a mantissa and an exponent stand for; proofs only.\<close>

definition mag :: "nat \<Rightarrow> int \<Rightarrow> real" where
  "mag m e = real m * 2 powi e"

lemma mag_nonneg [simp]: "0 \<le> mag m e"
  by (simp add: mag_def)

lemma mag_mult: "mag (m * n) (e + f) = mag m e * mag n f"
  by (simp add: mag_def power_int_add)

lemma mag_shift: "mag (m * 2 ^ k) e = mag m (e + int k)"
  by (simp add: mag_def power_int_add)

lemma mag_le_iff [simp]: "mag m e \<le> mag n e \<longleftrightarrow> m \<le> n"
  by (simp add: mag_def)

lemma mag_one [simp]: "mag (Suc 0) 0 = 1"
  by (simp add: mag_def)

lemma mag_of_nat [simp]: "mag n 0 = real n"
  by (simp add: mag_def)

lemma mag_down: "c \<le> e \<Longrightarrow> mag m e = mag (m * 2 ^ nat (e - c)) c"
  by (simp add: mag_shift)

lemma f64_le_mag: "f64_le (F64 False m e) (F64 False n f) \<longleftrightarrow> mag m e \<le> mag n f"
proof -
  let ?c = "min e f"
  have "f64_le (F64 False m e) (F64 False n f) \<longleftrightarrow>
        int (m * 2 ^ nat (e - ?c)) \<le> int (n * 2 ^ nat (f - ?c))"
    by (simp add: f64_signed_def)
  also have "\<dots> \<longleftrightarrow> mag (m * 2 ^ nat (e - ?c)) ?c \<le> mag (n * 2 ^ nat (f - ?c)) ?c"
    by (simp only: of_nat_le_iff mag_le_iff)
  also have "\<dots> \<longleftrightarrow> mag m e \<le> mag n f"
    by (simp only: mag_down [of ?c e m, symmetric] mag_down [of ?c f n, symmetric]
          min.cobounded1 min.cobounded2)
  finally show ?thesis .
qed

text \<open>Truncation is the floor of the value.\<close>

lemma f64_trunc_ge_iff: "k \<le> f64_trunc m e \<longleftrightarrow> real k \<le> mag m e"
proof (cases "0 \<le> e")
  case True
  then have "mag m e = real (m * 2 ^ nat e)"
    using mag_down [of 0 e m] by (simp del: of_nat_mult)
  with True show ?thesis by (simp add: f64_trunc_def del: of_nat_mult of_nat_power)
next
  case False
  let ?k = "nat (- e)"
  have "real k \<le> mag m e \<longleftrightarrow> mag (k * 2 ^ ?k) e \<le> mag m e"
    using False by (simp add: mag_shift del: mag_le_iff)
  also have "\<dots> \<longleftrightarrow> k * 2 ^ ?k \<le> m" by simp
  also have "\<dots> \<longleftrightarrow> k \<le> m div 2 ^ ?k" by (simp add: less_eq_div_iff_mult_less_eq)
  finally show ?thesis using False by (simp add: f64_trunc_def)
qed

subsection \<open>Exact results\<close>

lemma floorlog_2_le_iff: "floorlog 2 m \<le> k \<longleftrightarrow> m < 2 ^ k"
  by (simp add: floorlog_le_iff)

lemma f64_round_exact:
  assumes "m < 2 ^ 53" and "-1074 \<le> e"
  shows "f64_round s m e = f64_fit s m e"
proof -
  have "floorlog 2 m \<le> 53" using assms(1) by (simp add: floorlog_2_le_iff)
  with assms(2) show ?thesis by (simp add: f64_round_def Let_def)
qed

lemma f64_fit_small:
  assumes "m < 2 ^ 53" and "0 \<le> e" and "e \<le> 971"
  shows "f64_fit s m e = F64 s m (if m = 0 then 0 else e)"
proof -
  have "floorlog 2 m \<le> 53" using assms(1) by (simp add: floorlog_2_le_iff)
  with assms(2,3) show ?thesis by (simp add: f64_fit_def)
qed

lemma f64_of_nat_exact: "n < 2 ^ 53 \<Longrightarrow> f64_of_nat n = F64 False n 0"
  by (simp add: f64_of_nat_def f64_round_exact f64_fit_small)

lemma f64_mul_nat_exact:
  "m * n < 2 ^ 53 \<Longrightarrow> f64_mul (F64 False m 0) (F64 False n 0) = F64 False (m * n) 0"
  by (simp add: f64_round_exact f64_fit_small)

lemma f64_mul_pow2:
  assumes "0 < m" and "m < 2 ^ 53" and "0 \<le> e" and "0 \<le> f"
  shows "f64_mul (F64 False m e) (F64 False 1 f) =
         (if 1024 < int (floorlog 2 m) + e + f then F64_Inf False else F64 False m (e + f))"
  using assms by (simp add: f64_round_exact f64_fit_def)

subsection \<open>Rounding never crosses a representable number\<close>

fun f64_ge_real :: "real \<Rightarrow> f64 \<Rightarrow> bool" where
  "f64_ge_real v F64_NaN = False"
| "f64_ge_real v (F64_Inf s) = (\<not> s)"
| "f64_ge_real v (F64 s m e) = (\<not> s \<and> v \<le> mag m e)"

lemma f64_ge_fit: "v \<le> mag m e \<Longrightarrow> f64_ge_real v (f64_fit False m e)"
  by (auto simp: f64_fit_def mag_def)

lemma mag_le_quotient:
  assumes k: "k < 2 ^ 53" and c: "-1074 \<le> c" and le: "mag k c \<le> mag m e"
    and sh: "sh = max (int (floorlog 2 m) - 53) (-1074 - e)" and pos: "0 < sh"
  shows "mag k c \<le> mag (m div 2 ^ nat sh) (e + sh)"
proof (cases "e + sh \<le> c")
  case True
  let ?k = "k * 2 ^ nat (c - (e + sh))"
  have down: "mag k c = mag ?k (e + sh)" using True by (rule mag_down)
  also have "\<dots> = mag (?k * 2 ^ nat sh) e" using pos by (simp add: mag_shift)
  finally have "?k * 2 ^ nat sh \<le> m" using le by simp
  then have "?k \<le> m div 2 ^ nat sh" by (simp add: less_eq_div_iff_mult_less_eq)
  then show ?thesis unfolding down by simp
next
  case False
  let ?l = "floorlog 2 m"
  from False c sh have shl: "sh = int ?l - 53" by linarith
  with pos have l: "53 < ?l" by linarith
  then have "2 ^ (?l - 1) \<le> m" using floorlog_bounds [of m 2] by (cases "m = 0") (auto simp: floorlog_def)
  moreover have "(2 :: nat) ^ (?l - 1) = 2 ^ 52 * 2 ^ nat sh"
  proof -
    have "?l - 1 = 52 + nat sh" using l shl by simp
    then show ?thesis by (simp only: power_add)
  qed
  ultimately have q: "2 ^ 52 \<le> m div 2 ^ nat sh" by (simp add: less_eq_div_iff_mult_less_eq)
  have "mag k c \<le> mag (2 ^ 52 * 2 ^ 1) c" using k by simp
  also have "\<dots> = mag (2 ^ 52) (c + 1)" by (simp only: mag_shift) simp
  also have "\<dots> \<le> mag (2 ^ 52) (e + sh)" using False by (simp add: mag_def power_int_increasing)
  also have "\<dots> \<le> mag (m div 2 ^ nat sh) (e + sh)" using q by simp
  finally show ?thesis .
qed

lemma f64_round_ge:
  assumes "k < 2 ^ 53" and "-1074 \<le> c" and "mag k c \<le> mag m e"
  shows "f64_ge_real (mag k c) (f64_round False m e)"
proof -
  define sh where "sh = max (int (floorlog 2 m) - 53) (-1074 - e)"
  show ?thesis
  proof (cases "sh \<le> 0")
    case True
    then show ?thesis
      using f64_ge_fit [OF assms(3)] by (simp add: f64_round_def sh_def Let_def)
  next
    case False
    let ?q = "m div 2 ^ nat sh"
    from False have "mag k c \<le> mag ?q (e + sh)"
      using mag_le_quotient [OF assms sh_def] by simp
    also have "\<dots> \<le> mag (?q + 1) (e + sh)" by simp
    finally have up: "mag k c \<le> mag (?q + 1) (e + sh)" .
    show ?thesis
      using False f64_ge_fit [OF \<open>mag k c \<le> mag ?q (e + sh)\<close>] f64_ge_fit [OF up]
      by (auto simp: f64_round_def sh_def [symmetric] Let_def)
  qed
qed

lemma f64_ge_mul:
  assumes "0 < k" and "k < 2 ^ 53"
    and "f64_ge_real (real k) x" and "f64_ge_real 1 y"
  shows "f64_ge_real (real k) (f64_mul x y)"
proof (cases x)
  case (F64 s m e)
  note x = this
  show ?thesis
  proof (cases y)
    case (F64 t n f)
    with x assms(3,4) have le: "real k \<le> mag m e" "1 \<le> mag n f" and "\<not> s" "\<not> t" by auto
    then have "real k * 1 \<le> mag m e * mag n f" by (intro mult_mono) auto
    then have "mag k 0 \<le> mag (m * n) (e + f)" by (simp add: mag_mult)
    from f64_round_ge [OF assms(2) _ this] show ?thesis
      using x F64 \<open>\<not> s\<close> \<open>\<not> t\<close> by simp
  next
    case (F64_Inf t)
    with x assms show ?thesis by (cases "m = 0") (auto simp: mag_def)
  qed (use assms in simp)
next
  case (F64_Inf s)
  with assms show ?thesis
    by (cases y rule: f64.exhaust) (auto simp: mag_def intro: gr0I)
qed (use assms in simp)

lemma f64_ge_to_u128:
  assumes "f64_ge_real (real k) x" and "k \<le> 2 ^ 128 - 1"
  shows "k \<le> f64_to_u128 x"
  using assms by (cases x) (auto simp: f64_trunc_ge_iff)

subsection \<open>The operations stay within the type\<close>

lemma f64_fit_wf: "m \<le> 2 ^ 53 \<Longrightarrow> -1074 \<le> e \<Longrightarrow> f64_wf (f64_fit s m e)"
  by (simp add: f64_fit_def)

lemma f64_round_wf: "f64_wf (f64_round s m e)"
proof -
  define sh where "sh = max (int (floorlog 2 m) - 53) (-1074 - e)"
  show ?thesis
  proof (cases "sh \<le> 0")
    case True
    then have "floorlog 2 m \<le> 53" "-1074 \<le> e" by (simp_all add: sh_def)
    then have "m \<le> 2 ^ 53" by (simp add: floorlog_2_le_iff)
    then show ?thesis
      using True \<open>-1074 \<le> e\<close> by (simp add: f64_round_def sh_def [symmetric] Let_def f64_fit_wf)
  next
    case False
    have "floorlog 2 m \<le> 53 + nat sh" using False by (simp add: sh_def)
    then have "m < 2 ^ 53 * 2 ^ nat sh" by (simp add: floorlog_2_le_iff power_add)
    then have "m div 2 ^ nat sh < 2 ^ 53" by (simp add: less_mult_imp_div_less)
    moreover have "-1074 \<le> e + sh" by (simp add: sh_def)
    ultimately show ?thesis
      using False by (auto simp: f64_round_def sh_def [symmetric] Let_def intro!: f64_fit_wf)
  qed
qed

lemma f64_mul_wf: "f64_wf (f64_mul x y)"
  by (cases x; cases y) (simp_all add: f64_round_wf)

lemma f64_of_nat_wf: "f64_wf (f64_of_nat n)"
  by (simp add: f64_of_nat_def f64_round_wf)

end
