(* ===== verification/Wait_Math.thy ===== *)
theory Wait_Math
  imports Rust_Duration Rust_F64
begin

unbundle bit_operations_syntax

text \<open>
  \<open>src/src/wait/math.rs\<close>: the guarded arithmetic behind the linear and the exponential
  backoff. \<open>Duration::new\<close> can panic, so the multiplication by an \<open>f64\<close> returns a sum;
  that the panic is unreachable is proved below, not assumed.
\<close>

definition MIN_EXPONENTIAL_BASE :: f64 where
  "MIN_EXPONENTIAL_BASE = f64_one"

definition clamp_exponential_base :: "f64 \<Rightarrow> f64" where
  "clamp_exponential_base base =
     (if \<not> f64_is_finite base then MIN_EXPONENTIAL_BASE
      else f64_max base MIN_EXPONENTIAL_BASE)"

definition saturating_duration_mul :: "duration \<Rightarrow> u32 \<Rightarrow> duration" where
  "saturating_duration_mul dur mul =
     (case checked_mul dur mul of Some d \<Rightarrow> d | None \<Rightarrow> duration_MAX)"

definition saturating_duration_mul_f64 :: "duration \<Rightarrow> f64 \<Rightarrow> panic + duration" where
  "saturating_duration_mul_f64 dur mul =
     (if dur = duration_zero then Inr duration_zero
      else
        let nanos = f64_mul (f64_of_nat (as_nanos dur)) mul
        in if f64_le (f64_of_nat (as_nanos duration_MAX)) nanos then Inr duration_MAX
           else
             let total_nanos = f64_to_u128 nanos
             in case duration_new (word_of_nat (total_nanos div 1000000000))
                                  (word_of_nat (total_nanos mod 1000000000)) of
                  Some d \<Rightarrow> Inr d
                | None \<Rightarrow> Inl ''overflow in Duration::new'')"

text \<open>
  The square-and-multiply loop. The loop variables are the arguments; \<open>remaining\<close> is halved
  by every iteration that goes round.
\<close>

lemma unat_shift_right_one: "unat (drop_bit 1 (r :: u32)) = unat r div 2"
  using unat_drop_bit_eq [of 1 r] by (simp only: drop_bit_eq_div power_one_right)

lemma shift_right_one_less: "drop_bit 1 (r :: u32) \<noteq> 0 \<Longrightarrow> unat (drop_bit 1 r) < unat r"
proof -
  assume "drop_bit 1 r \<noteq> 0"
  then have "unat (drop_bit 1 r) \<noteq> 0" by (simp only: unat_eq_zero) simp
  then show "unat (drop_bit 1 r) < unat r" unfolding unat_shift_right_one by simp
qed

function pow_loop :: "f64 \<Rightarrow> f64 \<Rightarrow> u32 \<Rightarrow> f64" where
  "pow_loop result factor remaining =
     (let result' = (if remaining AND 1 = 1 then f64_mul result factor else result)
      in if remaining AND 1 = 1 \<and> \<not> f64_is_finite result' then F64_Inf False
         else
           let remaining' = drop_bit 1 remaining
           in if remaining' = 0 then result'
              else
                let factor' = f64_mul factor factor;
                    factor'' = (if \<not> f64_is_finite factor' then F64_Inf False else factor')
                in pow_loop result' factor'' remaining')"
  by pat_completeness auto

termination
  by (relation "measure (\<lambda>(_, _, remaining). unat remaining)")
    (use shift_right_one_less in \<open>simp_all del: drop_bit_Suc\<close>)

definition pow_nonnegative_f64 :: "f64 \<Rightarrow> u32 \<Rightarrow> f64" where
  "pow_nonnegative_f64 base exponent =
     (if exponent = 0 then f64_one
      else if f64_le base MIN_EXPONENTIAL_BASE then f64_one
      else pow_loop f64_one base exponent)"

declare pow_loop.simps [simp del]

subsection \<open>The loop over natural numbers\<close>

lemma and_one_iff_odd: "(w :: u32) AND 1 = 1 \<longleftrightarrow> odd (unat w)"
proof -
  have "even (unat w) \<longleftrightarrow> even w" by transfer (simp add: even_nat_iff)
  moreover have "w AND 1 = 1 \<longleftrightarrow> odd w" by (simp add: and_one_eq mod_2_eq_odd)
  ultimately show ?thesis by simp
qed

lemma shift_right_one_eq_0: "drop_bit 1 (w :: u32) = 0 \<longleftrightarrow> unat w div 2 = 0"
  by (metis unat_shift_right_one unat_eq_zero)

text \<open>One iteration: the multiplied result, and the squared factor.\<close>

definition pow_mul_bit :: "f64 \<Rightarrow> f64 \<Rightarrow> u32 \<Rightarrow> f64" where
  "pow_mul_bit r f w = (if odd (unat w) then f64_mul r f else r)"

definition pow_square :: "f64 \<Rightarrow> f64" where
  "pow_square f = (if \<not> f64_is_finite (f64_mul f f) then F64_Inf False else f64_mul f f)"

lemma pow_loop_unfold:
  "pow_loop r f w =
     (if odd (unat w) \<and> \<not> f64_is_finite (pow_mul_bit r f w) then F64_Inf False
      else if unat w div 2 = 0 then pow_mul_bit r f w
      else pow_loop (pow_mul_bit r f w) (pow_square f) (drop_bit 1 w))"
  by (subst pow_loop.simps)
    (simp only: and_one_iff_odd shift_right_one_eq_0 Let_def pow_mul_bit_def pow_square_def)

lemma pow_loop_last:
  "f64_is_finite (pow_mul_bit r f w) \<Longrightarrow> unat w div 2 = 0 \<Longrightarrow> pow_loop r f w = pow_mul_bit r f w"
  by (simp only: pow_loop_unfold [of r f w]) simp

lemma pow_loop_next:
  "f64_is_finite (pow_mul_bit r f w) \<Longrightarrow> unat w div 2 \<noteq> 0 \<Longrightarrow>
   pow_loop r f w = pow_loop (pow_mul_bit r f w) (pow_square f) (drop_bit 1 w)"
  by (simp only: pow_loop_unfold [of r f w]) simp

lemma pow_loop_overflow:
  "odd (unat w) \<Longrightarrow> \<not> f64_is_finite (pow_mul_bit r f w) \<Longrightarrow> pow_loop r f w = F64_Inf False"
  by (simp only: pow_loop_unfold [of r f w]) simp

text \<open>
  Induction over the exponent as a natural number: the body once, with the hypothesis for
  half the exponent.
\<close>

lemma pow_loop_induct [case_names step]:
  assumes "\<And>r f w. (\<And>r' f'. unat w div 2 \<noteq> 0 \<Longrightarrow> P r' f' (drop_bit 1 w)) \<Longrightarrow> P r f w"
  shows "P r f (w :: u32)"
proof (induction "unat w" arbitrary: r f w rule: less_induct)
  case less
  show ?case
  proof (rule assms)
    fix r' f'
    assume "unat w div 2 \<noteq> 0"
    then have "unat (drop_bit 1 w) < unat w" unfolding unat_shift_right_one by simp
    then show "P r' f' (drop_bit 1 w)" by (rule less.hyps)
  qed
qed

lemma power_odd_even:
  fixes b :: nat
  shows "odd n \<Longrightarrow> b ^ n = b * (b * b) ^ (n div 2)" "even n \<Longrightarrow> b ^ n = (b * b) ^ (n div 2)"
  by (auto simp: power_mult [symmetric] power2_eq_square [symmetric] elim!: oddE)

lemma pow_le_of_exponent: "1 \<le> (b :: nat) \<Longrightarrow> 1 \<le> k \<Longrightarrow> b \<le> b ^ k"
  by (simp add: self_le_power)

text \<open>Integers stay exact as long as the result is below \<open>2 ^ 53\<close>.\<close>

lemma pow_loop_exact:
  assumes "1 \<le> m" and "1 \<le> b" and "w \<noteq> 0" and "m * b ^ unat w < 2 ^ 53"
  shows "pow_loop (F64 False m 0) (F64 False b 0) w = F64 False (m * b ^ unat w) 0"
  using assms
proof (induction "F64 False m 0" "F64 False b 0" w arbitrary: m b rule: pow_loop_induct)
  case (step w)
  let ?n = "unat w"
  have n: "?n \<noteq> 0" using step.prems(3) by (simp only: unat_eq_zero) simp
  define m' where "m' = (if odd ?n then m * b else m)"
  have split: "m * b ^ ?n = m' * (b * b) ^ (?n div 2)"
    by (simp add: m'_def power_odd_even)
  have m'1: "1 \<le> m'" using step.prems(1,2) by (simp add: m'_def)
  have bb: "1 \<le> b * b" using step.prems(2) by simp
  have "m' \<le> m' * (b * b) ^ (?n div 2)" using bb by simp
  then have m'_lt: "m' < 2 ^ 53" using split step.prems(4) by linarith
  have res: "pow_mul_bit (F64 False m 0) (F64 False b 0) w = F64 False m' 0"
    using m'_lt f64_mul_nat_exact [of m b]
    by (auto simp: m'_def pow_mul_bit_def simp del: f64_mul.simps)
  show ?case
  proof (cases "?n div 2 = 0")
    case True
    then show ?thesis unfolding split by (simp add: pow_loop_last res)
  next
    case False
    have "b * b \<le> (b * b) ^ (?n div 2)" using bb False by (intro pow_le_of_exponent) auto
    also have "\<dots> \<le> m' * (b * b) ^ (?n div 2)" using m'1 by simp
    finally have "b * b < 2 ^ 53" using split step.prems(4) by linarith
    from f64_mul_nat_exact [OF this] have sq: "pow_square (F64 False b 0) = F64 False (b * b) 0"
      by (simp add: pow_square_def del: f64_mul.simps)
    have "pow_loop (F64 False m' 0) (F64 False (b * b) 0) (drop_bit 1 w) =
        F64 False (m' * (b * b) ^ unat (drop_bit 1 w)) 0"
      using False m'1 bb split step.prems(4)
      by (intro step.hyps)
        (simp_all only: unat_shift_right_one shift_right_one_eq_0 not_False_eq_True)
    moreover have "pow_loop (F64 False m 0) (F64 False b 0) w =
        pow_loop (F64 False m' 0) (F64 False (b * b) 0) (drop_bit 1 w)"
      using pow_loop_next [of "F64 False m 0" "F64 False b 0" w] False
      unfolding res sq f64_is_finite.simps by blast
    ultimately show ?thesis unfolding unat_shift_right_one split by (rule trans [rotated])
  qed
qed

text \<open>Powers of two stay exact up to the overflow threshold.\<close>

definition f64_pow2 :: "nat \<Rightarrow> f64" where
  "f64_pow2 k = (if k \<le> 1023 then F64 False 1 (int k) else F64_Inf False)"

lemma f64_pow2_mul: "f64_mul (f64_pow2 a) (f64_pow2 b) = f64_pow2 (a + b)"
  using f64_mul_pow2 [of 1 "int a" "int b"]
  by (auto simp: f64_pow2_def compute_floorlog)

lemma f64_pow2_square: "pow_square (f64_pow2 k) = f64_pow2 (k + k)"
  by (simp add: pow_square_def f64_pow2_mul) (simp add: f64_pow2_def)

lemma pow_loop_pow2:
  assumes "a \<le> 1023" and "w \<noteq> 0"
  shows "pow_loop (f64_pow2 a) (f64_pow2 b) w = f64_pow2 (a + b * unat w)"
  using assms
proof (induction "f64_pow2 a" "f64_pow2 b" w arbitrary: a b rule: pow_loop_induct)
  case (step w)
  let ?n = "unat w"
  have n: "?n \<noteq> 0" using step.prems(2) by (simp only: unat_eq_zero) simp
  define a' where "a' = (if odd ?n then a + b else a)"
  have split: "a + b * ?n = a' + (b + b) * (?n div 2)"
    by (auto simp: a'_def algebra_simps elim!: oddE)
  have res: "pow_mul_bit (f64_pow2 a) (f64_pow2 b) w = f64_pow2 a'"
    by (simp add: a'_def pow_mul_bit_def f64_pow2_mul)
  show ?case
  proof (cases "a' \<le> 1023")
    case True
    then have fin: "f64_is_finite (f64_pow2 a')" by (simp add: f64_pow2_def)
    show ?thesis
    proof (cases "?n div 2 = 0")
      case True
      then show ?thesis unfolding split by (simp add: pow_loop_last res fin)
    next
      case False
      have "pow_loop (f64_pow2 a') (f64_pow2 (b + b)) (drop_bit 1 w) =
          f64_pow2 (a' + (b + b) * unat (drop_bit 1 w))"
        using False \<open>a' \<le> 1023\<close>
        by (intro step.hyps) (simp_all only: shift_right_one_eq_0 not_False_eq_True)
      moreover have "pow_loop (f64_pow2 a) (f64_pow2 b) w =
          pow_loop (f64_pow2 a') (f64_pow2 (b + b)) (drop_bit 1 w)"
        using pow_loop_next [of "f64_pow2 a" "f64_pow2 b" w] False fin
        unfolding res f64_pow2_square by blast
      ultimately show ?thesis unfolding unat_shift_right_one split by (rule trans [rotated])
    qed
  next
    case False
    then have "odd ?n" using step.prems(1) by (auto simp: a'_def split: if_splits)
    moreover have "\<not> f64_is_finite (f64_pow2 a')" using False by (simp add: f64_pow2_def)
    ultimately have "pow_loop (f64_pow2 a) (f64_pow2 b) w = F64_Inf False"
      by (intro pow_loop_overflow) (simp_all only: res not_False_eq_True)
    then show ?thesis using False split by (simp add: f64_pow2_def)
  qed
qed

text \<open>Results of at least one, whatever the base.\<close>

lemma pow_mul_bit_ge_one:
  "f64_ge_real 1 r \<Longrightarrow> f64_ge_real 1 f \<Longrightarrow> f64_ge_real 1 (pow_mul_bit r f w)"
  using f64_ge_mul [of 1 r f] by (simp add: pow_mul_bit_def)

lemma pow_square_ge_one: "f64_ge_real 1 f \<Longrightarrow> f64_ge_real 1 (pow_square f)"
  using f64_ge_mul [of 1 f f] by (simp add: pow_square_def)

lemma pow_loop_ge_one:
  assumes "f64_ge_real 1 r" and "f64_ge_real 1 f"
  shows "f64_ge_real 1 (pow_loop r f w)"
  using assms
proof (induction r f w rule: pow_loop_induct)
  case (step r f w)
  have "f64_ge_real 1 (pow_mul_bit r f w)" "f64_ge_real 1 (pow_square f)"
    using step.prems by (simp_all add: pow_mul_bit_ge_one pow_square_ge_one)
  then show ?case
    using step.IH [of "pow_mul_bit r f w" "pow_square f"]
    by (subst pow_loop_unfold) (auto simp del: One_nat_def)
qed

lemma not_le_one_ge_one: "f64_is_finite x \<Longrightarrow> \<not> f64_le x f64_one \<Longrightarrow> f64_ge_real 1 x"
proof (cases x)
  case (F64 s m e)
  assume gt: "\<not> f64_le x f64_one"
  have "\<not> s"
  proof
    assume s
    then have "f64_signed s m * 2 ^ nat (e - min e 0) \<le> 0"
      by (simp add: f64_signed_def mult_nonpos_nonneg)
    also have "0 \<le> f64_signed False 1 * 2 ^ nat (0 - min e 0)" by (simp add: f64_signed_def)
    finally show False using gt F64 by (simp add: f64_one_def)
  qed
  then show ?thesis using gt F64 f64_le_mag [of m e 1 0] by (simp add: f64_one_def)
qed simp_all

lemma f64_one_ge_one [simp]: "f64_ge_real 1 f64_one"
  by (simp add: f64_one_def)

lemma pow_nonnegative_ge_one:
  assumes "f64_is_finite base"
  shows "f64_ge_real 1 (pow_nonnegative_f64 base n)"
  using assms not_le_one_ge_one [of base] pow_loop_ge_one [of f64_one base n]
  by (auto simp: pow_nonnegative_f64_def MIN_EXPONENTIAL_BASE_def)

lemma pow_nonnegative_exact:
  assumes "1 \<le> b" and "b ^ unat n < 2 ^ 53"
  shows "pow_nonnegative_f64 (F64 False b 0) n = F64 False (b ^ unat n) 0"
proof (cases "n = 0")
  case True
  then show ?thesis by (simp add: pow_nonnegative_f64_def f64_one_def)
next
  case False
  have "f64_le (F64 False b 0) f64_one \<longleftrightarrow> b \<le> 1"
    using f64_le_mag [of b 0 1 0] by (simp add: f64_one_def)
  with assms(1) have "f64_le (F64 False b 0) f64_one \<longleftrightarrow> b = 1" by auto
  then show ?thesis
    using False assms pow_loop_exact [of 1 b n]
    by (auto simp: pow_nonnegative_f64_def MIN_EXPONENTIAL_BASE_def f64_one_def)
qed

lemma pow_nonnegative_pow2: "pow_nonnegative_f64 f64_two n = f64_pow2 (unat n)"
proof (cases "n = 0")
  case True
  then show ?thesis by (simp add: pow_nonnegative_f64_def f64_one_def f64_pow2_def)
next
  case False
  have "\<not> f64_le f64_two MIN_EXPONENTIAL_BASE"
    by (simp add: f64_two_def MIN_EXPONENTIAL_BASE_def f64_one_def f64_signed_def)
  then show ?thesis
    using False pow_loop_pow2 [of 0 n 1]
    by (simp add: pow_nonnegative_f64_def f64_two_def f64_one_def f64_pow2_def)
qed

subsection \<open>Multiplying a duration by a float\<close>

text \<open>
  \<open>Duration::MAX.as_nanos()\<close> rounds up to \<open>2 ^ 64 * 10 ^ 9\<close>, which is what keeps
  \<open>Duration::new\<close> from overflowing.
\<close>

lemma f64_max_nanos: "f64_of_nat (as_nanos duration_MAX) = F64 False 8388608000000000 41"
  by (simp add: f64_of_nat_def f64_round_def f64_fit_def dur_simps compute_floorlog)

lemma f64_le_max_nanos_iff:
  "f64_le (f64_of_nat (as_nanos duration_MAX)) x \<longleftrightarrow> 18446744073709551616000000000 \<le> f64_to_u128 x"
proof (cases x)
  case (F64 s m e)
  have thr: "mag 8388608000000000 41 = real 18446744073709551616000000000"
    by (simp add: mag_def)
  show ?thesis
  proof (cases s)
    case True
    have "f64_signed True m * 2 ^ nat (e - min 41 e) \<le> 0"
      by (simp add: f64_signed_def mult_nonpos_nonneg)
    moreover have "0 < f64_signed False 8388608000000000 * 2 ^ nat (41 - min 41 e)"
      by (simp add: f64_signed_def)
    ultimately show ?thesis using F64 True by (simp add: f64_max_nanos)
  next
    case False
    with F64 show ?thesis
      unfolding f64_max_nanos
      by (simp add: f64_le_mag thr f64_trunc_ge_iff [symmetric] del: f64_le.simps of_nat_numeral)
  qed
qed (simp_all add: f64_max_nanos)

lemma duration_new_split:
  assumes "t < 18446744073709551616000000000"
  shows "duration_new (word_of_nat (t div 1000000000)) (word_of_nat (t mod 1000000000))
    = Some (duration_of t)"
proof -
  have "unat (word_of_nat (t div 1000000000) :: u64) = t div 1000000000"
    using assms by (intro unat_word_of_nat_u64) simp
  moreover have "t mod 1000000000 < 1000000000" by simp
  then have "unat (word_of_nat (t mod 1000000000) :: u32) = t mod 1000000000"
    by (intro unat_word_of_nat_u32) linarith
  ultimately show ?thesis
    using assms by (simp add: duration_new_def Let_def duration_max_nanos_def)
qed

lemma saturating_duration_mul_f64_eq:
  "saturating_duration_mul_f64 d m =
     Inr (duration_of (if d = duration_zero then 0
                       else f64_to_u128 (f64_mul (f64_of_nat (as_nanos d)) m)))"
proof (cases "d = duration_zero")
  case True
  then show ?thesis by (simp add: saturating_duration_mul_f64_def dur_simps)
next
  case False
  let ?x = "f64_mul (f64_of_nat (as_nanos d)) m"
  show ?thesis
  proof (cases "18446744073709551616000000000 \<le> f64_to_u128 ?x")
    case True
    then have "duration_of (f64_to_u128 ?x) = duration_MAX" by (simp add: dur_simps)
    then show ?thesis
      using False True by (simp add: saturating_duration_mul_f64_def f64_le_max_nanos_iff)
  next
    case less: False
    then show ?thesis
      using False duration_new_split [of "f64_to_u128 ?x"]
      by (simp add: saturating_duration_mul_f64_def f64_le_max_nanos_iff Let_def)
  qed
qed

lemma saturating_duration_mul_min:
  "as_nanos (saturating_duration_mul d k) = min (as_nanos d * unat k) duration_max_nanos"
  by (auto simp: saturating_duration_mul_def checked_mul_def duration_of.rep_eq
      duration_MAX.rep_eq)

end
