(* ===== verification/Retry_State.thy ===== *)
theory Retry_State
  imports Rust_Duration
begin

text \<open>
  \<open>src/src/state.rs\<close>: the outcome-free context that the stop and wait strategies, the
  operation and the \<open>before_attempt\<close> hook receive. \<open>for_attempt\<close> asserts in debug builds
  that attempts are numbered from one; the flag \<open>dbg\<close> says whether debug assertions are
  compiled in, and the failing assertion is the panic branch.
\<close>

record retry_state =
  st_attempt :: u32
  st_elapsed :: duration
  st_previous_delay :: "duration option"

definition debug_assert_attempt :: "bool \<Rightarrow> u32 \<Rightarrow> panic option" where
  "debug_assert_attempt dbg attempt =
     (if dbg \<and> \<not> 1 \<le> attempt then Some ''attempt is 1-indexed'' else None)"

definition for_attempt :: "bool \<Rightarrow> u32 \<Rightarrow> panic + retry_state" where
  "for_attempt dbg attempt =
     (case debug_assert_attempt dbg attempt of
        Some p \<Rightarrow> Inl p
      | None \<Rightarrow> Inr \<lparr>st_attempt = attempt, st_elapsed = duration_zero, st_previous_delay = None\<rparr>)"

definition with_elapsed :: "retry_state \<Rightarrow> duration \<Rightarrow> retry_state" where
  "with_elapsed st d = st\<lparr>st_elapsed := d\<rparr>"

definition with_previous_delay :: "retry_state \<Rightarrow> duration option \<Rightarrow> retry_state" where
  "with_previous_delay st d = st\<lparr>st_previous_delay := d\<rparr>"

lemma word_one_le_iff: "(1 :: u32) \<le> a \<longleftrightarrow> a \<noteq> 0"
  by (simp add: word_le_nat_alt unat_gt_0 Suc_le_eq)

lemma debug_assert_attempt_None [simp]: "a \<noteq> 0 \<Longrightarrow> debug_assert_attempt dbg a = None"
  by (simp add: debug_assert_attempt_def word_one_le_iff)

lemma debug_assert_attempt_zero [simp]:
  "debug_assert_attempt True 0 = Some ''attempt is 1-indexed''" "debug_assert_attempt False a = None"
  by (simp_all add: debug_assert_attempt_def)

text \<open>The state the engines build from its three parts.\<close>

lemma for_attempt_ok [simp]:
  "a \<noteq> 0 \<Longrightarrow>
   for_attempt dbg a = Inr \<lparr>st_attempt = a, st_elapsed = duration_zero, st_previous_delay = None\<rparr>"
  by (simp add: for_attempt_def)

lemma with_state_simps [simp]:
  "st_attempt (with_elapsed st d) = st_attempt st"
  "st_elapsed (with_elapsed st d) = d"
  "st_previous_delay (with_elapsed st d) = st_previous_delay st"
  "st_attempt (with_previous_delay st p) = st_attempt st"
  "st_elapsed (with_previous_delay st p) = st_elapsed st"
  "st_previous_delay (with_previous_delay st p) = p"
  by (simp_all add: with_elapsed_def with_previous_delay_def)

end
