(* ===== verification/Wait_Jitter.thy ===== *)
theory Wait_Jitter
  imports Retry_State
begin

unbundle bit_operations_syntax

text \<open>
  \<open>src/src/wait/jitter.rs\<close>: the \<open>SplitMix64\<close> generator, the four jitter formulas and the
  seeding of a \<open>Jittered\<close> strategy. The generator's cell is read and advanced by value: a
  draw returns the drawn number and the generator after it. \<open>jitter\<close> is the part of a
  \<open>Jittered<W>\<close> that is not the inner strategy.
\<close>

datatype splitmix64 = SplitMix64 (rng_state: u64)

definition DEFAULT_JITTER_SEED :: u64 where "DEFAULT_JITTER_SEED = 0x5A5A5A5A5A5A5A5A"
definition GAMMA :: u64 where "GAMMA = 0x9e3779b97f4a7c15"

definition splitmix64_new :: "u64 \<Rightarrow> splitmix64" where
  "splitmix64_new seed = SplitMix64 seed"

text \<open>
  The two bodies of \<open>advance\<close>: with 64-bit atomics a \<open>fetch_add\<close>, which gives the state before the
  addition, and without them a \<open>get\<close> and a \<open>set\<close> of the \<open>Cell\<close>. Run by one thread they are the same;
  what threads see that share the first is the subject of \<open>Jitter_Threads\<close>.
\<close>

definition advance :: "splitmix64 \<Rightarrow> u64 \<times> splitmix64" where
  "advance g = (let old = rng_state g in (old + GAMMA, SplitMix64 (old + GAMMA)))"

definition advance_cell :: "splitmix64 \<Rightarrow> u64 \<times> splitmix64" where
  "advance_cell g = (let next = rng_state g + GAMMA in (next, SplitMix64 next))"

lemma advance_cell_eq: "advance_cell = advance"
  by (simp add: fun_eq_iff advance_cell_def advance_def Let_def)

definition splitmix_mix :: "u64 \<Rightarrow> u64" where
  "splitmix_mix z0 =
     (let z1 = (z0 XOR drop_bit 30 z0) * 0xbf58476d1ce4e5b9;
          z2 = (z1 XOR drop_bit 27 z1) * 0x94d049bb133111eb
      in z2 XOR drop_bit 31 z2)"

definition next_u64 :: "splitmix64 \<Rightarrow> u64 \<times> splitmix64" where
  "next_u64 g = (let (z, g') = advance g in (splitmix_mix z, g'))"

definition next_bounded :: "splitmix64 \<Rightarrow> u64 \<Rightarrow> u64 \<times> splitmix64" where
  "next_bounded g bound =
     (if bound = - 1 then next_u64 g
      else let range = bound + 1; (z, g') = next_u64 g in (z mod range, g'))"

definition seeded_rng :: "u64 \<Rightarrow> u64 \<Rightarrow> splitmix64" where
  "seeded_rng seed nonce = splitmix64_new (seed XOR nonce)"

definition derive_nonce :: "u64 \<Rightarrow> u64" where
  "derive_nonce seed = fst (next_u64 (splitmix64_new seed))"

text \<open>
  The instance nonce, in the three builds of the function. With pointer-wide atomics
  (\<open>has_atomic\<close>) it is the process-wide counter, cast from \<open>usize\<close>, which is incremented and wraps
  around at the width of the target; with the \<open>std\<close> feature the nanoseconds since the Unix epoch, cut to 64 bits, are
  mixed in, \<open>since_epoch\<close> being the answer of the standard library's clock (an error before
  1970). Without atomics it is a constant. The new counter is returned with the nonce.
\<close>

definition next_jitter_nonce ::
    "bool \<Rightarrow> bool \<Rightarrow> (duration, 'e) result \<Rightarrow> 'w::len word \<Rightarrow> u64 \<times> 'w word" where
  "next_jitter_nonce has_atomic std since_epoch counter =
     (if has_atomic
      then (if std
            then let now = (case since_epoch of Ok d \<Rightarrow> d | Err _ \<Rightarrow> duration_zero)
                 in (ucast counter XOR word_of_nat (as_nanos now), counter + 1)
            else (ucast counter, counter + 1))
      else (1, counter))"

datatype jitter_kind = Additive duration | Full | Equal | Decorrelated

record jitter =
  jt_kind :: jitter_kind
  jt_seed :: u64
  jt_rng :: splitmix64

definition jittered_new :: "jitter_kind \<Rightarrow> u64 \<Rightarrow> jitter" where
  "jittered_new kind nonce =
     \<lparr>jt_kind = kind, jt_seed = DEFAULT_JITTER_SEED, jt_rng = seeded_rng DEFAULT_JITTER_SEED nonce\<rparr>"

definition with_seed :: "jitter \<Rightarrow> u64 \<Rightarrow> jitter" where
  "with_seed j seed = j\<lparr>jt_seed := seed, jt_rng := seeded_rng seed (derive_nonce seed)\<rparr>"

definition with_nonce :: "jitter \<Rightarrow> u64 \<Rightarrow> jitter" where
  "with_nonce j nonce = j\<lparr>jt_rng := seeded_rng (jt_seed j) nonce\<rparr>"

text \<open>\<open>clone\<close> copies the configuration and seeds a new generator with a fresh nonce.\<close>

definition jitter_clone :: "jitter \<Rightarrow> u64 \<Rightarrow> jitter" where
  "jitter_clone j nonce =
     \<lparr>jt_kind = jt_kind j, jt_seed = jt_seed j, jt_rng = seeded_rng (jt_seed j) nonce\<rparr>"

definition random_duration_in ::
    "duration \<Rightarrow> duration \<Rightarrow> splitmix64 \<Rightarrow> duration \<times> splitmix64" where
  "random_duration_in lower upper rng =
     (let range_nanos = as_nanos upper - as_nanos lower
      in if range_nanos = 0 then (lower, rng)
         else let max_nanos = word_of_nat (min range_nanos 18446744073709551615);
                  (random, rng') = next_bounded rng max_nanos
              in (saturating_add lower (from_nanos random), rng'))"

definition random_jitter_duration ::
    "duration \<Rightarrow> splitmix64 \<Rightarrow> duration \<times> splitmix64" where
  "random_jitter_duration max_jitter rng = random_duration_in duration_zero max_jitter rng"

text \<open>The body of \<open>Jittered::next_wait\<close> once the inner strategy has given \<open>base\<close>.\<close>

definition jitter_apply :: "jitter \<Rightarrow> duration \<Rightarrow> retry_state \<Rightarrow> duration \<times> jitter" where
  "jitter_apply j base st =
     (case jt_kind j of
        Additive max_jitter \<Rightarrow>
          (let (jitter, rng) = random_jitter_duration max_jitter (jt_rng j)
           in (saturating_add base jitter, j\<lparr>jt_rng := rng\<rparr>))
      | Full \<Rightarrow>
          (let (d, rng) = random_jitter_duration base (jt_rng j) in (d, j\<lparr>jt_rng := rng\<rparr>))
      | Equal \<Rightarrow>
          (let half = duration_half base; (jitter, rng) = random_jitter_duration half (jt_rng j)
           in (saturating_add half jitter, j\<lparr>jt_rng := rng\<rparr>))
      | Decorrelated \<Rightarrow>
          (let lower = base;
               upper = saturating_mul
                 (case st_previous_delay st of None \<Rightarrow> lower | Some d \<Rightarrow> d) 3;
               (d, rng) = random_duration_in lower upper (jt_rng j)
           in (d, j\<lparr>jt_rng := rng\<rparr>)))"

subsection \<open>Ranges\<close>

lemma next_bounded_le: "fst (next_bounded g bound) \<le> bound"
proof (cases "bound = - 1")
  case True
  then show ?thesis by simp
next
  case False
  obtain z g' where z: "next_u64 g = (z, g')" by fastforce
  have nz: "1 + bound \<noteq> 0" using False by (metis add_eq_0_iff)
  then have "z mod (1 + bound) < 1 + bound" by (intro word_mod_less_divisor) (simp add: word_gt_0)
  then have "unat (z mod (1 + bound)) < Suc (unat bound)"
    using unatSuc [OF nz] by (simp only: word_less_nat_alt)
  then have "z mod (bound + 1) \<le> bound" by (simp add: word_le_nat_alt add.commute)
  then show ?thesis using False z by (simp add: next_bounded_def Let_def)
qed

lemma random_duration_in_range:
  assumes "random_duration_in lower upper rng = (d, rng')"
  shows "lower \<le> d" and "d \<le> max lower upper"
proof -
  let ?range = "as_nanos upper - as_nanos lower"
  have "lower \<le> d \<and> d \<le> max lower upper"
  proof (cases "?range = 0")
    case True
    then show ?thesis using assms by (simp add: random_duration_in_def dur_simps)
  next
    case False
    let ?bound = "word_of_nat (min ?range 18446744073709551615) :: u64"
    obtain r where r: "next_bounded rng ?bound = (r, rng')"
        and d: "d = saturating_add lower (from_nanos r)"
      using assms False by (auto simp: random_duration_in_def Let_def split: prod.splits)
    have "r \<le> ?bound" using next_bounded_le [of rng ?bound] r by simp
    then have "unat r \<le> unat ?bound" by (simp add: word_le_nat_alt)
    also have "unat ?bound = min ?range 18446744073709551615"
      by (rule unat_word_of_nat_u64) simp
    finally have "unat r \<le> ?range" by simp
    then show ?thesis using False as_nanos_le [of upper] by (simp add: d dur_simps)
  qed
  then show "lower \<le> d" and "d \<le> max lower upper" by auto
qed

text \<open>What each formula promises, from the base, the bound and the previous delay.\<close>

fun jitter_lower :: "jitter_kind \<Rightarrow> duration \<Rightarrow> duration" where
  "jitter_lower (Additive _) base = base"
| "jitter_lower Full base = duration_zero"
| "jitter_lower Equal base = duration_half base"
| "jitter_lower Decorrelated base = base"

fun jitter_upper :: "jitter_kind \<Rightarrow> duration option \<Rightarrow> duration \<Rightarrow> duration" where
  "jitter_upper (Additive max_jitter) prev base = saturating_add base max_jitter"
| "jitter_upper Full prev base = base"
| "jitter_upper Equal prev base = base"
| "jitter_upper Decorrelated prev base =
     max base (saturating_mul (case prev of None \<Rightarrow> base | Some d \<Rightarrow> d) 3)"

lemma jitter_apply_range:
  assumes "jitter_apply j base st = (d, j')"
  shows "jitter_lower (jt_kind j) base \<le> d"
    and "d \<le> jitter_upper (jt_kind j) (st_previous_delay st) base"
proof -
  have "jitter_lower (jt_kind j) base \<le> d \<and>
        d \<le> jitter_upper (jt_kind j) (st_previous_delay st) base"
  proof (cases "jt_kind j")
    case (Additive max_jitter)
    then obtain r rng where
      r: "random_duration_in duration_zero max_jitter (jt_rng j) = (r, rng)"
      and d: "d = saturating_add base r"
      using assms by (auto simp: jitter_apply_def random_jitter_duration_def split: prod.splits)
    show ?thesis
      using random_duration_in_range [OF r] Additive
      by (simp add: d saturating_add_ge saturating_add_mono)
  next
    case Full
    then obtain rng where "random_duration_in duration_zero base (jt_rng j) = (d, rng)"
      using assms by (auto simp: jitter_apply_def random_jitter_duration_def split: prod.splits)
    from random_duration_in_range [OF this] show ?thesis using Full by simp
  next
    case Equal
    then obtain r rng where
      r: "random_duration_in duration_zero (duration_half base) (jt_rng j) = (r, rng)"
      and d: "d = saturating_add (duration_half base) r"
      using assms
      by (auto simp: jitter_apply_def random_jitter_duration_def Let_def split: prod.splits)
    have "r \<le> duration_half base" using random_duration_in_range [OF r] by simp
    then show ?thesis using Equal as_nanos_le [of base] by (simp add: d dur_simps)
  next
    case Decorrelated
    then obtain rng where
      "random_duration_in base
         (saturating_mul (case st_previous_delay st of None \<Rightarrow> base | Some d \<Rightarrow> d) 3) (jt_rng j)
         = (d, rng)"
      using assms by (auto simp: jitter_apply_def Let_def split: prod.splits)
    from random_duration_in_range [OF this] show ?thesis using Decorrelated by simp
  qed
  then show "jitter_lower (jt_kind j) base \<le> d"
    and "d \<le> jitter_upper (jt_kind j) (st_previous_delay st) base" by auto
qed

lemma jitter_apply_config:
  "jitter_apply j base st = (d, j') \<Longrightarrow> jt_kind j' = jt_kind j \<and> jt_seed j' = jt_seed j"
  by (auto simp: jitter_apply_def Let_def split: jitter_kind.splits prod.splits)

subsection \<open>The generator's full period\<close>

text \<open>
  The mixing function is a bijection (two xor-shifts and two multiplications by odd
  constants) and the increment is odd, so a generator repeats a number only after all
  \<open>2 ^ 64\<close> of them.
\<close>

lemma xorshift_inj:
  assumes "0 < k"
  shows "inj (\<lambda>z :: u64. z XOR drop_bit k z)"
proof (rule injI)
  fix z w :: u64
  assume eq: "z XOR drop_bit k z = w XOR drop_bit k w"
  define d where "d = z XOR w"
  have "d XOR drop_bit k d = (z XOR drop_bit k z) XOR (w XOR drop_bit k w)"
    by (simp add: d_def xor.assoc xor.left_commute)
  then have "d XOR drop_bit k d = 0" using eq by simp
  then have "(d XOR drop_bit k d) XOR drop_bit k d = drop_bit k d" by simp
  then have "d = drop_bit k d" by (simp only: xor.assoc xor_self_eq xor.right_neutral)
  then have "unat d = unat d div 2 ^ k" using unat_drop_bit_eq [of k d] by (simp add: drop_bit_eq_div)
  moreover have "unat d div 2 ^ k < unat d" if "unat d \<noteq> 0"
    using that assms one_less_power [of "2 :: nat" k] by (intro div_less_dividend) auto
  ultimately have "unat d = 0" by linarith
  then have "d = 0" by (simp only: unat_eq_zero)
  then have "(z XOR w) XOR w = w" by (simp add: d_def)
  then show "z = w" by (simp only: xor.assoc xor_self_eq xor.right_neutral)
qed

lemma mult_inverse_inj: "(c :: u64) * i = 1 \<Longrightarrow> inj (\<lambda>z. z * c)"
proof (rule injI)
  fix z w :: u64
  assume c: "c * i = 1"
  assume "z * c = w * c"
  then have "z * (c * i) = w * (c * i)" by (simp only: mult.assoc [symmetric])
  with c show "z = w" by simp
qed

lemma word_mult_inverse:
  assumes "a * b = 1 + k * 18446744073709551616"
  shows "(of_nat a :: u64) * of_nat b = 1"
proof -
  have "(of_nat a :: u64) * of_nat b = of_nat (1 + k * 18446744073709551616)"
    by (simp only: assms [symmetric] of_nat_mult)
  also have "\<dots> = 1 + of_nat k * of_nat 18446744073709551616" by (simp only: of_nat_add of_nat_mult of_nat_1)
  also have "(of_nat 18446744073709551616 :: u64) = 0"
    by simp
  finally show ?thesis by simp
qed

lemma mult_inverses:
  "(GAMMA :: u64) * 17428512612931826493 = 1"
  "(0xbf58476d1ce4e5b9 :: u64) * 10871156337175269513 = 1"
  "(0x94d049bb133111eb :: u64) * 3573116690164977347 = 1"
proof -
  have "(of_nat 11400714819323198485 :: u64) * of_nat 17428512612931826493 = 1"
    by (rule word_mult_inverse [where k = 10771413168148108919]) simp
  then show "(GAMMA :: u64) * 17428512612931826493 = 1" by (simp only: GAMMA_def of_nat_numeral)
  have "(of_nat 13787848793156543929 :: u64) * of_nat 10871156337175269513 = 1"
    by (rule word_mult_inverse [where k = 8125545580553827436]) simp
  then show "(0xbf58476d1ce4e5b9 :: u64) * 10871156337175269513 = 1" by (simp only: GAMMA_def of_nat_numeral)
  have "(of_nat 10723151780598845931 :: u64) * of_nat 3573116690164977347 = 1"
    by (rule word_mult_inverse [where k = 2077064247507883091]) simp
  then show "(0x94d049bb133111eb :: u64) * 3573116690164977347 = 1" by (simp only: GAMMA_def of_nat_numeral)
qed

lemma splitmix_mix_inj: "inj splitmix_mix"
proof -
  have eq: "splitmix_mix = (\<lambda>z. z XOR drop_bit 31 z) \<circ> (\<lambda>z. z * 0x94d049bb133111eb)
      \<circ> (\<lambda>z. z XOR drop_bit 27 z) \<circ> (\<lambda>z. z * 0xbf58476d1ce4e5b9) \<circ> (\<lambda>z. z XOR drop_bit 30 z)"
    by (simp add: fun_eq_iff splitmix_mix_def Let_def)
  show ?thesis
    unfolding eq
    by (intro inj_compose xorshift_inj mult_inverse_inj [OF mult_inverses(2)]
        mult_inverse_inj [OF mult_inverses(3)]) simp_all
qed

fun draws :: "nat \<Rightarrow> splitmix64 \<Rightarrow> u64 list" where
  "draws 0 g = []"
| "draws (Suc n) g = (let (z, g') = next_u64 g in z # draws n g')"

lemma draws_eq:
  "draws n g = map (\<lambda>i. splitmix_mix (rng_state g + of_nat (Suc i) * GAMMA)) [0..<n]"
proof (induction n arbitrary: g)
  case 0
  then show ?case by simp
next
  case (Suc n)
  show ?case
    unfolding upt_conv_Cons [OF zero_less_Suc] map_Suc_upt [symmetric]
    by (simp add: next_u64_def advance_def Let_def Suc.IH algebra_simps)
qed

lemma weyl_inj:
  assumes "i < 2 ^ 64" and "j < 2 ^ 64" and "of_nat i * GAMMA = (of_nat j * GAMMA :: u64)"
  shows "i = j"
proof -
  have "inj (\<lambda>z. z * GAMMA)" using mult_inverse_inj mult_inverses(1) by blast
  with assms(3) have "(of_nat i :: u64) = of_nat j" by (auto dest: injD)
  then have "unat (of_nat i :: u64) = unat (of_nat j :: u64)" by simp
  then show ?thesis using assms(1,2) by (simp add: unat_word_of_nat_u64)
qed

lemma draws_distinct: "n \<le> 2 ^ 64 \<Longrightarrow> distinct (draws n g)"
proof -
  assume n: "n \<le> 2 ^ 64"
  have "inj_on (\<lambda>i. splitmix_mix (rng_state g + of_nat (Suc i) * GAMMA)) (set [0..<n])"
  proof (rule inj_onI)
    fix i j
    assume ij: "i \<in> set [0..<n]" "j \<in> set [0..<n]"
    assume "splitmix_mix (rng_state g + of_nat (Suc i) * GAMMA) =
           splitmix_mix (rng_state g + of_nat (Suc j) * GAMMA)"
    then have "rng_state g + of_nat (Suc i) * GAMMA = rng_state g + of_nat (Suc j) * GAMMA"
      by (rule injD [OF splitmix_mix_inj])
    then have "of_nat i * GAMMA = (of_nat j * GAMMA :: u64)"
      by (simp only: of_nat_Suc distrib_right add_left_cancel)
    moreover have "i < 2 ^ 64" "j < 2 ^ 64" using ij n by auto
    ultimately show "i = j" using weyl_inj by blast
  qed
  then show ?thesis by (simp add: draws_eq distinct_map)
qed

text \<open>C28: a generator yields no number twice within its first \<open>2 ^ 64\<close> draws.\<close>

theorem splitmix_full_period: "n \<le> 2 ^ 64 \<Longrightarrow> distinct (draws n g)"
  by (rule draws_distinct)

theorem splitmix_full_period_witness: "(3 :: nat) \<le> 2 ^ 64 \<and> distinct (draws 3 (SplitMix64 7))"
proof -
  have h: "(3 :: nat) \<le> 2 ^ 64" by simp
  show ?thesis using h splitmix_full_period [OF h, of "SplitMix64 7"] by blast
qed

subsection \<open>Seeds and nonces\<close>

text \<open>Instances with the same seed and different nonces disagree on every single draw.\<close>

theorem nonce_decorrelates:
  assumes "a \<noteq> b" and "i < n"
  shows "draws n (seeded_rng seed a) ! i \<noteq> draws n (seeded_rng seed b) ! i"
proof
  assume "draws n (seeded_rng seed a) ! i = draws n (seeded_rng seed b) ! i"
  then have "splitmix_mix ((seed XOR a) + of_nat (Suc i) * GAMMA) =
      splitmix_mix ((seed XOR b) + of_nat (Suc i) * GAMMA)"
    using assms(2) by (simp add: draws_eq seeded_rng_def splitmix64_new_def del: of_nat_Suc)
  then have "(seed XOR a) + of_nat (Suc i) * GAMMA = (seed XOR b) + of_nat (Suc i) * GAMMA"
    by (rule injD [OF splitmix_mix_inj])
  then have "seed XOR a = seed XOR b" by (simp only: add_right_cancel)
  then have "seed XOR (seed XOR a) = seed XOR (seed XOR b)" by simp
  then have "a = b" by (simp only: xor.assoc [symmetric] xor_self_eq xor.left_neutral)
  with assms(1) show False by contradiction
qed

theorem nonce_decorrelates_witness:
  "(1 :: u64) \<noteq> 2 \<and> (0 :: nat) < 1
   \<and> draws 1 (seeded_rng 5 1) ! 0 \<noteq> draws 1 (seeded_rng 5 2) ! 0"
proof -
  have h: "(1 :: u64) \<noteq> 2" "(0 :: nat) < 1" by simp_all
  show ?thesis using h nonce_decorrelates [OF h, of 5] by blast
qed

text \<open>
  With the \<open>std\<close> feature two instances created one after the other can receive the same
  nonce: whenever the counter and the clock reading are both even and the clock advances by
  one nanosecond between them.
\<close>

theorem std_nonce_not_unique:
  fixes counter :: u64
  assumes "even (unat counter)" and "even (as_nanos now)" and "as_nanos later_now = as_nanos now + 1"
  shows "let (nonce1, counter') = next_jitter_nonce True True (Ok now) counter;
             (nonce2, _) = next_jitter_nonce True True (Ok later_now) counter'
         in counter' \<noteq> counter \<and> nonce1 = nonce2"
proof -
  have ec: "even counter" using assms(1) by transfer (simp add: even_nat_iff)
  have et: "even (word_of_nat (as_nanos now) :: u64)" using assms(2) by simp
  have "w + 1 = w XOR 1" if "even w" for w :: u64
    using that by (simp add: xor_one_eq)
  then have "(counter + 1) XOR (word_of_nat (as_nanos now) + 1) =
      (counter XOR 1) XOR (word_of_nat (as_nanos now) XOR 1)" using ec et by simp
  also have "\<dots> = counter XOR word_of_nat (as_nanos now)"
    by (simp add: xor.assoc xor.left_commute [of 1])
  finally show ?thesis by (simp add: next_jitter_nonce_def assms(3) add.commute)
qed

theorem std_nonce_not_unique_witness:
  "let (nonce1, counter') = next_jitter_nonce True True (Ok (from_nanos 4) :: (duration, unit) result) (2 :: u64);
       (nonce2, _) = next_jitter_nonce True True (Ok (from_nanos 5) :: (duration, unit) result) counter'
   in counter' \<noteq> 2 \<and> nonce1 = nonce2"
proof -
  have "even (unat (2 :: u64))" "even (as_nanos (from_nanos 4))"
      "as_nanos (from_nanos 5) = as_nanos (from_nanos 4) + 1"
    by (simp_all add: dur_simps)
  then show ?thesis by (rule std_nonce_not_unique)
qed

end
