(* ===== verification/Wait.thy ===== *)
theory Wait
  imports Wait_Math Wait_Jitter
begin

text \<open>
  \<open>src/src/wait/\<close>: the built-in wait strategies and their composition. One constructor
  stands for one strategy struct, with the struct's fields; \<open>WaitRef\<close> is a strategy behind a
  shared reference or a box, which implement the trait by delegation, and \<open>WaitCustom\<close> is an
  implementation of the \<open>Wait\<close> trait by the user, a computation over the world. A generator
  inside a strategy is its interior mutability, so \<open>next_wait\<close> returns the strategy after
  the call as well as the delay, or the panic of \<open>Duration::new\<close>.
\<close>

datatype 'x wait_strategy =
    WaitFixed duration
  | WaitLinear duration duration
  | WaitExponential duration f64
  | WaitCapped "'x wait_strategy" duration
  | WaitCombine "'x wait_strategy" "'x wait_strategy"
  | WaitChain "'x wait_strategy" "'x wait_strategy" u32
  | Jittered "'x wait_strategy" jitter
  | WaitRef "'x wait_strategy"
  | WaitCustom "retry_state \<Rightarrow> ('x, duration) state"

subsection \<open>Constructors and combinators\<close>

definition fixed :: "duration \<Rightarrow> 'x wait_strategy" where
  "fixed dur = WaitFixed dur"

definition linear :: "duration \<Rightarrow> duration \<Rightarrow> 'x wait_strategy" where
  "linear initial increment = WaitLinear initial increment"

definition DEFAULT_EXPONENTIAL_BASE :: f64 where
  "DEFAULT_EXPONENTIAL_BASE = f64_two"

definition exponential :: "duration \<Rightarrow> 'x wait_strategy" where
  "exponential initial = WaitExponential initial DEFAULT_EXPONENTIAL_BASE"

text \<open>\<open>.base(f)\<close> exists on \<open>WaitExponential\<close> only; elsewhere the call does not type check.\<close>

fun wait_base :: "'x wait_strategy \<Rightarrow> f64 \<Rightarrow> 'x wait_strategy" where
  "wait_base (WaitExponential initial _) b = WaitExponential initial (clamp_exponential_base b)"
| "wait_base w b = w"

definition wait_cap :: "'x wait_strategy \<Rightarrow> duration \<Rightarrow> 'x wait_strategy" where
  "wait_cap w bound = WaitCapped w bound"

definition wait_chain_new ::
    "'x wait_strategy \<Rightarrow> 'x wait_strategy \<Rightarrow> u32 \<Rightarrow> 'x wait_strategy" where [simp]:
  "wait_chain_new first second after = WaitChain first second after"

definition wait_combine_new :: "'x wait_strategy \<Rightarrow> 'x wait_strategy \<Rightarrow> 'x wait_strategy" where [simp]:
  "wait_combine_new left right = WaitCombine left right"

definition wait_chain ::
    "'x wait_strategy \<Rightarrow> 'x wait_strategy \<Rightarrow> u32 \<Rightarrow> 'x wait_strategy" where
  "wait_chain w other after = wait_chain_new w other after"

definition wait_add :: "'x wait_strategy \<Rightarrow> 'x wait_strategy \<Rightarrow> 'x wait_strategy" where
  "wait_add w other = wait_combine_new w other"

text \<open>The operator \<open>+\<close>, implemented by one macro for every built-in strategy.\<close>

definition wait_plus :: "'x wait_strategy \<Rightarrow> 'x wait_strategy \<Rightarrow> 'x wait_strategy" where
  "wait_plus w rhs = wait_combine_new w rhs"

text \<open>
  \<open>.jitter(max)\<close>: the inherent method of \<open>WaitCapped\<close> keeps the cap outermost, every other
  strategy takes the trait's method. The nonce of the new instance is an argument.
\<close>

fun wait_jitter :: "'x wait_strategy \<Rightarrow> duration \<Rightarrow> u64 \<Rightarrow> 'x wait_strategy" where
  "wait_jitter (WaitCapped inner bound) max_jitter nonce =
     WaitCapped (Jittered inner (jittered_new (Additive max_jitter) nonce)) bound"
| "wait_jitter w max_jitter nonce = Jittered w (jittered_new (Additive max_jitter) nonce)"

definition wait_full_jitter :: "'x wait_strategy \<Rightarrow> u64 \<Rightarrow> 'x wait_strategy" where
  "wait_full_jitter w nonce = Jittered w (jittered_new Full nonce)"

definition wait_equal_jitter :: "'x wait_strategy \<Rightarrow> u64 \<Rightarrow> 'x wait_strategy" where
  "wait_equal_jitter w nonce = Jittered w (jittered_new Equal nonce)"

definition decorrelated_jitter :: "duration \<Rightarrow> u64 \<Rightarrow> 'x wait_strategy" where
  "decorrelated_jitter base nonce = Jittered (fixed base) (jittered_new Decorrelated nonce)"

subsection \<open>\<open>next_wait\<close>\<close>

text \<open>
  One definition per \<open>impl Wait\<close>. A composite's is given its components' calls
  (\<open>self.inner.next_wait(state)\<close>) as computations, and runs them where its body does.
\<close>

type_synonym 'x wait_call = "('x, panic + duration \<times> 'x wait_strategy) state"

definition fixed_next_wait :: "duration \<Rightarrow> panic + duration \<times> 'x wait_strategy" where [simp]:
  "fixed_next_wait dur = Inr (dur, WaitFixed dur)"

definition linear_next_wait ::
    "duration \<Rightarrow> duration \<Rightarrow> retry_state \<Rightarrow> panic + duration \<times> 'x wait_strategy" where [simp]:
  "linear_next_wait initial increment st =
     (let multiplier = u32_saturating_sub (st_attempt st) 1;
          step = saturating_duration_mul increment multiplier
      in Inr (saturating_add initial step, WaitLinear initial increment))"

definition exponential_next_wait ::
    "duration \<Rightarrow> f64 \<Rightarrow> retry_state \<Rightarrow> panic + duration \<times> 'x wait_strategy" where [simp]:
  "exponential_next_wait initial base st =
     (let exponent = u32_saturating_sub (st_attempt st) 1;
          multiplier = pow_nonnegative_f64 base exponent
      in case saturating_duration_mul_f64 initial multiplier of
           Inl p \<Rightarrow> Inl p
         | Inr d \<Rightarrow> Inr (d, WaitExponential initial base))"

definition capped_next_wait :: "'x wait_call \<Rightarrow> duration \<Rightarrow> 'x wait_call" where [simp]:
  "capped_next_wait inner_call bound = do {
     r \<leftarrow> inner_call;
     State_Monad.return (case r of
         Inl p \<Rightarrow> Inl p
       | Inr (d, inner') \<Rightarrow> Inr (min d bound, WaitCapped inner' bound)) }"

definition combine_next_wait :: "'x wait_call \<Rightarrow> 'x wait_call \<Rightarrow> 'x wait_call" where [simp]:
  "combine_next_wait left_call right_call = do {
     l \<leftarrow> left_call;
     case l of
       Inl p \<Rightarrow> State_Monad.return (Inl p)
     | Inr (dl, left') \<Rightarrow> do {
         r \<leftarrow> right_call;
         State_Monad.return (case r of
             Inl p \<Rightarrow> Inl p
           | Inr (dr, right') \<Rightarrow> Inr (saturating_add dl dr, WaitCombine left' right')) } }"

definition chain_next_wait ::
    "'x wait_strategy \<Rightarrow> 'x wait_strategy \<Rightarrow> 'x wait_call \<Rightarrow> 'x wait_call \<Rightarrow> u32 \<Rightarrow> retry_state
      \<Rightarrow> 'x wait_call" where [simp]:
  "chain_next_wait first second first_call second_call after st =
     (if st_attempt st \<le> after
      then do {
        r \<leftarrow> first_call;
        State_Monad.return (case r of
            Inl p \<Rightarrow> Inl p
          | Inr (d, first') \<Rightarrow> Inr (d, WaitChain first' second after)) }
      else do {
        r \<leftarrow> second_call;
        State_Monad.return (case r of
            Inl p \<Rightarrow> Inl p
          | Inr (d, second') \<Rightarrow> Inr (d, WaitChain first second' after)) })"

definition jittered_next_wait :: "'x wait_call \<Rightarrow> jitter \<Rightarrow> retry_state \<Rightarrow> 'x wait_call" where [simp]:
  "jittered_next_wait inner_call j st = do {
     r \<leftarrow> inner_call;
     State_Monad.return (case r of
         Inl p \<Rightarrow> Inl p
       | Inr (base, inner') \<Rightarrow>
           (let (d, j') = jitter_apply j base st in Inr (d, Jittered inner' j'))) }"

definition ref_next_wait :: "'x wait_call \<Rightarrow> 'x wait_call" where [simp]:
  "ref_next_wait inner_call = do {
     r \<leftarrow> inner_call;
     State_Monad.return (case r of
         Inl p \<Rightarrow> Inl p
       | Inr (d, w') \<Rightarrow> Inr (d, WaitRef w')) }"

text \<open>The trait's method: the implementation of the strategy at hand.\<close>

primrec next_wait :: "'x wait_strategy \<Rightarrow> retry_state \<Rightarrow> 'x wait_call" where
  "next_wait (WaitFixed dur) st = State_Monad.return (fixed_next_wait dur)"
| "next_wait (WaitLinear initial increment) st =
     State_Monad.return (linear_next_wait initial increment st)"
| "next_wait (WaitExponential initial base) st =
     State_Monad.return (exponential_next_wait initial base st)"
| "next_wait (WaitCapped inner bound) st = capped_next_wait (next_wait inner st) bound"
| "next_wait (WaitCombine left right) st =
     combine_next_wait (next_wait left st) (next_wait right st)"
| "next_wait (WaitChain first second after) st =
     chain_next_wait first second (next_wait first st) (next_wait second st) after st"
| "next_wait (Jittered inner j) st = jittered_next_wait (next_wait inner st) j st"
| "next_wait (WaitRef w) st = ref_next_wait (next_wait w st)"
| "next_wait (WaitCustom f) st = do { d \<leftarrow> f st; State_Monad.return (Inr (d, WaitCustom f)) }"

subsection \<open>No strategy panics\<close>

lemma next_wait_no_panic:
  "\<exists>d w' x'. run_state (next_wait w st) x = (Inr (d, w'), x')"
proof (induction w arbitrary: x)
  case (WaitCombine left right)
  obtain dl left' x1 where "run_state (next_wait left st) x = (Inr (dl, left'), x1)"
    using WaitCombine.IH(1) by blast
  moreover obtain dr right' x2 where "run_state (next_wait right st) x1 = (Inr (dr, right'), x2)"
    using WaitCombine.IH(2) by blast
  ultimately show ?case by simp
next
  case (WaitCapped inner bound)
  then obtain d w' x1 where "run_state (next_wait inner st) x = (Inr (d, w'), x1)" by blast
  then show ?case by simp
next
  case (WaitRef w)
  then obtain d w' x1 where "run_state (next_wait w st) x = (Inr (d, w'), x1)" by blast
  then show ?case by simp
next
  case (WaitChain first second after)
  show ?case
  proof (cases "st_attempt st \<le> after")
    case True
    obtain d w' x1 where "run_state (next_wait first st) x = (Inr (d, w'), x1)"
      using WaitChain.IH(1) by blast
    with True show ?thesis by simp
  next
    case False
    obtain d w' x1 where "run_state (next_wait second st) x = (Inr (d, w'), x1)"
      using WaitChain.IH(2) by blast
    with False show ?thesis by simp
  qed
next
  case (Jittered inner j)
  then obtain d w' x1 where "run_state (next_wait inner st) x = (Inr (d, w'), x1)" by blast
  then show ?case by (simp split: prod.split)
qed (simp_all add: Let_def saturating_duration_mul_f64_eq split: prod.split)

subsection \<open>The range of a composed strategy\<close>

text \<open>
  The least and the greatest delay a strategy can give for a state, read off its structure:
  jitter widens the range, a cap bounds both ends, a user-written strategy promises nothing.
\<close>

primrec wait_lower :: "'x wait_strategy \<Rightarrow> retry_state \<Rightarrow> duration" where
  "wait_lower (WaitFixed dur) st = dur"
| "wait_lower (WaitLinear initial increment) st =
     duration_of (as_nanos initial + (unat (st_attempt st) - 1) * as_nanos increment)"
| "wait_lower (WaitExponential initial base) st =
     (case saturating_duration_mul_f64 initial
         (pow_nonnegative_f64 base (u32_saturating_sub (st_attempt st) 1)) of
        Inl _ \<Rightarrow> duration_zero | Inr d \<Rightarrow> d)"
| "wait_lower (WaitCapped inner bound) st = min (wait_lower inner st) bound"
| "wait_lower (WaitCombine left right) st = saturating_add (wait_lower left st) (wait_lower right st)"
| "wait_lower (WaitChain first second after) st =
     (if st_attempt st \<le> after then wait_lower first st else wait_lower second st)"
| "wait_lower (Jittered inner j) st = jitter_lower (jt_kind j) (wait_lower inner st)"
| "wait_lower (WaitRef w) st = wait_lower w st"
| "wait_lower (WaitCustom f) st = duration_zero"

primrec wait_upper :: "'x wait_strategy \<Rightarrow> retry_state \<Rightarrow> duration" where
  "wait_upper (WaitFixed dur) st = dur"
| "wait_upper (WaitLinear initial increment) st =
     duration_of (as_nanos initial + (unat (st_attempt st) - 1) * as_nanos increment)"
| "wait_upper (WaitExponential initial base) st =
     (case saturating_duration_mul_f64 initial
         (pow_nonnegative_f64 base (u32_saturating_sub (st_attempt st) 1)) of
        Inl _ \<Rightarrow> duration_MAX | Inr d \<Rightarrow> d)"
| "wait_upper (WaitCapped inner bound) st = min (wait_upper inner st) bound"
| "wait_upper (WaitCombine left right) st = saturating_add (wait_upper left st) (wait_upper right st)"
| "wait_upper (WaitChain first second after) st =
     (if st_attempt st \<le> after then wait_upper first st else wait_upper second st)"
| "wait_upper (Jittered inner j) st =
     jitter_upper (jt_kind j) (st_previous_delay st) (wait_upper inner st)"
| "wait_upper (WaitRef w) st = wait_upper w st"
| "wait_upper (WaitCustom f) st = duration_MAX"

lemma duration_half_mono: "a \<le> b \<Longrightarrow> duration_half a \<le> duration_half b"
  by (simp add: dur_simps div_le_mono)

lemma saturating_mul_mono: "a \<le> b \<Longrightarrow> saturating_mul a k \<le> saturating_mul b k"
proof -
  assume "a \<le> b"
  then have "as_nanos a * unat k \<le> as_nanos b * unat k" by (simp add: less_eq_duration_def)
  then show ?thesis
    unfolding less_eq_duration_def saturating_mul.rep_eq by (rule min.mono) simp
qed

lemma jitter_lower_mono: "a \<le> b \<Longrightarrow> jitter_lower k a \<le> jitter_lower k b"
  by (cases k) (simp_all add: duration_half_mono)

lemma jitter_upper_mono: "a \<le> b \<Longrightarrow> jitter_upper k prev a \<le> jitter_upper k prev b"
proof (cases k)
  case Decorrelated
  assume le: "a \<le> b"
  show ?thesis
    using le Decorrelated saturating_mul_mono [OF le, of 3]
    by (cases prev) (simp_all only: jitter_upper.simps option.case max.mono order_refl)
qed (simp_all add: saturating_add_mono)

lemma linear_step:
  "saturating_add initial (saturating_duration_mul increment (u32_saturating_sub n 1)) =
   duration_of (as_nanos initial + (unat n - 1) * as_nanos increment)"
  by (simp add: as_nanos_inject_iff saturating_add.rep_eq duration_of.rep_eq
      saturating_duration_mul_min unat_u32_saturating_sub min_def mult.commute)

text \<open>
  The configuration of a strategy: everything but the states of its generators, which is
  all a call changes.
\<close>

primrec wait_config :: "'x wait_strategy \<Rightarrow> 'x wait_strategy" where
  "wait_config (WaitFixed dur) = WaitFixed dur"
| "wait_config (WaitLinear i k) = WaitLinear i k"
| "wait_config (WaitExponential i b) = WaitExponential i b"
| "wait_config (WaitCapped w b) = WaitCapped (wait_config w) b"
| "wait_config (WaitCombine l r) = WaitCombine (wait_config l) (wait_config r)"
| "wait_config (WaitChain l r n) = WaitChain (wait_config l) (wait_config r) n"
| "wait_config (Jittered w j) = Jittered (wait_config w) (j\<lparr>jt_rng := SplitMix64 0\<rparr>)"
| "wait_config (WaitRef w) = WaitRef (wait_config w)"
| "wait_config (WaitCustom f) = WaitCustom f"

lemma wait_config_range:
  "wait_lower (wait_config w) st = wait_lower w st" "wait_upper (wait_config w) st = wait_upper w st"
  by (induction w) simp_all

lemma same_config_range:
  "wait_config w' = wait_config w \<Longrightarrow>
     wait_lower w' st = wait_lower w st \<and> wait_upper w' st = wait_upper w st"
  by (metis wait_config_range)

lemma jitter_config_eq:
  "jt_kind j' = jt_kind j \<Longrightarrow> jt_seed j' = jt_seed j \<Longrightarrow> j'\<lparr>jt_rng := g\<rparr> = (j\<lparr>jt_rng := g\<rparr> :: jitter)"
  by (cases j; cases j') simp

lemma next_wait_range_lemma:
  "run_state (next_wait w st) x = (Inr (d, w'), x') \<Longrightarrow>
     wait_lower w st \<le> d \<and> d \<le> wait_upper w st \<and> wait_config w' = wait_config w"
proof (induction w arbitrary: x d w' x')
  case (WaitLinear initial increment)
  then show ?case by (auto simp: Let_def linear_step)
next
  case (WaitExponential initial base)
  then show ?case by (auto simp: Let_def saturating_duration_mul_f64_eq)
next
  case (WaitCapped inner bound)
  then show ?case by (fastforce split: prod.splits sum.splits simp: min.coboundedI1)
next
  case (WaitRef w)
  then show ?case by (fastforce split: prod.splits sum.splits)
next
  case (WaitCombine left right)
  then show ?case
    by (fastforce split: prod.splits sum.splits intro: saturating_add_mono)
next
  case (WaitChain first second after)
  then show ?case by (fastforce split: prod.splits sum.splits if_splits)
next
  case (Jittered inner j)
  then obtain base inner' x1 j' where
    base: "run_state (next_wait inner st) x = (Inr (base, inner'), x1)"
    and j': "jitter_apply j base st = (d, j')" and w': "w' = Jittered inner' j'"
    by (auto split: prod.splits sum.splits)
  have IH: "wait_lower inner st \<le> base" "base \<le> wait_upper inner st"
      "wait_config inner' = wait_config inner"
    using Jittered.IH [OF base] by auto
  show ?case
    using jitter_apply_range [OF j'] jitter_apply_config [OF j'] IH w' jitter_config_eq [of j' j]
      jitter_lower_mono [OF IH(1), of "jt_kind j"]
      jitter_upper_mono [OF IH(2), of "jt_kind j" "st_previous_delay st"]
    by auto
qed (auto split: prod.splits)

lemma next_wait_total:
  obtains d w' x' where "run_state (next_wait w st) x = (Inr (d, w'), x')"
    and "wait_lower w st \<le> d" and "d \<le> wait_upper w st" and "wait_config w' = wait_config w"
  using next_wait_no_panic [of w st x] next_wait_range_lemma [of w st x] by blast

subsection \<open>What a call does to the world\<close>

primrec wait_customs :: "'x wait_strategy \<Rightarrow> (retry_state \<Rightarrow> ('x, duration) state) list" where
  "wait_customs (WaitFixed dur) = []"
| "wait_customs (WaitLinear i k) = []"
| "wait_customs (WaitExponential i b) = []"
| "wait_customs (WaitCapped w b) = wait_customs w"
| "wait_customs (WaitCombine l r) = wait_customs l @ wait_customs r"
| "wait_customs (WaitChain l r n) = wait_customs l @ wait_customs r"
| "wait_customs (Jittered w j) = wait_customs w"
| "wait_customs (WaitRef w) = wait_customs w"
| "wait_customs (WaitCustom f) = [f]"

definition wait_keeps :: "('x \<Rightarrow> 'x \<Rightarrow> bool) \<Rightarrow> 'x wait_strategy \<Rightarrow> bool" where
  "wait_keeps R w \<longleftrightarrow> (\<forall>f \<in> set (wait_customs w). \<forall>st. keeps R (f st))"

lemma wait_customs_config: "wait_customs (wait_config w) = wait_customs w"
  by (induction w) simp_all

lemma wait_keeps_config: "wait_config w' = wait_config w \<Longrightarrow> wait_keeps R w' = wait_keeps R w"
  by (metis wait_customs_config wait_keeps_def)

lemma keeps_next_wait:
  assumes "reflp R" and "transp R"
  shows "wait_keeps R w \<Longrightarrow> keeps R (next_wait w st)"
  by (induction w)
    (auto simp: wait_keeps_def simp del: bind_simps
      intro!: keeps_bind keeps_return assms split: sum.split prod.split)

subsection \<open>The exponential backoff\<close>

abbreviation exponent_of :: "retry_state \<Rightarrow> nat" where
  "exponent_of st \<equiv> unat (st_attempt st) - 1"

lemma next_wait_exponential:
  "run_state (next_wait (WaitExponential initial base) st) x =
     (Inr (duration_of
        (if initial = duration_zero then 0
         else f64_to_u128 (f64_mul (f64_of_nat (as_nanos initial))
                (pow_nonnegative_f64 base (u32_saturating_sub (st_attempt st) 1)))),
       WaitExponential initial base), x)"
  by (simp add: Let_def saturating_duration_mul_f64_eq)

lemma f64_to_u128_pow2:
  assumes "0 < n" and "n < 2 ^ 53"
  shows "duration_of (f64_to_u128 (f64_mul (F64 False n 0) (f64_pow2 k))) = duration_of (n * 2 ^ k)"
proof (cases "k \<le> 1023 \<and> int (floorlog 2 n) + int k \<le> 1024")
  case True
  then have "f64_mul (F64 False n 0) (f64_pow2 k) = F64 False n (int k)"
    using assms f64_mul_pow2 [of n 0 "int k"] by (simp add: f64_pow2_def)
  then show ?thesis
    by (simp add: f64_trunc_def as_nanos_inject_iff duration_of.rep_eq duration_max_nanos_def)
next
  case False
  have "f64_mul (F64 False n 0) (f64_pow2 k) = F64_Inf False"
    using False assms f64_mul_pow2 [of n 0 "int k"] by (auto simp: f64_pow2_def)
  moreover have "duration_max_nanos \<le> n * 2 ^ k"
  proof -
    have l: "floorlog 2 n \<le> 53" using assms(2) by (simp add: floorlog_2_le_iff)
    with False have "971 < k" by auto
    then have "(2 :: nat) ^ 971 \<le> 2 ^ k" by (intro power_increasing) auto
    also have "\<dots> \<le> n * 2 ^ k" using assms(1) by simp
    finally have "2 ^ 971 \<le> n * 2 ^ k" .
    moreover have "duration_max_nanos \<le> 2 ^ 971" by (simp add: duration_max_nanos_def)
    ultimately show ?thesis by (rule order_trans [rotated])
  qed
  ultimately show ?thesis
    by (simp add: as_nanos_inject_iff duration_of.rep_eq duration_max_nanos_def)
qed

lemma next_wait_doubles:
  assumes "as_nanos initial < 2 ^ 53"
  shows "run_state (next_wait (exponential initial) st) x =
    (Inr (duration_of (as_nanos initial * 2 ^ (unat (st_attempt st) - 1)), exponential initial), x)"
proof (cases "initial = duration_zero")
  case True
  then show ?thesis
    unfolding exponential_def next_wait_exponential by (simp add: duration_zero.rep_eq)
next
  case False
  then have "0 < as_nanos initial" by (simp add: dur_simps)
  then show ?thesis
    using False assms f64_to_u128_pow2 [of "as_nanos initial"]
    unfolding exponential_def next_wait_exponential DEFAULT_EXPONENTIAL_BASE_def
    by (simp add: f64_of_nat_exact pow_nonnegative_pow2 unat_u32_saturating_sub)
qed

text \<open>
  C19: the default exponential backoff waits exactly \<open>initial * 2 ^ (n - 1)\<close> after attempt
  \<open>n\<close>, cut off at \<open>Duration::MAX\<close>, for every initial wait below \<open>2 ^ 53\<close> nanoseconds
  (about 104 days) and every attempt number, overflow of the float included.
\<close>

theorem exponential_doubles_exactly:
  assumes "as_nanos initial < 2 ^ 53"
  shows "run_state (next_wait (exponential initial) st) x =
    (Inr (duration_of (as_nanos initial * 2 ^ (unat (st_attempt st) - 1)), exponential initial), x)"
  by (rule next_wait_doubles [OF assms])

theorem exponential_doubles_exactly_witness:
  "as_nanos (from_millis 100) < 2 ^ 53 \<and>
   run_state (next_wait (exponential (from_millis 100))
     \<lparr>st_attempt = 3, st_elapsed = duration_zero, st_previous_delay = None\<rparr>) () =
   (Inr (from_millis 400, exponential (from_millis 100)), ())"
proof -
  have h: "as_nanos (from_millis 100) < 2 ^ 53" by (simp add: dur_simps)
  have "duration_of (as_nanos (from_millis 100) * 2 ^ (unat (3 :: u32) - 1)) = from_millis 400"
    by (simp add: dur_simps)
  then show ?thesis
    using h exponential_doubles_exactly
      [OF h, of "\<lparr>st_attempt = 3, st_elapsed = duration_zero, st_previous_delay = None\<rparr>" "()"]
    by simp
qed

text \<open>
  With a whole-number base \<open>b\<close> set by \<open>.base(b)\<close> the wait after attempt \<open>n\<close> is exactly
  \<open>initial * b ^ (n - 1)\<close> as long as that is below \<open>2 ^ 53\<close> nanoseconds: the
  square-and-multiply loop loses nothing.
\<close>

theorem exponential_integer_base_exact:
  assumes "1 \<le> b" and "as_nanos initial \<noteq> 0"
    and "as_nanos initial * b ^ (unat (st_attempt st) - 1) < 2 ^ 53"
  shows "fst (run_state (next_wait (wait_base (exponential initial) (F64 False b 0)) st) x) =
    Inr (duration_of (as_nanos initial * b ^ (unat (st_attempt st) - 1)),
         WaitExponential initial (F64 False b 0))"
proof -
  let ?k = "u32_saturating_sub (st_attempt st) 1"
  let ?n = "as_nanos initial"
  have k: "unat ?k = unat (st_attempt st) - 1" by (simp add: unat_u32_saturating_sub)
  have base: "clamp_exponential_base (F64 False b 0) = F64 False b 0"
  proof -
    have "f64_le (F64 False b 0) f64_one \<longleftrightarrow> b \<le> 1"
      using f64_le_mag [of b 0 1 0] by (simp add: f64_one_def)
    then show ?thesis
      using assms(1)
      by (auto simp: clamp_exponential_base_def MIN_EXPONENTIAL_BASE_def f64_max_def f64_one_def)
  qed
  have "b ^ unat ?k \<le> ?n * b ^ unat ?k" using assms(2) by simp
  then have "b ^ unat ?k < 2 ^ 53" using assms(3) k by (metis order_le_less_trans)
  then have pow: "pow_nonnegative_f64 (F64 False b 0) ?k = F64 False (b ^ unat ?k) 0"
    by (rule pow_nonnegative_exact [OF assms(1)])
  have "?n \<le> ?n * b ^ unat ?k" using assms(1) by simp
  then have n: "?n < 2 ^ 53" using assms(3) k by (metis order_le_less_trans)
  have mul: "f64_mul (F64 False ?n 0) (F64 False (b ^ unat ?k) 0) = F64 False (?n * b ^ unat ?k) 0"
    using assms(3) k by (intro f64_mul_nat_exact) simp
  have "min (2 ^ 128 - 1) (?n * b ^ unat ?k) = ?n * b ^ unat ?k"
    using assms(3) k by (intro min.absorb2) (simp add: order.strict_implies_order)
  then show ?thesis
    unfolding exponential_def wait_base.simps base next_wait_exponential pow
      f64_of_nat_exact [OF n] mul
    using assms(2) k by (simp add: f64_trunc_def duration_zero.rep_eq as_nanos_inject_iff)
qed

theorem exponential_integer_base_exact_witness:
  "fst (run_state (next_wait (wait_base (exponential (from_millis 2)) (F64 False 3 0))
      \<lparr>st_attempt = 4, st_elapsed = duration_zero, st_previous_delay = None\<rparr>) ()) =
   Inr (duration_of 54000000, WaitExponential (from_millis 2) (F64 False 3 0))"
  using exponential_integer_base_exact [of 3 "from_millis 2"
      "\<lparr>st_attempt = 4, st_elapsed = duration_zero, st_previous_delay = None\<rparr>" "()"]
  by (simp add: dur_simps)

lemma clamp_exponential_base_finite [simp]: "f64_is_finite (clamp_exponential_base b)"
  by (cases b) (simp_all add: clamp_exponential_base_def MIN_EXPONENTIAL_BASE_def f64_max_def f64_one_def)

text \<open>
  C35: whatever base is set, NaN and the infinities included, an exponential backoff never
  waits less than its initial wait (below \<open>2 ^ 53\<close> nanoseconds), and never panics.
\<close>

theorem exponential_at_least_initial:
  assumes "as_nanos initial < 2 ^ 53"
  shows "\<exists>d. fst (run_state (next_wait (wait_base (exponential initial) b) st) x) =
      Inr (d, wait_base (exponential initial) b) \<and> initial \<le> d"
proof -
  let ?c = "clamp_exponential_base b" and ?k = "u32_saturating_sub (st_attempt st) 1"
  have "initial \<le> duration_of (if initial = duration_zero then 0
      else f64_to_u128 (f64_mul (f64_of_nat (as_nanos initial)) (pow_nonnegative_f64 ?c ?k)))"
  proof (cases "initial = duration_zero")
    case False
    then have pos: "0 < as_nanos initial" by (simp add: dur_simps)
    have "f64_ge_real (real (as_nanos initial))
        (f64_mul (F64 False (as_nanos initial) 0) (pow_nonnegative_f64 ?c ?k))"
      using pos assms by (intro f64_ge_mul pow_nonnegative_ge_one) simp_all
    then have "as_nanos initial \<le>
        f64_to_u128 (f64_mul (F64 False (as_nanos initial) 0) (pow_nonnegative_f64 ?c ?k))"
      by (rule f64_ge_to_u128) (use assms in simp)
    then show ?thesis
      using False assms as_nanos_le [of initial]
      by (simp add: f64_of_nat_exact less_eq_duration_def duration_of.rep_eq)
  qed simp
  then show ?thesis
    unfolding exponential_def wait_base.simps next_wait_exponential by simp
qed

theorem exponential_at_least_initial_witness:
  "as_nanos (from_millis 5) < 2 ^ 53 \<and>
   (\<exists>d. fst (run_state (next_wait (wait_base (exponential (from_millis 5)) F64_NaN)
      \<lparr>st_attempt = 9, st_elapsed = duration_zero, st_previous_delay = None\<rparr>) ()) =
      Inr (d, wait_base (exponential (from_millis 5)) F64_NaN) \<and> from_millis 5 \<le> d)"
proof -
  have h: "as_nanos (from_millis 5) < 2 ^ 53" by (simp add: dur_simps)
  show ?thesis
    using h exponential_at_least_initial [OF h, of F64_NaN
      "\<lparr>st_attempt = 9, st_elapsed = duration_zero, st_previous_delay = None\<rparr>" "()"] by blast
qed

text \<open>
  Above \<open>2 ^ 53\<close> nanoseconds a base of one does not give the initial wait back: the cast
  to \<open>f64\<close> rounds \<open>2 ^ 53 + 1\<close> nanoseconds down by one, on the first attempt already.
\<close>

theorem exponential_base_one_loses_a_nanosecond:
  "fst (run_state (next_wait (wait_base (exponential (duration_of (2 ^ 53 + 1))) f64_one)
      \<lparr>st_attempt = 1, st_elapsed = duration_zero, st_previous_delay = None\<rparr>) ()) =
   Inr (duration_of (2 ^ 53), WaitExponential (duration_of (2 ^ 53 + 1)) f64_one)
   \<and> duration_of (2 ^ 53) \<noteq> duration_of (2 ^ 53 + 1)"
proof -
  have base: "clamp_exponential_base f64_one = f64_one"
    by (simp add: clamp_exponential_base_def MIN_EXPONENTIAL_BASE_def f64_max_def f64_one_def)
  have pow: "pow_nonnegative_f64 f64_one (u32_saturating_sub 1 1) = f64_one"
    by (simp add: pow_nonnegative_f64_def u32_saturating_sub_def)
  have cast: "f64_mul (f64_of_nat 9007199254740993) f64_one = F64 False 4503599627370496 1"
    by (simp add: f64_of_nat_def f64_round_def f64_fit_def compute_floorlog f64_one_def)
  have n: "as_nanos (duration_of (2 ^ 53 + 1)) = 2 ^ 53 + 1" by (simp add: dur_simps)
  have nz: "duration_of (2 ^ 53 + 1) \<noteq> duration_zero" by (simp add: dur_simps)
  show ?thesis
    unfolding exponential_def wait_base.simps base next_wait_exponential
    by (simp add: pow n nz) (simp add: cast f64_trunc_def dur_simps)
qed

subsection \<open>The other strategies\<close>

text \<open>
  The linear backoff waits exactly \<open>initial + (n - 1) * increment\<close> after attempt \<open>n\<close>,
  cut off at \<open>Duration::MAX\<close>: saturating twice is the same as saturating once.
\<close>

theorem linear_exact:
  "run_state (next_wait (linear initial increment) st) x =
   (Inr (duration_of (as_nanos initial + (unat (st_attempt st) - 1) * as_nanos increment),
         linear initial increment), x)"
  by (simp add: linear_def Let_def linear_step)

text \<open>
  C20: \<open>next_wait\<close> of any composition of strategies returns without a panic, with a delay in
  the range computed from the structure, and changes nothing of the strategy but the states
  of its generators.
\<close>

theorem next_wait_in_range:
  "\<exists>d w' x'. run_state (next_wait w st) x = (Inr (d, w'), x')
     \<and> wait_lower w st \<le> d \<and> d \<le> wait_upper w st \<and> wait_config w' = wait_config w"
  using next_wait_total [of w st x] by metis

text \<open>
  A cap stays the last word when jitter is added after it: \<open>.cap(max).jitter(j)\<close> never
  waits more than \<open>max\<close>.
\<close>

theorem cap_then_jitter_keeps_cap:
  "\<exists>d w' x'. run_state (next_wait (wait_jitter (wait_cap w bound) j nonce) st) x = (Inr (d, w'), x')
     \<and> d \<le> bound"
proof -
  obtain d w' x' where
    "run_state (next_wait (wait_jitter (wait_cap w bound) j nonce) st) x = (Inr (d, w'), x')"
    and "d \<le> wait_upper (wait_jitter (wait_cap w bound) j nonce) st"
    by (rule next_wait_total)
  moreover from this(2) have "d \<le> bound" by (simp add: wait_cap_def)
  ultimately show ?thesis by blast
qed

text \<open>
  A decorrelated delay is at least the base and at most three times the previous delay,
  or three times the base when there is none (never below the base).
\<close>

theorem decorrelated_jitter_feedback:
  "\<exists>d w' x'. run_state (next_wait (decorrelated_jitter base nonce) st) x = (Inr (d, w'), x')
     \<and> base \<le> d
     \<and> as_nanos d \<le> max (as_nanos base)
         (3 * as_nanos (case st_previous_delay st of None \<Rightarrow> base | Some p \<Rightarrow> p))"
proof -
  let ?w = "decorrelated_jitter base nonce :: 'a wait_strategy"
  obtain d w' x' where r: "run_state (next_wait ?w st) x = (Inr (d, w'), x')"
    and "wait_lower ?w st \<le> d" and up: "d \<le> wait_upper ?w st"
    by (rule next_wait_total)
  then have "base \<le> d" by (simp add: decorrelated_jitter_def fixed_def jittered_new_def)
  moreover have "as_nanos d \<le> max (as_nanos base)
      (3 * as_nanos (case st_previous_delay st of None \<Rightarrow> base | Some p \<Rightarrow> p))"
    using up by (cases "st_previous_delay st")
      (auto simp: decorrelated_jitter_def fixed_def jittered_new_def dur_simps)
  ultimately show ?thesis using r by blast
qed

end
