(* ===== verification/Stop.thy ===== *)
theory Stop
  imports Retry_State
begin

text \<open>
  \<open>src/src/stop/\<close>: the built-in stop strategies and their composition, one constructor per
  strategy struct; \<open>StopRef\<close> is a strategy behind a shared reference or a box, which
  implement the trait by delegation, and \<open>StopCustom\<close> is an implementation of the \<open>Stop\<close> trait by the user, a
  computation over the world. \<open>attempts(0)\<close> panics.
\<close>

datatype 'x stop_strategy =
    StopAfterAttempts u32
  | StopAfterElapsed duration
  | StopNever
  | StopAny "'x stop_strategy" "'x stop_strategy"
  | StopAll "'x stop_strategy" "'x stop_strategy"
  | StopRef "'x stop_strategy"
  | StopCustom "retry_state \<Rightarrow> ('x, bool) state"

definition attempts :: "u32 \<Rightarrow> panic + 'x stop_strategy" where
  "attempts bound =
     (if \<not> 1 \<le> bound then Inl ''stop::attempts requires max >= 1''
      else Inr (StopAfterAttempts bound))"

definition elapsed :: "duration \<Rightarrow> 'x stop_strategy" where
  "elapsed deadline = StopAfterElapsed deadline"

definition never :: "'x stop_strategy" where
  "never = StopNever"

definition stop_any_new :: "'x stop_strategy \<Rightarrow> 'x stop_strategy \<Rightarrow> 'x stop_strategy" where [simp]:
  "stop_any_new left right = StopAny left right"

definition stop_all_new :: "'x stop_strategy \<Rightarrow> 'x stop_strategy \<Rightarrow> 'x stop_strategy" where [simp]:
  "stop_all_new left right = StopAll left right"

definition stop_or :: "'x stop_strategy \<Rightarrow> 'x stop_strategy \<Rightarrow> 'x stop_strategy" where
  "stop_or left right = stop_any_new left right"

definition stop_and :: "'x stop_strategy \<Rightarrow> 'x stop_strategy \<Rightarrow> 'x stop_strategy" where
  "stop_and left right = stop_all_new left right"

text \<open>The operators \<open>|\<close> and \<open>&\<close>, implemented by one macro for every built-in strategy.\<close>

definition stop_bitor :: "'x stop_strategy \<Rightarrow> 'x stop_strategy \<Rightarrow> 'x stop_strategy" where
  "stop_bitor left rhs = stop_any_new left rhs"

definition stop_bitand :: "'x stop_strategy \<Rightarrow> 'x stop_strategy \<Rightarrow> 'x stop_strategy" where
  "stop_bitand left rhs = stop_all_new left rhs"

subsection \<open>\<open>should_stop\<close>\<close>

text \<open>
  One definition per \<open>impl Stop\<close>; a composite's is given its sides' calls as computations.
  Both sides are always asked, left first.
\<close>

definition attempts_should_stop :: "u32 \<Rightarrow> retry_state \<Rightarrow> bool" where [simp]:
  "attempts_should_stop bound st \<longleftrightarrow> bound \<le> st_attempt st"

definition elapsed_should_stop :: "duration \<Rightarrow> retry_state \<Rightarrow> bool" where [simp]:
  "elapsed_should_stop deadline st \<longleftrightarrow> deadline \<le> st_elapsed st"

definition never_should_stop :: "retry_state \<Rightarrow> bool" where [simp]:
  "never_should_stop st \<longleftrightarrow> False"

definition any_should_stop :: "('x, bool) state \<Rightarrow> ('x, bool) state \<Rightarrow> ('x, bool) state" where [simp]:
  "any_should_stop left_call right_call = do {
     left \<leftarrow> left_call;
     right \<leftarrow> right_call;
     State_Monad.return (left \<or> right) }"

definition all_should_stop :: "('x, bool) state \<Rightarrow> ('x, bool) state \<Rightarrow> ('x, bool) state" where [simp]:
  "all_should_stop left_call right_call = do {
     left \<leftarrow> left_call;
     right \<leftarrow> right_call;
     State_Monad.return (left \<and> right) }"

definition ref_should_stop :: "('x, bool) state \<Rightarrow> ('x, bool) state" where [simp]:
  "ref_should_stop inner_call = inner_call"

text \<open>The trait's method: the implementation of the strategy at hand.\<close>

primrec should_stop :: "'x stop_strategy \<Rightarrow> retry_state \<Rightarrow> ('x, bool) state" where
  "should_stop (StopAfterAttempts bound) st = State_Monad.return (attempts_should_stop bound st)"
| "should_stop (StopAfterElapsed deadline) st = State_Monad.return (elapsed_should_stop deadline st)"
| "should_stop StopNever st = State_Monad.return (never_should_stop st)"
| "should_stop (StopAny l r) st = any_should_stop (should_stop l st) (should_stop r st)"
| "should_stop (StopAll l r) st = all_should_stop (should_stop l st) (should_stop r st)"
| "should_stop (StopRef s) st = ref_should_stop (should_stop s st)"
| "should_stop (StopCustom f) st = f st"

subsection \<open>The interface the engines rely on: a stop that fires by some attempt\<close>

locale stop_bound =
  fixes stop :: "'x stop_strategy" and limit :: u32
  assumes fires: "limit \<le> st_attempt st \<Longrightarrow> fst (run_state (should_stop stop st) x)"
begin

lemma fires_run:
  "run_state (should_stop stop st) x = (b, x') \<Longrightarrow> \<not> b \<Longrightarrow> st_attempt st < limit"
  using fires [of st x] by (auto simp: not_le [symmetric])

end

interpretation attempts_bound: stop_bound "StopAfterAttempts m" m for m
  by unfold_locales simp

interpretation attempts_or_bound: stop_bound "StopAny (StopAfterAttempts m) s" m for m s
  by unfold_locales (simp split: prod.split)

text \<open>The attempt by which a composition is bound to stop, when its structure shows one.\<close>

primrec stop_limit :: "'x stop_strategy \<Rightarrow> u32 option" where
  "stop_limit (StopAfterAttempts bound) = Some bound"
| "stop_limit (StopAfterElapsed deadline) = None"
| "stop_limit StopNever = None"
| "stop_limit (StopAny l r) =
     (case stop_limit l of
        None \<Rightarrow> stop_limit r
      | Some m \<Rightarrow> (case stop_limit r of None \<Rightarrow> Some m | Some n \<Rightarrow> Some (min m n)))"
| "stop_limit (StopAll l r) =
     (case stop_limit l of
        None \<Rightarrow> None
      | Some m \<Rightarrow> (case stop_limit r of None \<Rightarrow> None | Some n \<Rightarrow> Some (max m n)))"
| "stop_limit (StopRef s) = stop_limit s"
| "stop_limit (StopCustom f) = None"

lemma stop_limit_fires:
  "stop_limit s = Some m \<Longrightarrow> m \<le> st_attempt st \<Longrightarrow> fst (run_state (should_stop s st) x)"
proof (induction s arbitrary: m x)
  case (StopAny l r)
  obtain bl x1 where l: "run_state (should_stop l st) x = (bl, x1)" by fastforce
  obtain br x2 where r: "run_state (should_stop r st) x1 = (br, x2)" by fastforce
  have "stop_limit l = Some a \<Longrightarrow> a \<le> st_attempt st \<Longrightarrow> bl" for a
    using StopAny.IH(1) [of a x] l by simp
  moreover have "stop_limit r = Some a \<Longrightarrow> a \<le> st_attempt st \<Longrightarrow> br" for a
    using StopAny.IH(2) [of a x1] r by simp
  ultimately have "bl \<or> br"
    using StopAny.prems by (auto simp: min_def split: option.splits if_splits)
  then show ?case using l r by simp
next
  case (StopAll l r)
  obtain bl x1 where l: "run_state (should_stop l st) x = (bl, x1)" by fastforce
  obtain br x2 where r: "run_state (should_stop r st) x1 = (br, x2)" by fastforce
  have "stop_limit l = Some a \<Longrightarrow> a \<le> st_attempt st \<Longrightarrow> bl" for a
    using StopAll.IH(1) [of a x] l by simp
  moreover have "stop_limit r = Some a \<Longrightarrow> a \<le> st_attempt st \<Longrightarrow> br" for a
    using StopAll.IH(2) [of a x1] r by simp
  ultimately have "bl \<and> br"
    using StopAll.prems by (auto split: option.splits)
  then show ?case using l r by simp
qed simp_all

lemma stop_limit_bound: "stop_limit s = Some m \<Longrightarrow> stop_bound s m"
  by unfold_locales (rule stop_limit_fires)

subsection \<open>Evaluation without short-circuit\<close>

primrec stop_customs :: "'x stop_strategy \<Rightarrow> (retry_state \<Rightarrow> ('x, bool) state) list" where
  "stop_customs (StopAfterAttempts bound) = []"
| "stop_customs (StopAfterElapsed deadline) = []"
| "stop_customs StopNever = []"
| "stop_customs (StopAny l r) = stop_customs l @ stop_customs r"
| "stop_customs (StopAll l r) = stop_customs l @ stop_customs r"
| "stop_customs (StopRef s) = stop_customs s"
| "stop_customs (StopCustom f) = [f]"

lemma should_stop_fold:
  "snd (run_state (should_stop s st) x) =
   fold (\<lambda>f x. snd (run_state (f st) x)) (stop_customs s) x"
proof (induction s arbitrary: x)
  case (StopAny l r)
  then show ?case by (simp split: prod.splits) (metis snd_conv)
next
  case (StopAll l r)
  then show ?case by (simp split: prod.splits) (metis snd_conv)
qed simp_all

text \<open>
  C21: composites never short-circuit: one call of \<open>should_stop\<close> runs every user-written
  strategy of the composition exactly once, from left to right, whatever they answer.
\<close>

theorem should_stop_asks_every_strategy:
  "snd (run_state (should_stop s st) x) =
   fold (\<lambda>f x. snd (run_state (f st) x)) (stop_customs s) x"
  by (rule should_stop_fold)

definition stop_keeps :: "('x \<Rightarrow> 'x \<Rightarrow> bool) \<Rightarrow> 'x stop_strategy \<Rightarrow> bool" where
  "stop_keeps R s \<longleftrightarrow> (\<forall>f \<in> set (stop_customs s). \<forall>st. keeps R (f st))"

lemma keeps_should_stop:
  "reflp R \<Longrightarrow> transp R \<Longrightarrow> stop_keeps R s \<Longrightarrow> keeps R (should_stop s st)"
  unfolding keeps_def [of R "should_stop s st"] should_stop_fold
  by (rule allI, rule keeps_fold) (simp_all add: stop_keeps_def)

subsection \<open>What fires, and that it keeps firing\<close>

text \<open>The condition a composition of built-in strategies stands for.\<close>

primrec stop_cond :: "'x stop_strategy \<Rightarrow> u32 \<Rightarrow> duration \<Rightarrow> bool" where
  "stop_cond (StopAfterAttempts bound) a e = (bound \<le> a)"
| "stop_cond (StopAfterElapsed deadline) a e = (deadline \<le> e)"
| "stop_cond StopNever a e = False"
| "stop_cond (StopAny l r) a e = (stop_cond l a e \<or> stop_cond r a e)"
| "stop_cond (StopAll l r) a e = (stop_cond l a e \<and> stop_cond r a e)"
| "stop_cond (StopRef s) a e = stop_cond s a e"
| "stop_cond (StopCustom f) a e = False"

lemma should_stop_builtin:
  "stop_customs s = [] \<Longrightarrow>
   run_state (should_stop s st) x = (stop_cond s (st_attempt st) (st_elapsed st), x)"
  by (induction s arbitrary: x) auto

lemma stop_cond_mono: "stop_cond s a e \<Longrightarrow> a \<le> a' \<Longrightarrow> e \<le> e' \<Longrightarrow> stop_cond s a' e'"
  by (induction s) auto

text \<open>With user-written parts too: what the built-in parts decide, they decide.\<close>

lemma stop_cond_fires:
  "stop_cond s a e \<Longrightarrow> a \<le> st_attempt st \<Longrightarrow> e \<le> st_elapsed st \<Longrightarrow>
   fst (run_state (should_stop s st) x)"
  by (induction s arbitrary: x) (auto simp: case_prod_beta)

text \<open>
  A composition of built-in strategies leaves the world alone, and once it has fired it
  fires for every later state (more attempts, more elapsed time).
\<close>

theorem builtin_stop_keeps_firing:
  assumes "stop_customs s = []"
    and "fst (run_state (should_stop s st) x)"
    and "st_attempt st \<le> st_attempt st'" and "st_elapsed st \<le> st_elapsed st'"
  shows "run_state (should_stop s st') y = (True, y)"
  using assms stop_cond_mono [of s "st_attempt st" "st_elapsed st" "st_attempt st'" "st_elapsed st'"]
  by (simp add: should_stop_builtin)

theorem builtin_stop_keeps_firing_witness:
  "run_state (should_stop (StopAny (StopAfterAttempts 3) (StopAfterElapsed (from_secs 30)))
     \<lparr>st_attempt = 2, st_elapsed = from_secs 31, st_previous_delay = None\<rparr>) () = (True, ())"
  using builtin_stop_keeps_firing [of "StopAny (StopAfterAttempts 3) (StopAfterElapsed (from_secs 30))"
      "\<lparr>st_attempt = 1, st_elapsed = from_secs 30, st_previous_delay = None\<rparr>" "()"
      "\<lparr>st_attempt = 2, st_elapsed = from_secs 31, st_previous_delay = None\<rparr>" "()"]
  by (simp add: dur_simps)

end
