(* ===== verification/Predicates.thy ===== *)
theory Predicates
  imports Prelude
begin

text \<open>
  \<open>src/src/predicate/mod.rs\<close>: the \<open>Predicate\<close> trait is a computation on a \<open>Result\<close> (any
  closure is one through the blanket implementation), and the four factories build one from
  a matcher.
\<close>

type_synonym ('x, 't, 'e) retry_predicate = "('t, 'e) result \<Rightarrow> ('x, bool) state"

definition any_error :: "('x, 't, 'e) retry_predicate" where
  "any_error outcome = State_Monad.return (result_is_err outcome)"

definition error :: "('e \<Rightarrow> ('x, bool) state) \<Rightarrow> ('x, 't, 'e) retry_predicate" where
  "error matcher outcome =
     (case outcome of Ok _ \<Rightarrow> State_Monad.return False | Err e \<Rightarrow> matcher e)"

definition on_result :: "(('t, 'e) result \<Rightarrow> ('x, bool) state) \<Rightarrow> ('x, 't, 'e) retry_predicate" where
  "on_result matcher outcome = matcher outcome"

definition ok :: "('t \<Rightarrow> ('x, bool) state) \<Rightarrow> ('x, 't, 'e) retry_predicate" where
  "ok matcher outcome =
     (case outcome of Ok v \<Rightarrow> matcher v | Err _ \<Rightarrow> State_Monad.return False)"

lemma predicate_simps [simp]:
  "any_error (Ok v) = State_Monad.return False" "any_error (Err e) = State_Monad.return True"
  "error m (Ok v) = State_Monad.return False" "error m (Err e) = m e"
  "ok m' (Ok v) = m' v" "ok m' (Err e) = State_Monad.return False"
  by (simp_all add: any_error_def error_def ok_def)

end
