(* ===== verification/Decision.thy ===== *)
theory Decision
  imports Predicates
begin

text \<open>
  \<open>src/src/decision.rs\<close>: the classifier sorts an outcome into a verdict. A classifier is a
  computation on the outcome; \<open>DefaultClassifier\<close> delegates to the outcome's own
  \<open>classify\<close>, \<open>ClosureClassifier\<close> to a closure whose \<open>Decision\<close> or \<open>Verdict\<close> is
  converted, \<open>When\<close> and \<open>Until\<close> to a predicate on a \<open>Result\<close>. \<open>Infallible\<close> has no
  values in Rust; an abort type that is a type variable here stands for it.
\<close>

datatype ('r, 'o) decision = DReturn 'r | DRetry 'o

datatype ('r, 'a, 'o) verdict = Return 'r | is_Retry: Retry 'o | Abort 'a

datatype ('b, 'c) control_flow = Break 'b | Continue_flow 'c

type_synonym ('x, 'o, 'r, 'a) classifier = "'o \<Rightarrow> ('x, ('r, 'a, 'o) verdict) state"

subsection \<open>Outcomes that classify themselves\<close>

definition classify_result :: "('t, 'e) result \<Rightarrow> ('t, 'e, ('t, 'e) result) verdict" where
  "classify_result o' = (case o' of Ok value \<Rightarrow> Return value | Err _ \<Rightarrow> Retry o')"

definition classify_option :: "'t option \<Rightarrow> ('t, 'a, 't option) verdict" where
  "classify_option o' = (case o' of Some value \<Rightarrow> Return value | None \<Rightarrow> Retry None)"

definition classify_control_flow ::
    "('b, 'c) control_flow \<Rightarrow> ('b, 'a, ('b, 'c) control_flow) verdict" where
  "classify_control_flow o' =
     (case o' of Break value \<Rightarrow> Return value | Continue_flow _ \<Rightarrow> Retry o')"

subsection \<open>Classifiers\<close>

definition default_decide :: "('o \<Rightarrow> ('r, 'a, 'o) verdict) \<Rightarrow> ('x, 'o, 'r, 'a) classifier" where
  "default_decide classify outcome = State_Monad.return (classify outcome)"

definition decision_into_verdict :: "('r, 'o) decision \<Rightarrow> ('r, 'a, 'o) verdict" where
  "decision_into_verdict d = (case d of DReturn r \<Rightarrow> Return r | DRetry o' \<Rightarrow> Retry o')"

definition verdict_into_verdict :: "('r, 'a, 'o) verdict \<Rightarrow> ('r, 'a, 'o) verdict" where
  "verdict_into_verdict v = v"

definition closure_decide ::
    "('d \<Rightarrow> ('r, 'a, 'o) verdict) \<Rightarrow> ('o \<Rightarrow> ('x, 'd) state) \<Rightarrow> ('x, 'o, 'r, 'a) classifier" where
  "closure_decide into_verdict c outcome = do {
     d \<leftarrow> c outcome;
     State_Monad.return (into_verdict d) }"

definition when_decide ::
    "('x, 't, 'e) retry_predicate \<Rightarrow> ('x, ('t, 'e) result, 't, 'e) classifier" where
  "when_decide predicate outcome = do {
     b \<leftarrow> predicate outcome;
     State_Monad.return
       (if b then Retry outcome
        else case outcome of Ok value \<Rightarrow> Return value | Err e \<Rightarrow> Abort e) }"

definition until_decide ::
    "('x, 't, 'e) retry_predicate \<Rightarrow> ('x, ('t, 'e) result, 't, 'e) classifier" where
  "until_decide predicate outcome = do {
     b \<leftarrow> predicate outcome;
     State_Monad.return
       (if b then (case outcome of Ok value \<Rightarrow> Return value | Err e \<Rightarrow> Abort e)
        else Retry outcome) }"

subsection \<open>Laws\<close>

definition negate :: "('x, 't, 'e) retry_predicate \<Rightarrow> ('x, 't, 'e) retry_predicate" where
  "negate p outcome = do { b \<leftarrow> p outcome; State_Monad.return (\<not> b) }"

text \<open>
  \<open>.until(p)\<close> is \<open>.when(not p)\<close>, and the default classifier of a \<open>Result\<close> is
  \<open>.when(any_error())\<close>.
\<close>

theorem until_is_when_not:
  "until_decide p = when_decide (negate p)
   \<and> default_decide classify_result = when_decide any_error"
proof
  show "until_decide p = when_decide (negate p)"
    by (rule ext, rule state_ext)
      (simp add: until_decide_def when_decide_def negate_def split: prod.split result.split)
  show "default_decide classify_result = when_decide any_error"
    by (rule ext, rule state_ext)
      (simp add: default_decide_def classify_result_def when_decide_def any_error_def
        split: result.split)
qed

text \<open>
  The built-in classifiers hand the outcome back unchanged when they retry it, return
  exactly the value of an \<open>Ok\<close> and abort with exactly the error of an \<open>Err\<close>; nothing is
  dropped or exchanged.
\<close>

theorem result_classifiers_project_faithfully:
  assumes "d \<in> {when_decide p, until_decide p, default_decide classify_result}"
  shows "case fst (run_state (d outcome) x) of
           Return v \<Rightarrow> outcome = Ok v
         | Retry o' \<Rightarrow> o' = outcome
         | Abort e \<Rightarrow> outcome = Err e"
  using assms
  by (cases outcome)
    (auto simp: when_decide_def until_decide_def default_decide_def classify_result_def
      split: prod.split)

theorem result_classifiers_project_faithfully_witness:
  "case fst (run_state (when_decide (error (\<lambda>e. State_Monad.return (e = (7 :: nat))))
       (Err 3 :: (nat, nat) result)) ()) of
     Return v \<Rightarrow> (Err 3 :: (nat, nat) result) = Ok v
   | Retry o' \<Rightarrow> o' = Err 3
   | Abort e \<Rightarrow> (Err 3 :: (nat, nat) result) = Err e"
  using result_classifiers_project_faithfully
    [of "when_decide (error (\<lambda>e. State_Monad.return (e = (7 :: nat))))"
        "error (\<lambda>e. State_Monad.return (e = (7 :: nat)))" "Err 3 :: (nat, nat) result" "()"]
  by blast

end
