(* ===== verification/Engine_State.thy ===== *)
theory Engine_State
  imports Retry_State Decision
begin

text \<open>
  What the engines hand to their observers and to the caller: \<open>src/src/engine/state.rs\<close>
  (why a loop ended, the views passed to \<open>after_attempt\<close> and \<open>on_exit\<close>),
  \<open>src/src/engine/error.rs\<close> (the error of a loop that did not return) and
  \<open>src/src/engine/stats.rs\<close>. The borrows of the views are the borrowed values.
\<close>

subsection \<open>Why the loop ended\<close>

datatype stop_reason = Returned | Aborted | Exhausted

primrec display_stop_reason :: "stop_reason \<Rightarrow> string" where
  "display_stop_reason Returned = ''returned''"
| "display_stop_reason Aborted = ''aborted''"
| "display_stop_reason Exhausted = ''retries exhausted''"

subsection \<open>The view of \<open>after_attempt\<close>\<close>

record 'o attempt_state =
  as_attempt :: u32
  as_elapsed :: duration
  as_outcome :: 'o

definition attempt_state_new :: "bool \<Rightarrow> u32 \<Rightarrow> duration \<Rightarrow> 'o \<Rightarrow> panic + 'o attempt_state" where
  "attempt_state_new dbg attempt elapsed outcome =
     (case debug_assert_attempt dbg attempt of
        Some p \<Rightarrow> Inl p
      | None \<Rightarrow> Inr \<lparr>as_attempt = attempt, as_elapsed = elapsed, as_outcome = outcome\<rparr>)"

lemma attempt_state_new_ok [simp]:
  "a \<noteq> 0 \<Longrightarrow> attempt_state_new dbg a e o' = Inr \<lparr>as_attempt = a, as_elapsed = e, as_outcome = o'\<rparr>"
  by (simp add: attempt_state_new_def)

subsection \<open>The view of \<open>on_exit\<close>\<close>

datatype ('r, 'a, 'o) exit =
    Exit_Returned u32 duration 'r
  | Exit_Aborted u32 duration 'a
  | Exit_Exhausted u32 duration 'o

primrec exit_attempt :: "('r, 'a, 'o) exit \<Rightarrow> u32" where
  "exit_attempt (Exit_Returned attempt _ _) = attempt"
| "exit_attempt (Exit_Aborted attempt _ _) = attempt"
| "exit_attempt (Exit_Exhausted attempt _ _) = attempt"

primrec exit_elapsed :: "('r, 'a, 'o) exit \<Rightarrow> duration" where
  "exit_elapsed (Exit_Returned _ elapsed _) = elapsed"
| "exit_elapsed (Exit_Aborted _ elapsed _) = elapsed"
| "exit_elapsed (Exit_Exhausted _ elapsed _) = elapsed"

primrec exit_stop_reason :: "('r, 'a, 'o) exit \<Rightarrow> stop_reason" where
  "exit_stop_reason (Exit_Returned _ _ _) = Returned"
| "exit_stop_reason (Exit_Aborted _ _ _) = Aborted"
| "exit_stop_reason (Exit_Exhausted _ _ _) = Exhausted"

subsection \<open>The error of the caller\<close>

datatype ('a, 'o) retry_error = Error_Aborted 'a | Error_Exhausted 'o

type_synonym ('t, 'e) retry_result = "('t, ('e, ('t, 'e) result) retry_error) result"

primrec error_stop_reason :: "('a, 'o) retry_error \<Rightarrow> stop_reason" where
  "error_stop_reason (Error_Aborted _) = Aborted"
| "error_stop_reason (Error_Exhausted _) = Exhausted"

primrec error_last :: "('a, 'o) retry_error \<Rightarrow> 'o option" where
  "error_last (Error_Exhausted final) = Some final"
| "error_last (Error_Aborted _) = None"

primrec into_last :: "('a, 'o) retry_error \<Rightarrow> 'o option" where
  "into_last (Error_Exhausted final) = Some final"
| "into_last (Error_Aborted _) = None"

primrec last_error :: "('e, ('t, 'e) result) retry_error \<Rightarrow> 'e option" where
  "last_error (Error_Aborted final) = Some final"
| "last_error (Error_Exhausted final) = result_err final"

primrec into_last_error :: "('e, ('t, 'e) result) retry_error \<Rightarrow> 'e option" where
  "into_last_error (Error_Aborted final) = Some final"
| "into_last_error (Error_Exhausted final) = result_err final"

text \<open>\<open>Display\<close> of the \<open>Result\<close> shape; \<open>show_e\<close> is the \<open>Display\<close> of the error type.\<close>

primrec display_result_error ::
    "('e \<Rightarrow> string) \<Rightarrow> ('e, ('t, 'e) result) retry_error \<Rightarrow> string" where
  "display_result_error show_e (Error_Aborted final) = ''aborted: '' @ show_e final"
| "display_result_error show_e (Error_Exhausted final) =
     (case final of
        Err err \<Rightarrow> ''retries exhausted: '' @ show_e err
      | Ok _ \<Rightarrow> ''retries exhausted'')"

primrec error_source :: "('e, ('t, 'e) result) retry_error \<Rightarrow> 'e option" where
  "error_source (Error_Aborted final) = Some final"
| "error_source (Error_Exhausted final) =
     (case final of Err err \<Rightarrow> Some err | Ok _ \<Rightarrow> None)"

text \<open>
  \<open>Display\<close> of the \<open>Option\<close> and \<open>ControlFlow\<close> shapes: the abort arm is uninhabited in Rust
  (\<open>match *last {}\<close>), \<^const>\<open>None\<close> here.
\<close>

primrec display_option_error :: "('a, 't option) retry_error \<Rightarrow> string option" where
  "display_option_error (Error_Aborted final) = None"
| "display_option_error (Error_Exhausted final) = Some ''retries exhausted''"

primrec display_control_flow_error ::
    "('a, ('b, 'c) control_flow) retry_error \<Rightarrow> string option" where
  "display_control_flow_error (Error_Aborted final) = None"
| "display_control_flow_error (Error_Exhausted final) = Some ''retries exhausted''"

text \<open>Their \<open>source\<close> is the trait's default.\<close>

definition option_error_source :: "('a, 't option) retry_error \<Rightarrow> 'a option" where
  "option_error_source e = None"

definition control_flow_error_source :: "('a, ('b, 'c) control_flow) retry_error \<Rightarrow> 'a option" where
  "control_flow_error_source e = None"

subsection \<open>Statistics\<close>

record retry_stats =
  rs_attempts :: u32
  rs_total_elapsed :: duration
  rs_total_wait :: duration
  rs_stop_reason :: stop_reason

subsection \<open>What the caller, the observer and the statistics say agrees\<close>

definition result_stop_reason :: "('r, ('a, 'o) retry_error) result \<Rightarrow> stop_reason" where
  "result_stop_reason res = (case res of Ok _ \<Rightarrow> Returned | Err e \<Rightarrow> error_stop_reason e)"

definition exit_result :: "('r, 'a, 'o) exit \<Rightarrow> ('r, ('a, 'o) retry_error) result" where
  "exit_result ev =
     (case ev of
        Exit_Returned _ _ v \<Rightarrow> Ok v
      | Exit_Aborted _ _ a \<Rightarrow> Err (Error_Aborted a)
      | Exit_Exhausted _ _ o' \<Rightarrow> Err (Error_Exhausted o'))"

definition exit_agrees ::
    "('r, 'a, 'o) exit \<Rightarrow> ('r, ('a, 'o) retry_error) result \<Rightarrow> retry_stats \<Rightarrow> bool" where
  "exit_agrees ev res stats \<longleftrightarrow>
     exit_result ev = res \<and> exit_attempt ev = rs_attempts stats
     \<and> exit_elapsed ev = rs_total_elapsed stats \<and> exit_stop_reason ev = rs_stop_reason stats"

lemma exit_agrees_stop_reason:
  "exit_agrees ev res stats \<Longrightarrow> result_stop_reason res = rs_stop_reason stats"
  by (cases ev) (auto simp: exit_agrees_def exit_result_def result_stop_reason_def)

text \<open>
  The accessors of the error agree with each other: the borrowing and the consuming ones
  return the same, \<open>source\<close> is the last error, an outcome is kept exactly by an exhausted
  loop, and the message starts with the name of the stop reason and ends with the last error.
\<close>

theorem error_accessors_agree:
  "error_last e = into_last e \<and> last_error e = into_last_error e \<and> error_source e = last_error e
   \<and> (error_last e = None \<longleftrightarrow> error_stop_reason e = Aborted)
   \<and> display_result_error show_e e =
       display_stop_reason (error_stop_reason e) @
       (case last_error e of None \<Rightarrow> [] | Some err \<Rightarrow> '': '' @ show_e err)"
  by (cases e) (auto split: result.splits)

end
