(* ===== verification/Hooks.thy ===== *)
theory Hooks
  imports Engine_State
begin

text \<open>
  \<open>src/src/engine/hooks.rs\<close>. The three dispatch traits have the same three implementations
  (unit, a closure, a chain), so one type stands for all of them, over the view \<open>'v\<close> the
  hook is called with.
\<close>

datatype ('x, 'v) hook =
    HookUnit
  | HookFn "'v \<Rightarrow> ('x, unit) state"
  | HookChain "('x, 'v) hook" "('x, 'v) hook"

primrec hook_call :: "('x, 'v) hook \<Rightarrow> 'v \<Rightarrow> ('x, unit) state" where
  "hook_call HookUnit st = State_Monad.return ()"
| "hook_call (HookFn f) st = f st"
| "hook_call (HookChain first second) st = do {
     _ \<leftarrow> hook_call first st;
     hook_call second st }"

record ('ba, 'aa, 'ox) execution_hooks =
  hk_before_attempt :: 'ba
  hk_after_attempt :: 'aa
  hk_on_exit :: 'ox

definition execution_hooks_new ::
    "(('x, 'v) hook, ('y, 'w) hook, ('z, 'u) hook) execution_hooks" where
  "execution_hooks_new =
     \<lparr>hk_before_attempt = HookUnit, hk_after_attempt = HookUnit, hk_on_exit = HookUnit\<rparr>"

definition chain_before_attempt ::
    "(('x, 'v) hook, 'aa, 'ox) execution_hooks \<Rightarrow> ('x, 'v) hook \<Rightarrow>
     (('x, 'v) hook, 'aa, 'ox) execution_hooks" where
  "chain_before_attempt h f =
     \<lparr>hk_before_attempt = HookChain (hk_before_attempt h) f,
      hk_after_attempt = hk_after_attempt h, hk_on_exit = hk_on_exit h\<rparr>"

definition chain_after_attempt ::
    "('ba, ('x, 'v) hook, 'ox) execution_hooks \<Rightarrow> ('x, 'v) hook \<Rightarrow>
     ('ba, ('x, 'v) hook, 'ox) execution_hooks" where
  "chain_after_attempt h f =
     \<lparr>hk_before_attempt = hk_before_attempt h,
      hk_after_attempt = HookChain (hk_after_attempt h) f, hk_on_exit = hk_on_exit h\<rparr>"

definition chain_on_exit ::
    "('ba, 'aa, ('x, 'v) hook) execution_hooks \<Rightarrow> ('x, 'v) hook \<Rightarrow>
     ('ba, 'aa, ('x, 'v) hook) execution_hooks" where
  "chain_on_exit h f =
     \<lparr>hk_before_attempt = hk_before_attempt h, hk_after_attempt = hk_after_attempt h,
      hk_on_exit = HookChain (hk_on_exit h) f\<rparr>"

lemma execution_hooks_simps [simp]:
  "hk_before_attempt (chain_before_attempt h f) = HookChain (hk_before_attempt h) f"
  "hk_after_attempt (chain_before_attempt h f) = hk_after_attempt h"
  "hk_on_exit (chain_before_attempt h f) = hk_on_exit h"
  "hk_before_attempt (chain_after_attempt h' f') = hk_before_attempt h'"
  "hk_after_attempt (chain_after_attempt h' f') = HookChain (hk_after_attempt h') f'"
  "hk_on_exit (chain_after_attempt h' f') = hk_on_exit h'"
  "hk_before_attempt (chain_on_exit h'' f'') = hk_before_attempt h''"
  "hk_after_attempt (chain_on_exit h'' f'') = hk_after_attempt h''"
  "hk_on_exit (chain_on_exit h'' f'') = HookChain (hk_on_exit h'') f''"
  "hk_before_attempt execution_hooks_new = HookUnit"
  "hk_after_attempt execution_hooks_new = HookUnit"
  "hk_on_exit execution_hooks_new = HookUnit"
  by (simp_all add: chain_before_attempt_def chain_after_attempt_def chain_on_exit_def
      execution_hooks_new_def)

subsection \<open>Firing order\<close>

primrec hook_fns :: "('x, 'v) hook \<Rightarrow> ('v \<Rightarrow> ('x, unit) state) list" where
  "hook_fns HookUnit = []"
| "hook_fns (HookFn f) = [f]"
| "hook_fns (HookChain first second) = hook_fns first @ hook_fns second"

lemma hook_call_fold:
  "run_state (hook_call h st) x = ((), fold (\<lambda>f x. snd (run_state (f st) x)) (hook_fns h) x)"
  by (induction h arbitrary: x) (simp_all add: prod_eq_iff case_prod_beta)

lemma fold_chain_before_attempt:
  "hook_fns (hk_before_attempt (fold (\<lambda>f h. chain_before_attempt h (HookFn f)) fs h)) =
     hook_fns (hk_before_attempt h) @ fs"
  "hk_after_attempt (fold (\<lambda>f h. chain_before_attempt h (HookFn f)) fs h) = hk_after_attempt h"
  "hk_on_exit (fold (\<lambda>f h. chain_before_attempt h (HookFn f)) fs h) = hk_on_exit h"
  by (induction fs arbitrary: h) simp_all

lemma fold_chain_after_attempt:
  "hook_fns (hk_after_attempt (fold (\<lambda>f h. chain_after_attempt h (HookFn f)) fs h)) =
     hook_fns (hk_after_attempt h) @ fs"
  "hk_before_attempt (fold (\<lambda>f h. chain_after_attempt h (HookFn f)) fs h) = hk_before_attempt h"
  "hk_on_exit (fold (\<lambda>f h. chain_after_attempt h (HookFn f)) fs h) = hk_on_exit h"
  by (induction fs arbitrary: h) simp_all

lemma fold_chain_on_exit:
  "hook_fns (hk_on_exit (fold (\<lambda>f h. chain_on_exit h (HookFn f)) fs h)) =
     hook_fns (hk_on_exit h) @ fs"
  "hk_before_attempt (fold (\<lambda>f h. chain_on_exit h (HookFn f)) fs h) = hk_before_attempt h"
  "hk_after_attempt (fold (\<lambda>f h. chain_on_exit h (HookFn f)) fs h) = hk_after_attempt h"
  by (induction fs arbitrary: h) simp_all

lemmas fold_chain_hooks = fold_chain_before_attempt fold_chain_after_attempt fold_chain_on_exit

text \<open>
  The hooks registered at one point fire exactly once each, in the order they were
  registered, whatever is registered at the other two points.
\<close>

theorem hooks_fire_in_registration_order:
  fixes bs :: "('v \<Rightarrow> ('x, unit) state) list" and ys :: "('w \<Rightarrow> ('x, unit) state) list"
    and es :: "('u \<Rightarrow> ('x, unit) state) list"
  shows "let h = fold (\<lambda>f h. chain_on_exit h (HookFn f)) es
      (fold (\<lambda>f h. chain_after_attempt h (HookFn f)) ys
        (fold (\<lambda>f h. chain_before_attempt h (HookFn f)) bs execution_hooks_new))
    in run_state (hook_call (hk_before_attempt h) v) x =
         ((), fold (\<lambda>f x. snd (run_state (f v) x)) bs x)
       \<and> run_state (hook_call (hk_after_attempt h) w) x =
         ((), fold (\<lambda>f x. snd (run_state (f w) x)) ys x)
       \<and> run_state (hook_call (hk_on_exit h) u) x =
         ((), fold (\<lambda>f x. snd (run_state (f u) x)) es x)"
  unfolding Let_def by (simp add: hook_call_fold fold_chain_hooks)

end
