(* ===== verification/Engine_Step.thy ===== *)
theory Engine_Step
  imports Wait Stop Hooks
begin

text \<open>
  \<open>src/src/engine/step.rs\<close>: what both engines do between having an outcome and sleeping or
  ending. \<open>step\<close> threads the wait strategy, whose generators are interior mutability, and
  the world through the observers in the order of the code: \<open>after_attempt\<close>, the classifier,
  the stop strategy (always asked when the classifier wants to retry), then either \<open>on_exit\<close>
  or the wait strategy.
\<close>

record progress =
  pg_attempt :: u32
  pg_elapsed :: duration
  pg_previous_delay :: "duration option"
  pg_total_wait :: duration

datatype ('r, 'a, 'o) step_result =
    Done "('r, ('a, 'o) retry_error) result" retry_stats
  | Continue duration duration

type_synonym ('x, 'o, 'r, 'a) hooks =
  "(('x, retry_state) hook, ('x, 'o attempt_state) hook, ('x, ('r, 'a, 'o) exit) hook) execution_hooks"

definition stats_for :: "progress \<Rightarrow> stop_reason \<Rightarrow> retry_stats" where
  "stats_for progress reason =
     \<lparr>rs_attempts = pg_attempt progress, rs_total_elapsed = pg_elapsed progress,
      rs_total_wait = pg_total_wait progress, rs_stop_reason = reason\<rparr>"

definition step ::
    "bool \<Rightarrow> progress \<Rightarrow> 'o \<Rightarrow> ('x, 'o, 'r, 'a) classifier \<Rightarrow> 'x stop_strategy \<Rightarrow>
     'x wait_strategy \<Rightarrow> duration option \<Rightarrow> ('x, 'o, 'r, 'a) hooks \<Rightarrow>
     ('x, panic + ('r, 'a, 'o) step_result \<times> 'x wait_strategy) state" where
  "step dbg progress outcome classifier stop wait timeout hooks =
     (let attempt = pg_attempt progress;
          post_elapsed = pg_elapsed progress;
          previous_delay = pg_previous_delay progress;
          total_wait = pg_total_wait progress
      in case attempt_state_new dbg attempt post_elapsed outcome of
        Inl p \<Rightarrow> State_Monad.return (Inl p)
      | Inr attempt_state \<Rightarrow> do {
          _ \<leftarrow> hook_call (hk_after_attempt hooks) attempt_state;
          case for_attempt dbg attempt of
            Inl p \<Rightarrow> State_Monad.return (Inl p)
          | Inr st0 \<Rightarrow> (let st = with_previous_delay (with_elapsed st0 post_elapsed) previous_delay in do {
              v \<leftarrow> classifier outcome;
              case v of
                Return value \<Rightarrow> do {
                  _ \<leftarrow> hook_call (hk_on_exit hooks) (Exit_Returned attempt post_elapsed value);
                  State_Monad.return (Inr (Done (Ok value) (stats_for progress Returned), wait)) }
              | Abort final \<Rightarrow> do {
                  _ \<leftarrow> hook_call (hk_on_exit hooks) (Exit_Aborted attempt post_elapsed final);
                  State_Monad.return
                    (Inr (Done (Err (Error_Aborted final)) (stats_for progress Aborted), wait)) }
              | Retry final \<Rightarrow> (let timeout_exceeded =
                    (case timeout of None \<Rightarrow> False | Some t \<Rightarrow> t \<le> post_elapsed) in do {
                  should_stop_now \<leftarrow> should_stop stop st;
                  if should_stop_now \<or> timeout_exceeded
                  then do {
                    _ \<leftarrow> hook_call (hk_on_exit hooks) (Exit_Exhausted attempt post_elapsed final);
                    State_Monad.return
                      (Inr (Done (Err (Error_Exhausted final)) (stats_for progress Exhausted), wait)) }
                  else do {
                    r \<leftarrow> next_wait wait st;
                    case r of
                      Inl p \<Rightarrow> State_Monad.return (Inl p)
                    | Inr (next_delay, wait') \<Rightarrow>
                        (let delay = (case timeout of
                               Some t \<Rightarrow> min next_delay (saturating_sub t post_elapsed)
                             | None \<Rightarrow> next_delay)
                         in State_Monad.return
                              (Inr (Continue delay (saturating_add total_wait delay), wait'))) } }) }) })"

subsection \<open>The outcomes of a step\<close>

text \<open>The state the stop and the wait strategy see, and the world after a hook.\<close>

definition step_state :: "progress \<Rightarrow> retry_state" where
  "step_state p = \<lparr>st_attempt = pg_attempt p, st_elapsed = pg_elapsed p,
     st_previous_delay = pg_previous_delay p\<rparr>"

definition hook_world :: "('x, 'v) hook \<Rightarrow> 'v \<Rightarrow> 'x \<Rightarrow> 'x" where
  "hook_world h v x = snd (run_state (hook_call h v) x)"

lemma run_hook_call: "run_state (hook_call h v) x = ((), hook_world h v x)"
  by (simp add: hook_world_def prod_eq_iff)

lemma hook_world_simps [simp]:
  "hook_world HookUnit v x = x" "hook_world (HookFn f) v x = snd (run_state (f v) x)"
  "hook_world (HookChain h k) v x = hook_world k v (hook_world h v x)"
  by (simp_all add: hook_world_def case_prod_beta)

definition clamp_delay :: "duration option \<Rightarrow> duration \<Rightarrow> duration \<Rightarrow> duration" where
  "clamp_delay timeout post_elapsed d =
     (case timeout of Some t \<Rightarrow> min d (saturating_sub t post_elapsed) | None \<Rightarrow> d)"

definition timed_out :: "duration option \<Rightarrow> duration \<Rightarrow> bool" where
  "timed_out timeout post_elapsed = (case timeout of None \<Rightarrow> False | Some t \<Rightarrow> t \<le> post_elapsed)"

text \<open>
  The step as an equation on worlds, when attempts are numbered from one: no branch panics.
\<close>

lemma run_step:
  assumes "pg_attempt p \<noteq> 0"
  shows "run_state (step dbg p outcome classifier stop wait timeout hooks) x =
    (let x1 = hook_world (hk_after_attempt hooks)
           \<lparr>as_attempt = pg_attempt p, as_elapsed = pg_elapsed p, as_outcome = outcome\<rparr> x;
         (v, x2) = run_state (classifier outcome) x1
     in case v of
       Return r \<Rightarrow> (Inr (Done (Ok r) (stats_for p Returned), wait),
           hook_world (hk_on_exit hooks) (Exit_Returned (pg_attempt p) (pg_elapsed p) r) x2)
     | Abort a \<Rightarrow> (Inr (Done (Err (Error_Aborted a)) (stats_for p Aborted), wait),
           hook_world (hk_on_exit hooks) (Exit_Aborted (pg_attempt p) (pg_elapsed p) a) x2)
     | Retry final \<Rightarrow>
         (let (b, x3) = run_state (should_stop stop (step_state p)) x2
          in if b \<or> timed_out timeout (pg_elapsed p)
             then (Inr (Done (Err (Error_Exhausted final)) (stats_for p Exhausted), wait),
                   hook_world (hk_on_exit hooks) (Exit_Exhausted (pg_attempt p) (pg_elapsed p) final) x3)
             else (case run_state (next_wait wait (step_state p)) x3 of
                 (Inl e, x4) \<Rightarrow> (Inl e, x4)
               | (Inr (d, wait'), x4) \<Rightarrow>
                   (let delay = clamp_delay timeout (pg_elapsed p) d
                    in (Inr (Continue delay (saturating_add (pg_total_wait p) delay), wait'), x4)))))"
proof -
  have st: "with_previous_delay (with_elapsed \<lparr>st_attempt = pg_attempt p,
      st_elapsed = duration_zero, st_previous_delay = None\<rparr> (pg_elapsed p)) (pg_previous_delay p) =
      step_state p"
    by (simp add: with_previous_delay_def with_elapsed_def step_state_def)
  show ?thesis
    using assms
    by (simp add: step_def Let_def run_hook_call st timed_out_def clamp_delay_def
        split: prod.split verdict.split sum.split)
qed

text \<open>
  The step as a case rule: it ends the loop and \<open>on_exit\<close> has fired with what the caller
  receives, or it goes on. Between \<open>after_attempt\<close> and then the worlds are related by any
  preorder that the classifier and the two strategies keep.
\<close>

lemma step_cases:
  assumes run: "run_state (step dbg p outcome classifier stop wait timeout hooks) x = (res, x')"
    and attempt: "pg_attempt p \<noteq> 0"
    and R: "reflp R" "transp R" "keeps R (classifier outcome)" "stop_keeps R stop" "wait_keeps R wait"
  obtains (Done) ev result stats x2 where
      "res = Inr (Done result stats, wait)"
      "R (hook_world (hk_after_attempt hooks)
         \<lparr>as_attempt = pg_attempt p, as_elapsed = pg_elapsed p, as_outcome = outcome\<rparr> x) x2"
      "x' = hook_world (hk_on_exit hooks) ev x2" "exit_agrees ev result stats"
      "stats = stats_for p (rs_stop_reason stats)"
  | (Continue) d wait' y where
      "res = Inr (Continue (clamp_delay timeout (pg_elapsed p) d)
         (saturating_add (pg_total_wait p) (clamp_delay timeout (pg_elapsed p) d)), wait')"
      "R (hook_world (hk_after_attempt hooks)
         \<lparr>as_attempt = pg_attempt p, as_elapsed = pg_elapsed p, as_outcome = outcome\<rparr> x) x'"
      "wait_config wait' = wait_config wait"
      "wait_lower wait (step_state p) \<le> d" "d \<le> wait_upper wait (step_state p)"
      "\<not> timed_out timeout (pg_elapsed p)"
      "\<not> fst (run_state (should_stop stop (step_state p)) y)"
proof -
  define x1 where "x1 = hook_world (hk_after_attempt hooks)
      \<lparr>as_attempt = pg_attempt p, as_elapsed = pg_elapsed p, as_outcome = outcome\<rparr> x"
  obtain v x2 where v: "run_state (classifier outcome) x1 = (v, x2)" by fastforce
  have R12: "R x1 x2" using keepsD [OF R(3) v] .
  note run = run [unfolded run_step [OF attempt] Let_def, folded x1_def, unfolded v]
  show thesis
  proof (cases v)
    case (Return r)
    then show thesis using run R12
      by (intro Done [of "Ok r" "stats_for p Returned" x2 "Exit_Returned (pg_attempt p) (pg_elapsed p) r"])
        (auto simp: x1_def exit_agrees_def exit_result_def stats_for_def)
  next
    case (Abort a)
    then show thesis using run R12
      by (intro Done [of "Err (Error_Aborted a)" "stats_for p Aborted" x2
            "Exit_Aborted (pg_attempt p) (pg_elapsed p) a"])
        (auto simp: x1_def exit_agrees_def exit_result_def stats_for_def)
  next
    case (Retry final)
    obtain b x3 where b: "run_state (should_stop stop (step_state p)) x2 = (b, x3)" by fastforce
    have R13: "R x1 x3"
      using R12 keepsD [OF keeps_should_stop [OF R(1,2,4)] b] R(2) by (auto dest: transpD)
    show thesis
    proof (cases "b \<or> timed_out timeout (pg_elapsed p)")
      case True
      then show thesis using run R13 Retry b
        by (intro Done [of "Err (Error_Exhausted final)" "stats_for p Exhausted" x3
              "Exit_Exhausted (pg_attempt p) (pg_elapsed p) final"])
          (auto simp: x1_def exit_agrees_def exit_result_def stats_for_def)
    next
      case False
      obtain d wait' x4 where w: "run_state (next_wait wait (step_state p)) x3 = (Inr (d, wait'), x4)"
        and range: "wait_lower wait (step_state p) \<le> d" "d \<le> wait_upper wait (step_state p)"
          "wait_config wait' = wait_config wait"
        by (rule next_wait_total)
      have "R x1 x4"
        using R13 keepsD [OF keeps_next_wait [OF R(1,2,5)] w] R(2) by (auto dest: transpD)
      with False show thesis using run Retry b w range
        by (intro Continue [of d wait' x2]) (auto simp: x1_def)
    qed
  qed
qed

lemma any_keeps:
  "reflp (\<lambda>_ _. True)" "transp (\<lambda>_ _. True)" "keeps (\<lambda>_ _. True) m"
  "stop_keeps (\<lambda>_ _. True) s" "wait_keeps (\<lambda>_ _. True) w"
  by (auto simp: reflp_def transp_def stop_keeps_def wait_keeps_def)

text \<open>
  C15: under a timeout a step goes on only before the deadline, and the delay it asks for ends
  at the deadline at the latest; the running total grows by exactly that delay.
\<close>

theorem step_delay_ends_by_deadline:
  assumes "pg_attempt p \<noteq> 0"
    and "run_state (step dbg p outcome classifier stop wait (Some t) hooks) x =
           (Inr (Continue delay running, wait'), x')"
  shows "pg_elapsed p < t \<and> as_nanos (pg_elapsed p) + as_nanos delay \<le> as_nanos t
       \<and> running = saturating_add (pg_total_wait p) delay"
  using assms(1)
  by (rule step_cases [OF assms(2) _ any_keeps]) (auto simp: clamp_delay_def timed_out_def dur_simps)

theorem step_delay_ends_by_deadline_witness:
  "fst (run_state (step True \<lparr>pg_attempt = 1, pg_elapsed = from_millis 5, pg_previous_delay = None,
       pg_total_wait = duration_zero\<rparr> (Err 0 :: (nat, nat) result) (default_decide classify_result)
       (StopAfterAttempts 5) (fixed (from_millis 10)) (Some (from_millis 8)) execution_hooks_new) ()) =
     Inr (Continue (from_millis 3) (from_millis 3), fixed (from_millis 10))
   \<and> as_nanos (from_millis 5) + as_nanos (from_millis 3) \<le> as_nanos (from_millis 8)"
proof -
  let ?p = "\<lparr>pg_attempt = 1, pg_elapsed = from_millis 5, pg_previous_delay = None,
       pg_total_wait = duration_zero\<rparr>"
  have d: "min (from_millis 10) (saturating_sub (from_millis 8) (from_millis 5)) = from_millis 3"
    by (simp add: dur_simps)
  have n: "\<not> from_millis 8 \<le> from_millis 5" by (simp add: dur_simps)
  have r: "run_state (step True ?p (Err 0 :: (nat, nat) result) (default_decide classify_result)
       (StopAfterAttempts 5) (fixed (from_millis 10)) (Some (from_millis 8)) execution_hooks_new) () =
     (Inr (Continue (from_millis 3) (from_millis 3), fixed (from_millis 10)), ())"
    by (simp add: run_step Let_def default_decide_def classify_result_def step_state_def fixed_def
        timed_out_def clamp_delay_def n d hook_world_def word_le_nat_alt)
  show ?thesis
    using r step_delay_ends_by_deadline [OF _ r] by simp
qed

end
