(* ===== verification/Futures.thy ===== *)
theory Futures
  imports Prelude
begin

text \<open>
  \<open>core::future::Future\<close>, as the async engine uses it: a value that can be polled, which
  acts on the world and leaves the future to be polled next. The waker in the context is
  not modelled: the engine passes it through, and the driver below polls whether or not it
  was woken.
\<close>

codatatype (dead 'x, 'a) future = Future (fut_poll: "('x, 'a poll \<times> ('x, 'a) future) state")

text \<open>The future of a poll function on a state machine.\<close>

primcorec future_of :: "('s \<Rightarrow> ('x, 'a poll \<times> 's) state) \<Rightarrow> 's \<Rightarrow> ('x, 'a) future" where
  "fut_poll (future_of poll_fn s) = map_state (map_prod id (future_of poll_fn)) (poll_fn s)"

lemma run_future_of:
  "run_state (fut_poll (future_of poll_fn s)) x =
     (case run_state (poll_fn s) x of ((p, s'), x') \<Rightarrow> ((p, future_of poll_fn s'), x'))"
  by (simp add: run_map_state split: prod.split)

declare future_of.simps [simp del]

subsection \<open>Driving a future to completion\<close>

text \<open>
  The executor of the tests polls until the future is ready. Between two polls other tasks
  and the runtime run: \<open>idle\<close>.
\<close>

definition block_on_body ::
    "('x, unit) state \<Rightarrow> ('x, 'a) future \<Rightarrow> ('x, ('x, 'a) future + 'a) state" where
  "block_on_body idle fut = do {
     r \<leftarrow> fut_poll fut;
     case r of
       (Ready v, _) \<Rightarrow> State_Monad.return (Inr v)
     | (Pending, fut') \<Rightarrow> do { _ \<leftarrow> idle; State_Monad.return (Inl fut') } }"

definition block_on :: "('x, unit) state \<Rightarrow> ('x, 'a) future \<Rightarrow> 'x \<Rightarrow> ('a \<times> 'x) option" where
  "block_on idle fut = state_loop (block_on_body idle) fut"

lemma block_on_ready:
  "run_state (fut_poll fut) x = ((Ready v, fut'), x') \<Longrightarrow> block_on idle fut x = Some (v, x')"
  unfolding block_on_def by (rule state_loop_exit) (simp add: block_on_body_def)

lemma block_on_pending:
  "run_state (fut_poll fut) x = ((Pending, fut'), x') \<Longrightarrow> run_state idle x' = ((), x'') \<Longrightarrow>
   block_on idle fut x = block_on idle fut' x''"
  unfolding block_on_def by (rule state_loop_step) (simp add: block_on_body_def)

text \<open>An \<open>async move\<close> block that awaits nothing is ready at its first poll.\<close>

definition ready_future :: "'o \<Rightarrow> ('x, 'o) future" where
  "ready_future v = future_of (\<lambda>_. State_Monad.return (Ready v, ())) ()"

lemma block_on_ready_future [simp]: "block_on idle (ready_future v) x = Some (v, x)"
  by (rule block_on_ready [where fut' = "ready_future v"]) (simp add: ready_future_def run_future_of)

end
