(* ===== verification/Clock.thy ===== *)
theory Clock
  imports Rust_Duration Futures
begin

text \<open>
  \<open>src/src/clock.rs\<close>. A clock is the dictionary of its trait: the read seam, and for the
  two capability traits the blocking or the future-producing wait. Clocks hold references
  to time that flows elsewhere (a cell, the operating system), so their state is in the
  world and the dictionary's functions are computations on it.
\<close>

record 'x clock =
  ck_now :: "('x, duration) state"

record 'x sync_clock = "'x clock" +
  ck_wait :: "duration \<Rightarrow> ('x, unit) state"

record 'x async_clock = "'x clock" +
  ck_wait_async :: "duration \<Rightarrow> ('x, ('x, unit) future) state"

text \<open>A shared reference to a clock is a clock.\<close>

definition sync_clock_ref :: "'x sync_clock \<Rightarrow> 'x sync_clock" where
  "sync_clock_ref c = \<lparr>ck_now = ck_now c, ck_wait = (\<lambda>dur. ck_wait c dur)\<rparr>"

definition async_clock_ref :: "'x async_clock \<Rightarrow> 'x async_clock" where
  "async_clock_ref c = \<lparr>ck_now = ck_now c, ck_wait_async = (\<lambda>dur. ck_wait_async c dur)\<rparr>"

lemma clock_ref_id [simp]: "sync_clock_ref c = c" "async_clock_ref d = d"
  by (simp_all add: sync_clock_ref_def async_clock_ref_def)

subsection \<open>The contract of a clock\<close>

text \<open>
  What the comments on \<open>Clock\<close> and \<open>SyncClock\<close> ask of an implementation: readings do not
  go back, and a completed wait is reflected in later readings. \<open>time x\<close> is what the clock
  shows in the world \<open>x\<close>; \<open>ready\<close> holds once the clock has been read (some clocks take
  their origin at the first reading).
\<close>

locale lawful_clock =
  fixes now :: "('x, duration) state" and time :: "'x \<Rightarrow> duration" and ready :: "'x \<Rightarrow> bool"
  assumes now_reads: "run_state now x = (t, x') \<Longrightarrow> ready x' \<and> time x' = t"
    and now_monotone: "ready x \<Longrightarrow> run_state now x = (t, x') \<Longrightarrow> time x \<le> t"
begin

text \<open>The relation between worlds along which time does not go back.\<close>

definition later :: "'x \<Rightarrow> 'x \<Rightarrow> bool" where
  "later x y \<longleftrightarrow> (ready x \<longrightarrow> ready y \<and> time x \<le> time y)"

lemma later_reflp: "reflp later"
  by (auto simp: reflp_def later_def)

lemma later_transp: "transp later"
  by (auto simp: transp_def later_def)

lemma later_now: "run_state now x = (t, x') \<Longrightarrow> later x x'"
  using now_reads now_monotone by (auto simp: later_def)

end

locale lawful_sync_clock = lawful_clock "ck_now c" time ready
  for c :: "'x sync_clock" and time :: "'x \<Rightarrow> duration" and ready :: "'x \<Rightarrow> bool" +
  assumes wait_advances:
    "ready x \<Longrightarrow> run_state (ck_wait c dur) x = ((), x') \<Longrightarrow>
     ready x' \<and> saturating_add (time x) dur \<le> time x'"
begin

lemma later_wait: "run_state (ck_wait c dur) x = ((), x') \<Longrightarrow> later x x'"
  using wait_advances saturating_add_ge(1) by (fastforce simp: later_def intro: order_trans)

end

subsection \<open>\<open>VirtualClock\<close>\<close>

text \<open>The clock's two cells; the rest of the world is the record's extension.\<close>

record virtual_clock =
  vc_now :: duration
  vc_waits :: "duration list"

definition virtual_clock_new :: virtual_clock where
  "virtual_clock_new = \<lparr>vc_now = duration_zero, vc_waits = []\<rparr>"

definition vc_advance :: "duration \<Rightarrow> 'm virtual_clock_scheme \<Rightarrow> 'm virtual_clock_scheme" where
  "vc_advance dur vc = vc\<lparr>vc_now := saturating_add (vc_now vc) dur\<rparr>"

definition waits :: "'m virtual_clock_scheme \<Rightarrow> duration list" where
  "waits vc = vc_waits vc"

definition record_wait :: "duration \<Rightarrow> 'm virtual_clock_scheme \<Rightarrow> 'm virtual_clock_scheme" where
  "record_wait dur vc = (let vc' = vc_advance dur vc in vc'\<lparr>vc_waits := vc_waits vc' @ [dur]\<rparr>)"

definition virtual_now :: "('m virtual_clock_scheme, duration) state" where
  "virtual_now = State (\<lambda>vc. (vc_now vc, vc))"

definition virtual_wait :: "duration \<Rightarrow> ('m virtual_clock_scheme, unit) state" where
  "virtual_wait dur = State (\<lambda>vc. ((), record_wait dur vc))"

definition virtual_sync_clock :: "'m virtual_clock_scheme sync_clock" where
  "virtual_sync_clock = \<lparr>ck_now = virtual_now, ck_wait = virtual_wait\<rparr>"

text \<open>The future \<open>VirtualWait\<close>: it advances time on its first poll.\<close>

record virtual_wait_future =
  vw_dur :: duration
  vw_advanced :: bool

definition virtual_wait_poll ::
    "virtual_wait_future \<Rightarrow> ('m virtual_clock_scheme, unit poll \<times> virtual_wait_future) state" where
  "virtual_wait_poll vw = State (\<lambda>vc.
     if \<not> vw_advanced vw
     then ((Ready (), vw\<lparr>vw_advanced := True\<rparr>), record_wait (vw_dur vw) vc)
     else ((Ready (), vw), vc))"

definition virtual_wait_async ::
    "duration \<Rightarrow> ('m virtual_clock_scheme, ('m virtual_clock_scheme, unit) future) state" where
  "virtual_wait_async dur =
     State_Monad.return (future_of virtual_wait_poll \<lparr>vw_dur = dur, vw_advanced = False\<rparr>)"

definition virtual_async_clock :: "'m virtual_clock_scheme async_clock" where
  "virtual_async_clock = \<lparr>ck_now = virtual_now, ck_wait_async = virtual_wait_async\<rparr>"

lemma virtual_clock_simps [simp]:
  "run_state virtual_now vc = (vc_now vc, vc)"
  "run_state (virtual_wait dur) vc = ((), record_wait dur vc)"
  "vc_now (record_wait dur vc) = saturating_add (vc_now vc) dur"
  "vc_waits (record_wait dur vc) = vc_waits vc @ [dur]"
  "virtual_clock.more (record_wait dur vc) = virtual_clock.more vc"
  "ck_now virtual_sync_clock = virtual_now" "ck_wait virtual_sync_clock = virtual_wait"
  "ck_now virtual_async_clock = virtual_now"
  "ck_wait_async virtual_async_clock = virtual_wait_async"
  by (simp_all add: virtual_now_def virtual_wait_def record_wait_def vc_advance_def
      virtual_sync_clock_def virtual_async_clock_def)

interpretation virtual: lawful_sync_clock
    "virtual_sync_clock :: 'm virtual_clock_scheme sync_clock" vc_now "\<lambda>_. True"
  by unfold_locales auto

lemma block_on_virtual_wait:
  "block_on idle (future_of virtual_wait_poll \<lparr>vw_dur = dur, vw_advanced = False\<rparr>) vc =
     Some ((), record_wait dur vc)"
  by (rule block_on_ready) (simp add: run_future_of virtual_wait_poll_def)

text \<open>
  A virtual wait takes effect once, on its first poll: creating the future leaves time
  alone, the first poll advances the clock and records the wait as the blocking wait does,
  and any further polls change nothing.
\<close>

theorem virtual_wait_takes_effect_once:
  "\<exists>fut fut'. run_state (virtual_wait_async dur) vc = (fut, vc)
     \<and> run_state (fut_poll fut) vc =
         ((Ready (), fut'), snd (run_state (ck_wait virtual_sync_clock dur) vc))
     \<and> (\<forall>vc'. run_state (fut_poll fut') vc' = ((Ready (), fut'), vc'))"
proof -
  let ?f = "\<lambda>b. future_of virtual_wait_poll \<lparr>vw_dur = dur, vw_advanced = b\<rparr>"
  have "run_state (virtual_wait_async dur) vc = (?f False, vc)"
    by (simp add: virtual_wait_async_def)
  moreover have "run_state (fut_poll (?f False)) vc = ((Ready (), ?f True), record_wait dur vc)"
    by (simp add: run_future_of virtual_wait_poll_def)
  moreover have "run_state (fut_poll (?f True)) vc' = ((Ready (), ?f True), vc')" for vc'
    by (simp add: run_future_of virtual_wait_poll_def)
  ultimately show ?thesis by (metis snd_conv virtual_clock_simps(2,7))
qed

subsection \<open>\<open>SystemClock\<close>\<close>

text \<open>
  The standard library's \<open>Instant\<close> is read only through the process-global anchor, so the
  world holds the age of the anchor, if it has been set. Time goes by on its own: before a
  reading \<open>pass\<close> nanoseconds have, as many as the world at hand makes it. \<open>thread::sleep\<close>
  blocks for at least the requested time; how much longer is up to the scheduler, the
  parameter \<open>late\<close>.
\<close>

record os_world =
  os_anchor_age :: "nat option"

definition system_now ::
    "('m os_world_scheme \<Rightarrow> nat) \<Rightarrow> ('m os_world_scheme, duration) state" where
  "system_now pass = State (\<lambda>x.
     let age = (case os_anchor_age x of None \<Rightarrow> 0 | Some a \<Rightarrow> a + pass x)
     in (duration_of age, x\<lparr>os_anchor_age := Some age\<rparr>))"

definition system_wait ::
    "('m os_world_scheme \<Rightarrow> nat) \<Rightarrow> duration \<Rightarrow> ('m os_world_scheme, unit) state" where
  "system_wait late dur = State (\<lambda>x.
     ((), x\<lparr>os_anchor_age := map_option (\<lambda>age. age + as_nanos dur + late x) (os_anchor_age x)\<rparr>))"

definition system_clock ::
    "('m os_world_scheme \<Rightarrow> nat) \<Rightarrow> ('m os_world_scheme \<Rightarrow> nat) \<Rightarrow> 'm os_world_scheme sync_clock" where
  "system_clock pass late = \<lparr>ck_now = system_now pass, ck_wait = system_wait late\<rparr>"

definition os_time :: "'m os_world_scheme \<Rightarrow> duration" where
  "os_time x = duration_of (case os_anchor_age x of None \<Rightarrow> 0 | Some age \<Rightarrow> age)"

definition os_ready :: "'m os_world_scheme \<Rightarrow> bool" where
  "os_ready x \<longleftrightarrow> os_anchor_age x \<noteq> None"

lemma saturating_add_duration_of_le:
  "saturating_add (duration_of m) d \<le> duration_of (m + as_nanos d + k)"
  by (simp add: less_eq_duration_def saturating_add.rep_eq duration_of.rep_eq)

lemma duration_of_mono: "m \<le> n \<Longrightarrow> duration_of m \<le> duration_of n"
  by (simp add: less_eq_duration_def duration_of.rep_eq)

interpretation system: lawful_sync_clock
    "system_clock pass late" os_time os_ready for pass late
  by unfold_locales
    (auto simp: system_clock_def system_now_def system_wait_def os_time_def os_ready_def
      Let_def saturating_add_duration_of_le duration_of_mono split: option.splits)

subsection \<open>Clocks over other runtimes\<close>

text \<open>
  The other clocks keep an instant of their runtime as the origin and hand the wait to the
  runtime. The runtime's instant type, its reading and its timer are parameters.
\<close>

record 'i tokio_clock = tk_origin :: 'i

definition tokio_clock_new :: "('x, 'i) state \<Rightarrow> ('x, 'i tokio_clock) state" where
  "tokio_clock_new instant_now = do {
     i \<leftarrow> instant_now;
     State_Monad.return \<lparr>tk_origin = i\<rparr> }"

definition tokio_clock_default :: "('x, 'i) state \<Rightarrow> ('x, 'i tokio_clock) state" where
  "tokio_clock_default instant_now = tokio_clock_new instant_now"

definition tokio_clock_impl ::
    "('i \<Rightarrow> ('x, duration) state) \<Rightarrow> (duration \<Rightarrow> ('x, ('x, unit) future) state) \<Rightarrow>
     'i tokio_clock \<Rightarrow> 'x async_clock" where
  "tokio_clock_impl instant_elapsed sleep c =
     \<lparr>ck_now = instant_elapsed (tk_origin c), ck_wait_async = sleep\<rparr>"

record 'i futures_timer_clock = ft_origin :: 'i

definition futures_timer_clock_new :: "('x, 'i) state \<Rightarrow> ('x, 'i futures_timer_clock) state" where
  "futures_timer_clock_new instant_now = do {
     i \<leftarrow> instant_now;
     State_Monad.return \<lparr>ft_origin = i\<rparr> }"

definition futures_timer_clock_default :: "('x, 'i) state \<Rightarrow> ('x, 'i futures_timer_clock) state" where
  "futures_timer_clock_default instant_now = futures_timer_clock_new instant_now"

definition futures_timer_clock_impl ::
    "('i \<Rightarrow> ('x, duration) state) \<Rightarrow> (duration \<Rightarrow> ('x, ('x, unit) future) state) \<Rightarrow>
     'i futures_timer_clock \<Rightarrow> 'x async_clock" where
  "futures_timer_clock_impl instant_elapsed delay_new c =
     \<lparr>ck_now = instant_elapsed (ft_origin c), ck_wait_async = delay_new\<rparr>"

record 'i embassy_clock = eb_origin :: 'i

definition embassy_clock_new :: "('x, 'i) state \<Rightarrow> ('x, 'i embassy_clock) state" where
  "embassy_clock_new instant_now = do {
     i \<leftarrow> instant_now;
     State_Monad.return \<lparr>eb_origin = i\<rparr> }"

definition embassy_clock_default :: "('x, 'i) state \<Rightarrow> ('x, 'i embassy_clock) state" where
  "embassy_clock_default instant_now = embassy_clock_new instant_now"

text \<open>\<open>to_embassy_duration\<close>: the ticks handed to \<open>Duration::from_ticks\<close>, in \<open>u128\<close> arithmetic.\<close>

definition to_embassy_ticks :: "u64 \<Rightarrow> duration \<Rightarrow> u64" where
  "to_embassy_ticks TICK_HZ dur =
     (let scaled = min (as_micros dur * unat TICK_HZ) (2 ^ 128 - 1);
          ticks_ceil = scaled div 1000000 + (if scaled mod 1000000 \<noteq> 0 then 1 else 0)
      in if ticks_ceil < 2 ^ 64 then word_of_nat ticks_ceil else - 1)"

definition embassy_clock_impl ::
    "('i \<Rightarrow> ('x, u64) state) \<Rightarrow> u64 \<Rightarrow> (u64 \<Rightarrow> ('x, ('x, unit) future) state) \<Rightarrow>
     'i embassy_clock \<Rightarrow> 'x async_clock" where
  "embassy_clock_impl elapsed_micros TICK_HZ timer_after_ticks c =
     \<lparr>ck_now = do { us \<leftarrow> elapsed_micros (eb_origin c); State_Monad.return (from_micros us) },
      ck_wait_async = (\<lambda>dur. timer_after_ticks (to_embassy_ticks TICK_HZ dur))\<rparr>"

record 'x gloo_clock = gl_now :: "('x, duration) state"

definition gloo_with_now :: "('x, duration) state \<Rightarrow> 'x gloo_clock" where
  "gloo_with_now now = \<lparr>gl_now = now\<rparr>"

definition gloo_now :: "'x gloo_clock \<Rightarrow> ('x, duration) state" where
  "gloo_now c = gl_now c"

definition gloo_millis :: "duration \<Rightarrow> panic + u32" where
  "gloo_millis dur =
     (let n = min (as_millis dur) 2147483647
      in if n < 2 ^ 32 then Inr (word_of_nat n)
         else Inl ''value clamped to i32::MAX fits in u32'')"

definition gloo_wait_async ::
    "(u32 \<Rightarrow> ('x, ('x, unit) future) state) \<Rightarrow> duration \<Rightarrow> ('x, panic + ('x, unit) future) state" where
  "gloo_wait_async timeout_new dur =
     (case gloo_millis dur of
        Inl p \<Rightarrow> State_Monad.return (Inl p)
      | Inr millis \<Rightarrow> do { fut \<leftarrow> timeout_new millis; State_Monad.return (Inr fut) })"

subsection \<open>What the conversions keep\<close>

lemma div_ceil_bounds:
  fixes n :: nat
  assumes "0 < k"
  shows "n \<le> (n div k + (if n mod k \<noteq> 0 then 1 else 0)) * k"
    and "(n div k + (if n mod k \<noteq> 0 then 1 else 0)) * k < n + k"
proof -
  have eq: "n = n div k * k + n mod k" by simp
  have lt: "n mod k < k" using assms by simp
  show "n \<le> (n div k + (if n mod k \<noteq> 0 then 1 else 0)) * k"
  proof (cases "n mod k = 0")
    case False
    have "n \<le> n div k * k + k" using eq lt by linarith
    with False show ?thesis by (simp add: distrib_right)
  qed (use eq in simp)
  show "(n div k + (if n mod k \<noteq> 0 then 1 else 0)) * k < n + k"
  proof (cases "n mod k = 0")
    case False
    have "n div k * k + k < n + k" using eq False by linarith
    with False show ?thesis by (simp add: distrib_right)
  qed (use eq assms in simp)
qed

text \<open>
  C36: the tick count handed to embassy covers the requested whole microseconds unless it is
  the largest count there is, and exceeds them by less than one tick: the conversion neither
  wraps nor truncates, at any tick rate.
\<close>

theorem embassy_ticks_round_up:
  "(to_embassy_ticks hz d = - 1 \<or> as_micros d * unat hz \<le> unat (to_embassy_ticks hz d) * 1000000)
   \<and> unat (to_embassy_ticks hz d) * 1000000 < as_micros d * unat hz + 1000000"
proof -
  define n where "n = as_micros d * unat hz"
  define m where "m = min n (2 ^ 128 - 1)"
  define q where "q = m div 1000000 + (if m mod 1000000 \<noteq> 0 then 1 else 0)"
  have lo: "m \<le> q * 1000000" and hi: "q * 1000000 < m + 1000000"
    unfolding q_def by (rule div_ceil_bounds; simp)+
  have t: "to_embassy_ticks hz d = (if q < 2 ^ 64 then word_of_nat q else - 1)"
    by (simp only: to_embassy_ticks_def Let_def q_def m_def n_def)
  have mn: "m \<le> n" by (simp add: m_def)
  show ?thesis
  proof (cases "q < 2 ^ 64")
    case True
    then have u: "unat (to_embassy_ticks hz d) = q" by (simp add: t unat_word_of_nat_u64)
    have "m < 2 ^ 64 * 1000000" using lo True by simp
    then have "m = n" by (auto simp: m_def min_def split: if_splits)
    then show ?thesis using lo hi u by (simp add: n_def)
  next
    case False
    then have "to_embassy_ticks hz d = - 1" by (simp add: t)
    moreover have "(2 ^ 64 - 1) * 1000000 < n + 1000000" using False hi mn by simp
    ultimately show ?thesis by (simp add: unat_u64_max n_def)
  qed
qed

text \<open>
  Below a microsecond the embassy wait is lost: 999 nanoseconds are a non-zero delay, and
  the timer is set to zero ticks, whatever the tick rate.
\<close>

theorem embassy_drops_submicrosecond_waits:
  "to_embassy_ticks hz (from_nanos 999) = 0 \<and> \<not> duration_is_zero (from_nanos 999)"
  by (simp add: to_embassy_ticks_def Let_def dur_simps)

text \<open>
  The gloo wait never reaches the panic of its conversion, and the millisecond count it
  passes to JavaScript is never negative as a signed 32-bit integer; it is the requested
  count, cut off at \<open>i32::MAX\<close>.
\<close>

theorem gloo_millis_total:
  "\<exists>m. gloo_millis d = Inr m \<and> unat m = min (as_millis d) 2147483647 \<and> 0 \<le> sint m"
proof -
  define n where "n = min (as_millis d) 2147483647"
  have n: "n \<le> 2147483647" by (simp add: n_def)
  then have m: "gloo_millis d = Inr (word_of_nat n)"
    by (simp add: gloo_millis_def Let_def n_def)
  have u: "unat (word_of_nat n :: u32) = n" using n by (simp add: unat_word_of_nat_u32)
  have "sint (word_of_nat n :: u32) = int n"
    using n by (simp add: signed_of_nat signed_take_bit_int_eq_self)
  then show ?thesis using m u by (auto simp: n_def)
qed

end
