(* ===== verification/Engine_Sync.thy ===== *)
theory Engine_Sync
  imports Engine_Step Clock
begin

text \<open>
  \<open>src/src/engine/mod.rs\<close> and \<open>src/src/engine/op.rs\<close>: the operation interface, the sync
  builder and its loop. The builder is generic in its slots as the Rust struct is; a setter
  that changes the type of a slot builds the record anew.
\<close>

subsection \<open>Operations\<close>

datatype ('x, 'o) retry_op =
    OpFn "retry_state \<Rightarrow> ('x, 'o) state"
  | StatelessOp "('x, 'o) state"

primrec call_op :: "('x, 'o) retry_op \<Rightarrow> retry_state \<Rightarrow> ('x, 'o) state" where
  "call_op (OpFn f) st = f st"
| "call_op (StatelessOp f) st = f"

subsection \<open>The builder\<close>

definition DEFAULT_MAX_ATTEMPTS :: u32 where
  "DEFAULT_MAX_ATTEMPTS = 3"

definition DEFAULT_INITIAL_WAIT :: duration where
  "DEFAULT_INITIAL_WAIT = from_millis 100"

record ('f, 'c, 's, 'w, 'cl, 'ba, 'aa, 'ox) retry =
  rt_op :: 'f
  rt_classifier :: 'c
  rt_stop :: 's
  rt_wait :: 'w
  rt_clock :: 'cl
  rt_hooks :: "('ba, 'aa, 'ox) execution_hooks"
  rt_timeout :: "duration option"

text \<open>
  \<open>from_parts\<close> installs \<open>SystemClock\<close>; the clock's dictionary is the argument
  \<open>system\<close>. \<open>from_op\<close> can panic only where \<open>stop::attempts\<close> can.
\<close>

definition from_parts ::
    "'cl \<Rightarrow> 'f \<Rightarrow> 'c \<Rightarrow> 's \<Rightarrow> 'w \<Rightarrow> duration option \<Rightarrow>
     ('f, 'c, 's, 'w, 'cl, ('x, 'v) hook, ('y, 'u) hook, ('z, 't) hook) retry" where
  "from_parts system oper classifier stop wait timeout =
     \<lparr>rt_op = oper, rt_classifier = classifier, rt_stop = stop, rt_wait = wait, rt_clock = system,
      rt_hooks = execution_hooks_new, rt_timeout = timeout\<rparr>"

definition from_op ::
    "'cl \<Rightarrow> ('o \<Rightarrow> ('r, 'a, 'o) verdict) \<Rightarrow> 'f \<Rightarrow>
     panic + ('f, ('x, 'o, 'r, 'a) classifier, 'x stop_strategy, 'x wait_strategy, 'cl,
        ('x, 'v) hook, ('x, 'u) hook, ('x, 't) hook) retry" where
  "from_op system classify oper =
     (case attempts DEFAULT_MAX_ATTEMPTS of
        Inl p \<Rightarrow> Inl p
      | Inr stop \<Rightarrow>
          Inr (from_parts system oper (default_decide classify) stop
                 (exponential DEFAULT_INITIAL_WAIT) None))"

text \<open>\<open>retry(op)\<close> and \<open>(|| op()).retry()\<close>.\<close>

definition retry_new ::
    "'cl \<Rightarrow> ('o \<Rightarrow> ('r, 'a, 'o) verdict) \<Rightarrow> (retry_state \<Rightarrow> ('x, 'o) state) \<Rightarrow>
     panic + (('x, 'o) retry_op, ('x, 'o, 'r, 'a) classifier, 'x stop_strategy, 'x wait_strategy, 'cl,
        ('x, 'v) hook, ('x, 'u) hook, ('x, 't) hook) retry" where
  "retry_new system classify f = from_op system classify (OpFn f)"

definition retry_ext ::
    "'cl \<Rightarrow> ('o \<Rightarrow> ('r, 'a, 'o) verdict) \<Rightarrow> ('x, 'o) state \<Rightarrow>
     panic + (('x, 'o) retry_op, ('x, 'o, 'r, 'a) classifier, 'x stop_strategy, 'x wait_strategy, 'cl,
        ('x, 'v) hook, ('x, 'u) hook, ('x, 't) hook) retry" where
  "retry_ext system classify f = from_op system classify (StatelessOp f)"

definition set_stop ::
    "('f, 'c, 's, 'w, 'cl, 'ba, 'aa, 'ox) retry \<Rightarrow> 's2 \<Rightarrow>
     ('f, 'c, 's2, 'w, 'cl, 'ba, 'aa, 'ox) retry" where
  "set_stop r stop =
     \<lparr>rt_op = rt_op r, rt_classifier = rt_classifier r, rt_stop = stop, rt_wait = rt_wait r,
      rt_clock = rt_clock r, rt_hooks = rt_hooks r, rt_timeout = rt_timeout r\<rparr>"

definition set_wait ::
    "('f, 'c, 's, 'w, 'cl, 'ba, 'aa, 'ox) retry \<Rightarrow> 'w2 \<Rightarrow>
     ('f, 'c, 's, 'w2, 'cl, 'ba, 'aa, 'ox) retry" where
  "set_wait r wait =
     \<lparr>rt_op = rt_op r, rt_classifier = rt_classifier r, rt_stop = rt_stop r, rt_wait = wait,
      rt_clock = rt_clock r, rt_hooks = rt_hooks r, rt_timeout = rt_timeout r\<rparr>"

definition set_clock ::
    "('f, 'c, 's, 'w, 'cl, 'ba, 'aa, 'ox) retry \<Rightarrow> 'cl2 \<Rightarrow>
     ('f, 'c, 's, 'w, 'cl2, 'ba, 'aa, 'ox) retry" where
  "set_clock r clock =
     \<lparr>rt_op = rt_op r, rt_classifier = rt_classifier r, rt_stop = rt_stop r, rt_wait = rt_wait r,
      rt_clock = clock, rt_hooks = rt_hooks r, rt_timeout = rt_timeout r\<rparr>"

definition set_timeout ::
    "('f, 'c, 's, 'w, 'cl, 'ba, 'aa, 'ox) retry \<Rightarrow> duration \<Rightarrow>
     ('f, 'c, 's, 'w, 'cl, 'ba, 'aa, 'ox) retry" where
  "set_timeout r dur = r\<lparr>rt_timeout := Some dur\<rparr>"

definition with_classifier ::
    "('f, 'c, 's, 'w, 'cl, 'ba, 'aa, 'ox) retry \<Rightarrow> 'c2 \<Rightarrow>
     ('f, 'c2, 's, 'w, 'cl, 'ba, 'aa, 'ox) retry" where
  "with_classifier r classifier =
     \<lparr>rt_op = rt_op r, rt_classifier = classifier, rt_stop = rt_stop r, rt_wait = rt_wait r,
      rt_clock = rt_clock r, rt_hooks = rt_hooks r, rt_timeout = rt_timeout r\<rparr>"

definition set_decide ::
    "('f, 'c, 's, 'w, 'cl, 'ba, 'aa, 'ox) retry \<Rightarrow> ('d \<Rightarrow> ('r, 'a, 'o) verdict) \<Rightarrow>
     ('o \<Rightarrow> ('x, 'd) state) \<Rightarrow>
     ('f, ('x, 'o, 'r, 'a) classifier, 's, 'w, 'cl, 'ba, 'aa, 'ox) retry" where
  "set_decide r into_verdict c = with_classifier r (closure_decide into_verdict c)"

definition set_when ::
    "('f, 'c, 's, 'w, 'cl, 'ba, 'aa, 'ox) retry \<Rightarrow> ('x, 't, 'e) retry_predicate \<Rightarrow>
     ('f, ('x, ('t, 'e) result, 't, 'e) classifier, 's, 'w, 'cl, 'ba, 'aa, 'ox) retry" where
  "set_when r predicate = with_classifier r (when_decide predicate)"

definition set_until ::
    "('f, 'c, 's, 'w, 'cl, 'ba, 'aa, 'ox) retry \<Rightarrow> ('x, 't, 'e) retry_predicate \<Rightarrow>
     ('f, ('x, ('t, 'e) result, 't, 'e) classifier, 's, 'w, 'cl, 'ba, 'aa, 'ox) retry" where
  "set_until r predicate = with_classifier r (until_decide predicate)"

definition before_attempt ::
    "('f, 'c, 's, 'w, 'cl, ('x, retry_state) hook, 'aa, 'ox) retry \<Rightarrow>
     (retry_state \<Rightarrow> ('x, unit) state) \<Rightarrow>
     ('f, 'c, 's, 'w, 'cl, ('x, retry_state) hook, 'aa, 'ox) retry" where
  "before_attempt r hook =
     \<lparr>rt_op = rt_op r, rt_classifier = rt_classifier r, rt_stop = rt_stop r, rt_wait = rt_wait r,
      rt_clock = rt_clock r, rt_hooks = chain_before_attempt (rt_hooks r) (HookFn hook),
      rt_timeout = rt_timeout r\<rparr>"

definition after_attempt ::
    "('f, 'c, 's, 'w, 'cl, 'ba, ('x, 'o attempt_state) hook, 'ox) retry \<Rightarrow>
     ('o attempt_state \<Rightarrow> ('x, unit) state) \<Rightarrow>
     ('f, 'c, 's, 'w, 'cl, 'ba, ('x, 'o attempt_state) hook, 'ox) retry" where
  "after_attempt r hook =
     \<lparr>rt_op = rt_op r, rt_classifier = rt_classifier r, rt_stop = rt_stop r, rt_wait = rt_wait r,
      rt_clock = rt_clock r, rt_hooks = chain_after_attempt (rt_hooks r) (HookFn hook),
      rt_timeout = rt_timeout r\<rparr>"

definition on_exit ::
    "('f, 'c, 's, 'w, 'cl, 'ba, 'aa, ('x, ('r, 'a, 'o) exit) hook) retry \<Rightarrow>
     (('r, 'a, 'o) exit \<Rightarrow> ('x, unit) state) \<Rightarrow>
     ('f, 'c, 's, 'w, 'cl, 'ba, 'aa, ('x, ('r, 'a, 'o) exit) hook) retry" where
  "on_exit r hook =
     \<lparr>rt_op = rt_op r, rt_classifier = rt_classifier r, rt_stop = rt_stop r, rt_wait = rt_wait r,
      rt_clock = rt_clock r, rt_hooks = chain_on_exit (rt_hooks r) (HookFn hook),
      rt_timeout = rt_timeout r\<rparr>"

lemmas builder_defs = from_parts_def set_stop_def set_wait_def set_clock_def set_timeout_def
  with_classifier_def set_decide_def set_when_def set_until_def before_attempt_def
  after_attempt_def on_exit_def

subsection \<open>The loop\<close>

text \<open>The builder with its slots filled as \<open>call\<close> requires.\<close>

type_synonym ('x, 'o, 'r, 'a) sync_retry =
  "(('x, 'o) retry_op, ('x, 'o, 'r, 'a) classifier, 'x stop_strategy, 'x wait_strategy, 'x sync_clock,
    ('x, retry_state) hook, ('x, 'o attempt_state) hook, ('x, ('r, 'a, 'o) exit) hook) retry"

text \<open>
  The loop's variables, and the wait strategy, whose generators change with every call. What
  the loop is left with: a panic, or the result, the statistics and the strategy, which a
  borrowing caller keeps.
\<close>

record 'x loop_vars =
  lv_attempt :: u32
  lv_previous_delay :: "duration option"
  lv_total_wait :: duration
  lv_wait :: "'x wait_strategy"

type_synonym ('x, 'o, 'r, 'a) loop_result =
  "panic + (('r, ('a, 'o) retry_error) result \<times> retry_stats) \<times> 'x wait_strategy"

definition elapsed_since :: "('x, 'm) clock_scheme \<Rightarrow> duration \<Rightarrow> ('x, duration) state" where
  "elapsed_since clock origin = do {
     t \<leftarrow> ck_now clock;
     State_Monad.return (saturating_sub t origin) }"

definition run_body ::
    "bool \<Rightarrow> ('x, 'o, 'r, 'a) sync_retry \<Rightarrow> duration \<Rightarrow> 'x loop_vars \<Rightarrow>
     ('x, 'x loop_vars + ('x, 'o, 'r, 'a) loop_result) state" where
  "run_body dbg r origin v =
     (case for_attempt dbg (lv_attempt v) of
        Inl p \<Rightarrow> State_Monad.return (Inr (Inl p))
      | Inr st0 \<Rightarrow> do {
          e \<leftarrow> elapsed_since (rt_clock r) origin;
          let before_state = with_previous_delay (with_elapsed st0 e) (lv_previous_delay v);
          _ \<leftarrow> hook_call (hk_before_attempt (rt_hooks r)) before_state;
          outcome \<leftarrow> call_op (rt_op r) before_state;
          post_elapsed \<leftarrow> elapsed_since (rt_clock r) origin;
          s \<leftarrow> step dbg
                 \<lparr>pg_attempt = lv_attempt v, pg_elapsed = post_elapsed,
                  pg_previous_delay = lv_previous_delay v, pg_total_wait = lv_total_wait v\<rparr>
                 outcome (rt_classifier r) (rt_stop r) (lv_wait v) (rt_timeout r) (rt_hooks r);
          case s of
            Inl p \<Rightarrow> State_Monad.return (Inr (Inl p))
          | Inr (Done res stats, wait') \<Rightarrow> State_Monad.return (Inr (Inr ((res, stats), wait')))
          | Inr (Continue delay running, wait') \<Rightarrow> do {
              _ \<leftarrow> (if \<not> duration_is_zero delay then ck_wait (rt_clock r) delay
                   else State_Monad.return ());
              State_Monad.return (Inl
                \<lparr>lv_attempt = u32_saturating_add (lv_attempt v) 1,
                 lv_previous_delay = Some delay, lv_total_wait = running, lv_wait = wait'\<rparr>) } })"

definition run ::
    "bool \<Rightarrow> ('x, 'o, 'r, 'a) sync_retry \<Rightarrow> 'x \<Rightarrow> (('x, 'o, 'r, 'a) loop_result \<times> 'x) option" where
  "run dbg r x =
     (let (origin, x0) = run_state (ck_now (rt_clock r)) x
      in state_loop (run_body dbg r origin)
           \<lparr>lv_attempt = 1, lv_previous_delay = None, lv_total_wait = duration_zero,
            lv_wait = rt_wait r\<rparr> x0)"

text \<open>\<open>call\<close> drops the statistics; the stats wrapper keeps them.\<close>

definition call ::
    "bool \<Rightarrow> ('x, 'o, 'r, 'a) sync_retry \<Rightarrow> 'x \<Rightarrow>
     ((panic + ('r, ('a, 'o) retry_error) result) \<times> 'x) option" where
  "call dbg r x = map_option (map_prod (map_sum id (fst \<circ> fst)) id) (run dbg r x)"

datatype 'r retry_with_stats = RetryWithStats (ws_inner: 'r)

definition with_stats :: "'r \<Rightarrow> 'r retry_with_stats" where
  "with_stats r = RetryWithStats r"

definition call_with_stats ::
    "bool \<Rightarrow> ('x, 'o, 'r, 'a) sync_retry retry_with_stats \<Rightarrow> 'x \<Rightarrow>
     ((panic + ('r, ('a, 'o) retry_error) result \<times> retry_stats) \<times> 'x) option" where
  "call_with_stats dbg ws x = map_option (map_prod (map_sum id fst) id) (run dbg (ws_inner ws) x)"

end
