(* ===== verification/Engine_Run.thy ===== *)
theory Engine_Run
  imports Engine_Sync
begin

text \<open>
  What the sync loop does: the case rule of one iteration, and with it that no build panics,
  when the loop terminates and when it cannot, and what it returns.
\<close>

subsection \<open>One iteration\<close>

definition attempt_state_of :: "'x loop_vars \<Rightarrow> duration \<Rightarrow> retry_state" where
  "attempt_state_of v e =
     \<lparr>st_attempt = lv_attempt v, st_elapsed = e, st_previous_delay = lv_previous_delay v\<rparr>"

definition progress_of :: "'x loop_vars \<Rightarrow> duration \<Rightarrow> progress" where
  "progress_of v e =
     \<lparr>pg_attempt = lv_attempt v, pg_elapsed = e, pg_previous_delay = lv_previous_delay v,
      pg_total_wait = lv_total_wait v\<rparr>"

lemma progress_of_simps [simp]:
  "pg_attempt (progress_of v e) = lv_attempt v" "pg_elapsed (progress_of v e) = e"
  "pg_previous_delay (progress_of v e) = lv_previous_delay v"
  "pg_total_wait (progress_of v e) = lv_total_wait v"
  "step_state (progress_of v e) = attempt_state_of v e"
  by (simp_all add: progress_of_def step_state_def attempt_state_of_def)

lemma attempt_state_of_simps [simp]:
  "st_attempt (attempt_state_of v e) = lv_attempt v" "st_elapsed (attempt_state_of v e) = e"
  "st_previous_delay (attempt_state_of v e) = lv_previous_delay v"
  by (simp_all add: attempt_state_of_def)

definition loop_next :: "'x loop_vars \<Rightarrow> duration \<Rightarrow> 'x wait_strategy \<Rightarrow> 'x loop_vars" where
  "loop_next v delay w =
     \<lparr>lv_attempt = u32_saturating_add (lv_attempt v) 1, lv_previous_delay = Some delay,
      lv_total_wait = saturating_add (lv_total_wait v) delay, lv_wait = w\<rparr>"

lemma loop_next_simps [simp]:
  "lv_attempt (loop_next v delay w) = u32_saturating_add (lv_attempt v) 1"
  "lv_previous_delay (loop_next v delay w) = Some delay"
  "lv_total_wait (loop_next v delay w) = saturating_add (lv_total_wait v) delay"
  "lv_wait (loop_next v delay w) = w"
  by (simp_all add: loop_next_def)

text \<open>The sleep between two attempts: skipped when the delay is zero.\<close>

definition sleep_world :: "'x sync_clock \<Rightarrow> duration \<Rightarrow> 'x \<Rightarrow> 'x" where
  "sleep_world c delay x = (if delay = duration_zero then x else snd (run_state (ck_wait c delay) x))"

lemma run_body_step:
  assumes "lv_attempt v \<noteq> 0"
    and "run_state (ck_now (rt_clock r)) x = (t1, x1)"
    and "run_state (call_op (rt_op r) (attempt_state_of v (saturating_sub t1 origin)))
          (hook_world (hk_before_attempt (rt_hooks r)) (attempt_state_of v (saturating_sub t1 origin)) x1) =
          (oc, x3)"
    and "run_state (ck_now (rt_clock r)) x3 = (t2, x4)"
    and "run_state (step dbg (progress_of v (saturating_sub t2 origin)) oc (rt_classifier r)
          (rt_stop r) (lv_wait v) (rt_timeout r) (rt_hooks r)) x4 = (s, x5)"
  shows "run_state (run_body dbg r origin v) x =
    (case s of
       Inl p \<Rightarrow> (Inr (Inl p), x5)
     | Inr (Done res stats, w) \<Rightarrow> (Inr (Inr ((res, stats), w)), x5)
     | Inr (Continue delay running, w) \<Rightarrow>
         (Inl \<lparr>lv_attempt = u32_saturating_add (lv_attempt v) 1, lv_previous_delay = Some delay,
            lv_total_wait = running, lv_wait = w\<rparr>, sleep_world (rt_clock r) delay x5))"
proof -
  have st: "with_previous_delay (with_elapsed
      \<lparr>st_attempt = lv_attempt v, st_elapsed = duration_zero, st_previous_delay = None\<rparr> e)
      (lv_previous_delay v) = attempt_state_of v e" for e
    by (simp add: with_previous_delay_def with_elapsed_def attempt_state_of_def)
  show ?thesis
    using assms unfolding progress_of_def
    by (simp add: run_body_def elapsed_since_def st run_hook_call Let_def sleep_world_def
        split: sum.split step_result.split prod.split)
qed

text \<open>
  How an iteration that saw the elapsed time \<open>e\<close> after the operation, and the world \<open>y\<close> after the
  \<open>after_attempt\<close> hook, leaves: \<open>on_exit\<close> has fired with what the caller receives, or the loop
  goes on after a sleep. The observers between have moved the world by \<open>R\<close>.
\<close>

definition body_ends ::
    "('x \<Rightarrow> 'x \<Rightarrow> bool) \<Rightarrow> ('x, 'o, 'r, 'a) sync_retry \<Rightarrow> 'x loop_vars \<Rightarrow> duration \<Rightarrow> 'x \<Rightarrow>
     'x loop_vars + ('x, 'o, 'r, 'a) loop_result \<Rightarrow> 'x \<Rightarrow> bool" where
  "body_ends R r v e y out x' \<longleftrightarrow>
     (\<exists>ev res stats x5. out = Inr (Inr ((res, stats), lv_wait v))
         \<and> R y x5
         \<and> x' = hook_world (hk_on_exit (rt_hooks r)) ev x5 \<and> exit_agrees ev res stats
         \<and> stats = stats_for (progress_of v e) (rs_stop_reason stats))"

definition body_goes_on ::
    "('x \<Rightarrow> 'x \<Rightarrow> bool) \<Rightarrow> ('x, 'o, 'r, 'a) sync_retry \<Rightarrow> 'x loop_vars \<Rightarrow> duration \<Rightarrow> 'x \<Rightarrow>
     'x loop_vars + ('x, 'o, 'r, 'a) loop_result \<Rightarrow> 'x \<Rightarrow> bool" where
  "body_goes_on R r v e y out x' \<longleftrightarrow>
     (\<exists>d w x5 z. out = Inl (loop_next v (clamp_delay (rt_timeout r) e d) w)
         \<and> R y x5
         \<and> x' = sleep_world (rt_clock r) (clamp_delay (rt_timeout r) e d) x5
         \<and> wait_config w = wait_config (rt_wait r)
         \<and> wait_lower (rt_wait r) (attempt_state_of v e) \<le> d
         \<and> d \<le> wait_upper (rt_wait r) (attempt_state_of v e)
         \<and> \<not> timed_out (rt_timeout r) e
         \<and> \<not> fst (run_state (should_stop (rt_stop r) (attempt_state_of v e)) z))"

lemmas body_leaves_defs = body_ends_def body_goes_on_def

lemma body_leaves_simps [simp]:
  "\<not> body_ends R r v e y (Inl v') x'" "\<not> body_goes_on R r v e y (Inr q) x'"
  by (simp_all add: body_leaves_defs)

text \<open>
  The iteration as a case rule. \<open>R\<close> is any preorder on worlds that the classifier and the
  two strategies keep; the clock, the hooks and the operation are named.
\<close>

definition observers_keep :: "('x \<Rightarrow> 'x \<Rightarrow> bool) \<Rightarrow> ('x, 'o, 'r, 'a) sync_retry \<Rightarrow> bool" where
  "observers_keep R r \<longleftrightarrow> reflp R \<and> transp R \<and> (\<forall>oc. keeps R (rt_classifier r oc))
     \<and> stop_keeps R (rt_stop r) \<and> wait_keeps R (rt_wait r)"

lemma observers_keep_any: "observers_keep (\<lambda>_ _. True) r"
  by (simp add: observers_keep_def any_keeps)

lemma run_body_cases:
  assumes run: "run_state (run_body dbg r origin v) x = (out, x')"
    and attempt: "lv_attempt v \<noteq> 0"
    and R: "observers_keep R r" "wait_config (lv_wait v) = wait_config (rt_wait r)"
  obtains t1 x1 oc x3 t2 x4 bs e y where
      "run_state (ck_now (rt_clock r)) x = (t1, x1)"
      "bs = attempt_state_of v (saturating_sub t1 origin)"
      "run_state (call_op (rt_op r) bs) (hook_world (hk_before_attempt (rt_hooks r)) bs x1) = (oc, x3)"
      "run_state (ck_now (rt_clock r)) x3 = (t2, x4)" "e = saturating_sub t2 origin"
      "y = hook_world (hk_after_attempt (rt_hooks r))
         \<lparr>as_attempt = lv_attempt v, as_elapsed = e, as_outcome = oc\<rparr> x4"
      "body_ends R r v e y out x' \<or> body_goes_on R r v e y out x'"
proof -
  obtain t1 x1 where t1: "run_state (ck_now (rt_clock r)) x = (t1, x1)" by fastforce
  define bs where "bs = attempt_state_of v (saturating_sub t1 origin)"
  obtain oc x3 where oc: "run_state (call_op (rt_op r) bs)
      (hook_world (hk_before_attempt (rt_hooks r)) bs x1) = (oc, x3)" by fastforce
  obtain t2 x4 where t2: "run_state (ck_now (rt_clock r)) x3 = (t2, x4)" by fastforce
  define e where "e = saturating_sub t2 origin"
  obtain s x5 where s: "run_state (step dbg (progress_of v e) oc (rt_classifier r)
      (rt_stop r) (lv_wait v) (rt_timeout r) (rt_hooks r)) x4 = (s, x5)" by fastforce
  note body = run_body_step [OF attempt t1 oc [unfolded bs_def] t2 s [unfolded e_def]]
  have attempt': "pg_attempt (progress_of v e) \<noteq> 0" using attempt by simp
  have R': "reflp R" "transp R" "keeps R (rt_classifier r oc)" "stop_keeps R (rt_stop r)"
      "wait_keeps R (lv_wait v)"
    using R wait_keeps_config [OF R(2)] by (simp_all add: observers_keep_def)
  show thesis
  proof (rule that [OF t1 bs_def oc t2 e_def refl])
    let ?y = "hook_world (hk_after_attempt (rt_hooks r))
       \<lparr>as_attempt = lv_attempt v, as_elapsed = e, as_outcome = oc\<rparr> x4"
    show "body_ends R r v e ?y out x' \<or> body_goes_on R r v e ?y out x'"
    proof (rule step_cases [OF s attempt' R', unfolded progress_of_simps])
      fix ev res stats x2
      assume "s = Inr (Done res stats, lv_wait v)"
        "R ?y x2"
        "x5 = hook_world (hk_on_exit (rt_hooks r)) ev x2" "exit_agrees ev res stats"
        "stats = stats_for (progress_of v e) (rs_stop_reason stats)"
      then show ?thesis using run body unfolding body_ends_def by (intro disjI1) auto
    next
      fix d w y
      assume "s = Inr (Continue (clamp_delay (rt_timeout r) e d)
            (saturating_add (lv_total_wait v) (clamp_delay (rt_timeout r) e d)), w)"
        "R ?y x5"
        "wait_config w = wait_config (lv_wait v)"
        "wait_lower (lv_wait v) (attempt_state_of v e) \<le> d"
        "d \<le> wait_upper (lv_wait v) (attempt_state_of v e)"
        "\<not> timed_out (rt_timeout r) e"
        "\<not> fst (run_state (should_stop (rt_stop r) (attempt_state_of v e)) y)"
      then show ?thesis
        using run body R(2) same_config_range [OF R(2), of "attempt_state_of v e"]
        unfolding body_goes_on_def by (intro disjI2) (auto simp: loop_next_def)
    qed
  qed
qed

subsection \<open>Rules for the whole loop\<close>

definition loop_start :: "('x, 'o, 'r, 'a) sync_retry \<Rightarrow> 'x loop_vars" where
  "loop_start r = \<lparr>lv_attempt = 1, lv_previous_delay = None, lv_total_wait = duration_zero,
     lv_wait = rt_wait r\<rparr>"

lemma loop_start_simps [simp]:
  "lv_attempt (loop_start r) = 1" "lv_previous_delay (loop_start r) = None"
  "lv_total_wait (loop_start r) = duration_zero" "lv_wait (loop_start r) = rt_wait r"
  by (simp_all add: loop_start_def)

lemma run_eq:
  "run_state (ck_now (rt_clock r)) x = (origin, x0) \<Longrightarrow>
   run dbg r x = state_loop (run_body dbg r origin) (loop_start r) x0"
  by (simp add: run_def loop_start_def)

text \<open>The invariant every run has: attempts are numbered from one, the strategy is the user's.\<close>

definition vars_ok :: "('x, 'o, 'r, 'a) sync_retry \<Rightarrow> 'x loop_vars \<Rightarrow> bool" where
  "vars_ok r v \<longleftrightarrow> lv_attempt v \<noteq> 0 \<and> wait_config (lv_wait v) = wait_config (rt_wait r)"

lemma vars_ok_start [simp]: "vars_ok r (loop_start r)"
  by (simp add: vars_ok_def)

lemma vars_ok_next:
  assumes "vars_ok r v" and "run_state (run_body dbg r origin v) x = (Inl v', x')"
  shows "vars_ok r v'"
proof -
  have ok: "lv_attempt v \<noteq> 0" "wait_config (lv_wait v) = wait_config (rt_wait r)"
    using assms(1) by (simp_all add: vars_ok_def)
  show ?thesis
    by (rule run_body_cases [OF assms(2) ok(1) observers_keep_any ok(2)])
      (use ok in \<open>auto simp: vars_ok_def body_goes_on_def u32_saturating_add_one_nonzero\<close>)
qed

lemma run_rule:
  assumes run: "run dbg r x = Some (e, x')"
    and now: "run_state (ck_now (rt_clock r)) x = (origin, x0)"
    and init: "I (loop_start r) x0"
    and keep: "\<And>v y v' y'. I v y \<Longrightarrow> vars_ok r v \<Longrightarrow>
      run_state (run_body dbg r origin v) y = (Inl v', y') \<Longrightarrow> I v' y'"
    and exit: "\<And>v y e y'. I v y \<Longrightarrow> vars_ok r v \<Longrightarrow>
      run_state (run_body dbg r origin v) y = (Inr e, y') \<Longrightarrow> Q e y'"
  shows "Q e x'"
  by (rule state_loop_invariant
      [where I = "\<lambda>v y. I v y \<and> vars_ok r v", OF run [unfolded run_eq [OF now]]])
    (use init keep exit vars_ok_next in \<open>auto simp del: bind_simps\<close>)

lemma run_total_rule:
  fixes m :: "'x loop_vars \<Rightarrow> 'x \<Rightarrow> nat"
  assumes now: "run_state (ck_now (rt_clock r)) x = (origin, x0)"
    and init: "I (loop_start r) x0"
    and keep: "\<And>v y v' y'. I v y \<Longrightarrow> vars_ok r v \<Longrightarrow>
      run_state (run_body dbg r origin v) y = (Inl v', y') \<Longrightarrow> I v' y' \<and> m v' y' < m v y"
    and exit: "\<And>v y e y'. I v y \<Longrightarrow> vars_ok r v \<Longrightarrow>
      run_state (run_body dbg r origin v) y = (Inr e, y') \<Longrightarrow> Q e y'"
  shows "\<exists>e x'. run dbg r x = Some (e, x') \<and> Q e x'"
  unfolding run_eq [OF now]
  by (rule state_loop_total [where I = "\<lambda>v y. I v y \<and> vars_ok r v" and m = m])
    (use init keep exit vars_ok_next in \<open>auto simp del: bind_simps\<close>)

text \<open>How an iteration leaves the loop.\<close>

lemma run_body_exit:
  assumes "run_state (run_body dbg r origin v) x = (Inr e, x')" and "vars_ok r v"
  obtains res stats ev y where "e = Inr ((res, stats), lv_wait v)"
    and "x' = hook_world (hk_on_exit (rt_hooks r)) ev y" and "exit_agrees ev res stats"
    and "rs_attempts stats = lv_attempt v" and "rs_total_wait stats = lv_total_wait v"
proof -
  have ok: "lv_attempt v \<noteq> 0" "wait_config (lv_wait v) = wait_config (rt_wait r)"
    using assms(2) by (simp_all add: vars_ok_def)
  show thesis
  proof (rule run_body_cases [OF assms(1) ok(1) observers_keep_any ok(2)],
      unfold body_leaves_defs, elim disjE exE conjE)
    fix e' ev res stats x5
    assume "Inr e = Inr (Inr ((res, stats), lv_wait v))"
      "x' = hook_world (hk_on_exit (rt_hooks r)) ev x5" "exit_agrees ev res stats"
      "stats = stats_for (progress_of v e') (rs_stop_reason stats)"
    then show thesis
      by (intro that [of res stats ev x5])
        (simp_all, metis stats_for_def progress_of_simps(1) retry_stats.select_convs(1),
          metis stats_for_def progress_of_simps(4) retry_stats.select_convs(3))
  qed auto
qed

text \<open>How an iteration goes on.\<close>

lemma run_body_next:
  assumes "run_state (run_body dbg r origin v) x = (Inl v', x')" and "vars_ok r v"
  obtains d w e y where "v' = loop_next v (clamp_delay (rt_timeout r) e d) w"
    and "\<not> timed_out (rt_timeout r) e"
    and "\<not> fst (run_state (should_stop (rt_stop r) (attempt_state_of v e)) y)"
proof -
  have ok: "lv_attempt v \<noteq> 0" "wait_config (lv_wait v) = wait_config (rt_wait r)"
    using assms(2) by (simp_all add: vars_ok_def)
  show thesis
    by (rule run_body_cases [OF assms(1) ok(1) observers_keep_any ok(2)])
      (use that in \<open>auto simp: body_goes_on_def\<close>)
qed

text \<open>What an iteration answers, read off the verdict and the stop strategy.\<close>

definition verdict_result :: "('r, 'a, 'o) verdict \<Rightarrow> ('r, ('a, 'o) retry_error) result" where
  "verdict_result v =
     (case v of Return a \<Rightarrow> Ok a | Abort a \<Rightarrow> Err (Error_Aborted a) | Retry f \<Rightarrow> Err (Error_Exhausted f))"

lemma run_body_verdict:
  assumes body: "run_state (run_body dbg r origin v) x = (out, x')" and ok: "vars_ok r v"
  obtains e0 y0 oc e y1 y2 where
    "oc = fst (run_state (call_op (rt_op r) (attempt_state_of v e0)) y0)"
    "if is_Retry (fst (run_state (rt_classifier r oc) y1))
        \<and> \<not> fst (run_state (should_stop (rt_stop r) (attempt_state_of v e)) y2)
        \<and> \<not> timed_out (rt_timeout r) e
     then \<exists>d w. out = Inl (loop_next v (clamp_delay (rt_timeout r) e d) w)
     else \<exists>stats. out = Inr (Inr ((verdict_result (fst (run_state (rt_classifier r oc) y1)), stats),
              lv_wait v)) \<and> rs_attempts stats = lv_attempt v"
    "\<exists>y3. e = saturating_sub (fst (run_state (ck_now (rt_clock r)) y3)) origin"
proof -
  have attempt: "lv_attempt v \<noteq> 0" using ok by (simp add: vars_ok_def)
  obtain t1 x1 where t1: "run_state (ck_now (rt_clock r)) x = (t1, x1)" by fastforce
  let ?bs = "attempt_state_of v (saturating_sub t1 origin)"
  obtain oc x3 where oc: "run_state (call_op (rt_op r) ?bs)
      (hook_world (hk_before_attempt (rt_hooks r)) ?bs x1) = (oc, x3)" by fastforce
  obtain t2 x4 where t2: "run_state (ck_now (rt_clock r)) x3 = (t2, x4)" by fastforce
  let ?e = "saturating_sub t2 origin"
  let ?y1 = "hook_world (hk_after_attempt (rt_hooks r))
      \<lparr>as_attempt = lv_attempt v, as_elapsed = ?e, as_outcome = oc\<rparr> x4"
  obtain vd x5 where vd: "run_state (rt_classifier r oc) ?y1 = (vd, x5)" by fastforce
  obtain b x6 where b: "run_state (should_stop (rt_stop r) (attempt_state_of v ?e)) x5 = (b, x6)"
    by fastforce
  obtain d w x7 where w: "run_state (next_wait (lv_wait v) (attempt_state_of v ?e)) x6 = (Inr (d, w), x7)"
    using next_wait_no_panic [of "lv_wait v" "attempt_state_of v ?e" x6] by blast
  obtain s x8 where s: "run_state (step dbg (progress_of v ?e) oc (rt_classifier r)
      (rt_stop r) (lv_wait v) (rt_timeout r) (rt_hooks r)) x4 = (s, x8)" by fastforce
  have attempt': "pg_attempt (progress_of v ?e) \<noteq> 0" using attempt by simp
  note s' = s [unfolded run_step [OF attempt'] Let_def progress_of_simps, unfolded vd]
  note body' = body [unfolded run_body_step [OF attempt t1 oc t2 s]]
  show thesis
  proof (rule that [of oc "saturating_sub t1 origin" _ ?y1 ?e x5])
    show "\<exists>y3. ?e = saturating_sub (fst (run_state (ck_now (rt_clock r)) y3)) origin"
      using t2 by (intro exI [of _ x3]) simp
    show "oc = fst (run_state (call_op (rt_op r) ?bs)
        (hook_world (hk_before_attempt (rt_hooks r)) ?bs x1))"
      by (simp add: oc)
    show "if is_Retry (fst (run_state (rt_classifier r oc) ?y1))
        \<and> \<not> fst (run_state (should_stop (rt_stop r) (attempt_state_of v ?e)) x5)
        \<and> \<not> timed_out (rt_timeout r) ?e
     then \<exists>d w. out = Inl (loop_next v (clamp_delay (rt_timeout r) ?e d) w)
     else \<exists>stats. out = Inr (Inr ((verdict_result (fst (run_state (rt_classifier r oc) ?y1)), stats),
              lv_wait v)) \<and> rs_attempts stats = lv_attempt v"
    proof (cases "is_Retry vd \<and> \<not> b \<and> \<not> timed_out (rt_timeout r) ?e")
      case True
      then have "s = Inr (Continue (clamp_delay (rt_timeout r) ?e d)
          (saturating_add (lv_total_wait v) (clamp_delay (rt_timeout r) ?e d)), w)"
        using s' by (auto simp: is_Retry_def b w)
      then show ?thesis
        using True body' by (simp add: vd b loop_next_def) blast
    next
      case False
      then have "s = Inr (Done (verdict_result vd) (stats_for (progress_of v ?e)
          (result_stop_reason (verdict_result vd))), lv_wait v)"
        using s' by (cases vd)
          (simp_all add: b verdict_result_def result_stop_reason_def is_Retry_def split: if_splits)
      then show ?thesis
        using False body' by (auto simp: vd b stats_for_def)
    qed
  qed
qed

subsection \<open>Panics, termination, divergence\<close>

text \<open>
  C14: a run never panics, in debug and release builds alike, and what it returns is
  consistent: the statistics name the reason the result shows, at least one attempt was
  made, \<open>on_exit\<close> was the last thing to run and saw the result, the attempt count, the
  elapsed time and the reason the caller gets, and the wait strategy kept its configuration.
\<close>

theorem run_result_consistent:
  assumes "run dbg r x = Some (e, x')"
  shows "\<exists>res stats w ev y. e = Inr ((res, stats), w)
     \<and> result_stop_reason res = rs_stop_reason stats \<and> rs_attempts stats \<noteq> 0
     \<and> x' = hook_world (hk_on_exit (rt_hooks r)) ev y \<and> exit_agrees ev res stats
     \<and> wait_config w = wait_config (rt_wait r)"
proof -
  obtain origin x0 where now: "run_state (ck_now (rt_clock r)) x = (origin, x0)" by fastforce
  show ?thesis
  proof (rule run_rule [OF assms now, where I = "\<lambda>_ _. True"])
    fix v y e y'
    assume ok: "vars_ok r v" and body: "run_state (run_body dbg r origin v) y = (Inr e, y')"
    show "\<exists>res stats w ev y. e = Inr ((res, stats), w)
       \<and> result_stop_reason res = rs_stop_reason stats \<and> rs_attempts stats \<noteq> 0
       \<and> y' = hook_world (hk_on_exit (rt_hooks r)) ev y \<and> exit_agrees ev res stats
       \<and> wait_config w = wait_config (rt_wait r)"
      using ok exit_agrees_stop_reason by (rule_tac run_body_exit [OF body ok]) (fastforce simp: vars_ok_def)
  qed simp_all
qed

lemma unat_next_attempt:
  "a < limit \<Longrightarrow> unat (u32_saturating_add a 1) = Suc (unat a)"
  using unat_u32_lt [of limit] by (simp add: unat_u32_saturating_add word_less_nat_alt)

context stop_bound
begin

lemma run_terminates:
  assumes stop: "rt_stop r = stop"
  shows "\<exists>res stats w x'. run dbg r x = Some (Inr ((res, stats), w), x')
           \<and> unat (rs_attempts stats) \<le> max 1 (unat limit)"
proof -
  obtain origin x0 where now: "run_state (ck_now (rt_clock r)) x = (origin, x0)" by fastforce
  have "\<exists>e x'. run dbg r x = Some (e, x') \<and> (\<exists>res stats w. e = Inr ((res, stats), w)
           \<and> unat (rs_attempts stats) \<le> max 1 (unat limit))"
  proof (rule run_total_rule [OF now, where I = "\<lambda>v _. unat (lv_attempt v) \<le> max 1 (unat limit)"
        and m = "\<lambda>v _. unat limit - unat (lv_attempt v)"])
    fix v y v' y'
    assume ok: "vars_ok r v" and body: "run_state (run_body dbg r origin v) y = (Inl v', y')"
    obtain d w e z where v': "v' = loop_next v (clamp_delay (rt_timeout r) e d) w"
      and "\<not> fst (run_state (should_stop (rt_stop r) (attempt_state_of v e)) z)"
      by (rule run_body_next [OF body ok])
    then have lt: "lv_attempt v < limit"
      using fires_run [of "attempt_state_of v e" z] by (auto simp: stop prod_eq_iff)
    then show "unat (lv_attempt v') \<le> max 1 (unat limit)
        \<and> unat limit - unat (lv_attempt v') < unat limit - unat (lv_attempt v)"
      using unat_next_attempt [OF lt] by (simp add: v' word_less_nat_alt)
  next
    fix v y e y'
    assume I: "unat (lv_attempt v) \<le> max 1 (unat limit)" and ok: "vars_ok r v"
      and body: "run_state (run_body dbg r origin v) y = (Inr e, y')"
    show "\<exists>res stats w. e = Inr ((res, stats), w) \<and> unat (rs_attempts stats) \<le> max 1 (unat limit)"
      using I by (rule_tac run_body_exit [OF body ok]) auto
  qed simp
  then show ?thesis by blast
qed

end

lemma run_stop_limit:
  "stop_limit (rt_stop r) = Some m \<Longrightarrow>
   \<exists>res stats w x'. run dbg r x = Some (Inr ((res, stats), w), x')
           \<and> unat (rs_attempts stats) \<le> max 1 (unat m)"
  by (rule stop_bound.run_terminates [OF stop_limit_bound refl])

lemma run_reports_attempt:
  assumes "run dbg r x = Some (Inr ((res, stats), w), x')"
  shows "1 \<le> unat (rs_attempts stats)"
proof -
  obtain origin x0 where now: "run_state (ck_now (rt_clock r)) x = (origin, x0)" by fastforce
  have "\<forall>res' stats' w'. Inr ((res, stats), w) = (Inr ((res', stats'), w') :: panic + _) \<longrightarrow> rs_attempts stats' \<noteq> 0"
  proof (rule run_rule [OF assms now, where I = "\<lambda>_ _. True"
        and Q = "\<lambda>e _. \<forall>res' stats' w'. e = Inr ((res', stats'), w') \<longrightarrow> rs_attempts stats' \<noteq> 0"])
    fix v y e y'
    assume ok: "vars_ok r v" and body: "run_state (run_body dbg r origin v) y = (Inr e, y')"
    show "\<forall>res' stats' w'. e = Inr ((res', stats'), w') \<longrightarrow> rs_attempts stats' \<noteq> 0"
      using ok by (rule_tac run_body_exit [OF body ok]) (auto simp: vars_ok_def)
  qed simp_all
  then show ?thesis by (simp add: unat_gt_0 Suc_le_eq)
qed

text \<open>A builder on the virtual clock for the instances below: outcomes by attempt number.\<close>

definition sample_retry ::
    "(nat \<Rightarrow> (nat, nat) result) \<Rightarrow> virtual_clock stop_strategy \<Rightarrow>
     (virtual_clock, (nat, nat) result, nat, nat) sync_retry" where
  "sample_retry f stop =
     set_clock (from_parts () (OpFn (\<lambda>st. State_Monad.return (f (unat (st_attempt st)))))
       (default_decide classify_result) stop (exponential (from_millis 100)) None) virtual_sync_clock"

lemma sample_retry_simps [simp]:
  "rt_stop (sample_retry f s) = s" "rt_timeout (sample_retry f s) = None"
  "rt_classifier (sample_retry f s) = default_decide classify_result"
  "rt_op (sample_retry f s) = OpFn (\<lambda>st. State_Monad.return (f (unat (st_attempt st))))"
  "rt_clock (sample_retry f s) = virtual_sync_clock"
  by (simp_all add: sample_retry_def builder_defs)

theorem run_result_consistent_witness:
  "\<exists>res stats w x' ev y.
     run True (sample_retry (\<lambda>n. Err n) (StopAfterAttempts 3)) virtual_clock_new =
       Some (Inr ((res, stats), w), x')
     \<and> result_stop_reason res = rs_stop_reason stats \<and> rs_attempts stats \<noteq> 0
     \<and> x' = hook_world (hk_on_exit (rt_hooks (sample_retry (\<lambda>n. Err n) (StopAfterAttempts 3)))) ev y
     \<and> exit_agrees ev res stats"
proof -
  have "stop_limit (rt_stop (sample_retry (\<lambda>n. Err n) (StopAfterAttempts 3))) = Some 3" by simp
  from run_stop_limit [OF this, of True virtual_clock_new] obtain e x' where
    "run True (sample_retry (\<lambda>n. Err n) (StopAfterAttempts 3)) virtual_clock_new = Some (e, x')"
    by blast
  with run_result_consistent [OF this] show ?thesis by blast
qed

text \<open>
  C9: a retry whose stop strategy is bounded by its structure returns, whatever the
  operation, the clock, the hooks and the user-written strategies do, and it makes at most
  that many attempts (and at least one).
\<close>

theorem bounded_run_terminates:
  assumes "stop_limit (rt_stop r) = Some m"
  shows "\<exists>res stats w x'. run dbg r x = Some (Inr ((res, stats), w), x')
           \<and> 1 \<le> unat (rs_attempts stats) \<and> unat (rs_attempts stats) \<le> max 1 (unat m)"
proof -
  from run_stop_limit [OF assms, of dbg x] obtain res stats w x' where
    h: "run dbg r x = Some (Inr ((res, stats), w), x')" "unat (rs_attempts stats) \<le> max 1 (unat m)"
    by blast
  with run_reports_attempt [OF h(1)] show ?thesis by blast
qed

theorem bounded_run_terminates_witness:
  "\<exists>res stats w x'.
     run True (sample_retry (\<lambda>n. Err n) (StopAny StopNever (StopAfterAttempts 4))) virtual_clock_new =
       Some (Inr ((res, stats), w), x') \<and> 1 \<le> unat (rs_attempts stats) \<and> unat (rs_attempts stats) \<le> 4"
proof -
  have "stop_limit (rt_stop (sample_retry (\<lambda>n. Err n) (StopAny StopNever (StopAfterAttempts 4)))) = Some 4"
    by simp
  from bounded_run_terminates [OF this, of True virtual_clock_new] show ?thesis by simp
qed

text \<open>Whatever ends a run, its result is the verdict on an outcome of the operation.\<close>

lemma run_result_verdict:
  assumes "run dbg r x = Some (e, x')"
  shows "\<exists>st y0 oc y1 stats w. oc = fst (run_state (call_op (rt_op r) st) y0)
     \<and> e = Inr ((verdict_result (fst (run_state (rt_classifier r oc) y1)), stats), w)"
proof -
  obtain origin x0 where now: "run_state (ck_now (rt_clock r)) x = (origin, x0)" by fastforce
  show ?thesis
  proof (rule run_rule [OF assms now, where I = "\<lambda>_ _. True"])
    fix v y e y'
    assume ok: "vars_ok r v" and body: "run_state (run_body dbg r origin v) y = (Inr e, y')"
    show "\<exists>st y0 oc y1 stats w. oc = fst (run_state (call_op (rt_op r) st) y0)
       \<and> e = Inr ((verdict_result (fst (run_state (rt_classifier r oc) y1)), stats), w)"
    proof (rule run_body_verdict [OF body ok], goal_cases)
      case (1 e0 y0 oc ee y1 y2)
      then have "\<exists>stats. e = Inr ((verdict_result (fst (run_state (rt_classifier r oc) y1)), stats), lv_wait v)"
        by (simp split: if_split_asm) blast
      with 1 show ?case by blast
    qed
  qed simp_all
qed

text \<open>
  C34: a run of an operation that polls with \<open>Option\<close> never aborts: it returns a value the
  operation produced, or it is exhausted with \<open>None\<close> as its last outcome. The uninhabited
  abort arm of the error's \<open>Display\<close> is never reached.
\<close>

theorem option_run_never_aborts:
  assumes "rt_classifier r = default_decide classify_option"
    and "run dbg r x = Some (e, x')"
  shows "\<exists>res stats w. e = Inr ((res, stats), w)
     \<and> (case res of
          Ok v \<Rightarrow> \<exists>st y. fst (run_state (call_op (rt_op r) st) y) = Some v
        | Err err \<Rightarrow> error_last err = Some None
            \<and> display_option_error err = Some ''retries exhausted'')"
proof -
  obtain st y0 oc y1 stats w where oc: "oc = fst (run_state (call_op (rt_op r) st) y0)"
      and e: "e = Inr ((verdict_result (fst (run_state (rt_classifier r oc) y1)), stats), w)"
    using run_result_verdict [OF assms(2)] by blast
  show ?thesis
    using oc [symmetric]
    by (cases oc) (auto simp: e assms(1) default_decide_def verdict_result_def classify_option_def)
qed

definition polling_option ::
    "(nat \<Rightarrow> nat option) \<Rightarrow> virtual_clock stop_strategy \<Rightarrow>
     (virtual_clock, nat option, nat, unit) sync_retry" where
  "polling_option f stop =
     set_clock (from_parts () (OpFn (\<lambda>st. State_Monad.return (f (unat (st_attempt st)))))
       (default_decide classify_option) stop (fixed (from_millis 10)) None) virtual_sync_clock"

lemma polling_option_simps [simp]:
  "rt_stop (polling_option f s) = s"
  "rt_classifier (polling_option f s) = default_decide classify_option"
  "rt_op (polling_option f s) = OpFn (\<lambda>st. State_Monad.return (f (unat (st_attempt st))))"
  by (simp_all add: polling_option_def builder_defs)

theorem option_run_never_aborts_witness:
  "\<exists>res stats w x'.
     run True (polling_option (\<lambda>n. if n = 2 then Some n else None) (StopAfterAttempts 3))
       virtual_clock_new = Some (Inr ((res, stats), w), x')
     \<and> (case res of
          Ok v \<Rightarrow> v = 2
        | Err err \<Rightarrow> error_last err = Some None
            \<and> display_option_error err = Some ''retries exhausted'')"
proof -
  let ?r = "polling_option (\<lambda>n. if n = 2 then Some n else None) (StopAfterAttempts 3)"
  have "stop_limit (rt_stop ?r) = Some 3" by simp
  from run_stop_limit [OF this, of True virtual_clock_new] obtain e x' where
    run: "run True ?r virtual_clock_new = Some (e, x')" by blast
  have "rt_classifier ?r = default_decide classify_option" by simp
  from option_run_never_aborts [OF this run] obtain res stats w where
    e: "e = Inr ((res, stats), w)"
    and res: "case res of
        Ok v \<Rightarrow> \<exists>st y. fst (run_state (call_op (rt_op ?r) st) y) = Some v
      | Err err \<Rightarrow> error_last err = Some None
          \<and> display_option_error err = Some ''retries exhausted''" by blast
  have "case res of
      Ok v \<Rightarrow> v = 2
    | Err err \<Rightarrow> error_last err = Some None
        \<and> display_option_error err = Some ''retries exhausted''"
    using res by (cases res) (auto split: if_splits)
  with run e show ?thesis by blast
qed

text \<open>
  What can still end a run when every outcome is retried: a timeout or a stop strategy that
  fires at an elapsed time its clock can report. SPEC 11.2 names the clock for which none can.
\<close>

definition can_expire :: "('x, 'o, 'r, 'a) sync_retry \<Rightarrow> duration \<Rightarrow> bool" where
  "can_expire r origin \<longleftrightarrow>
     (\<exists>y. let e = saturating_sub (fst (run_state (ck_now (rt_clock r)) y)) origin
          in timed_out (rt_timeout r) e
           \<or> (\<exists>st z. st_elapsed st = e \<and> fst (run_state (should_stop (rt_stop r) st) z)))"

definition frozen_clock :: "duration \<Rightarrow> 'x sync_clock" where
  "frozen_clock t = \<lparr>ck_now = State_Monad.return t, ck_wait = (\<lambda>_. State_Monad.return ())\<rparr>"

lemma nothing_ends_run:
  assumes "run_state (ck_now (rt_clock r)) x = (origin, x0)"
    and "\<not> can_expire r origin"
    and "\<forall>st y z. is_Retry (fst (run_state
           (rt_classifier r (fst (run_state (call_op (rt_op r) st) y))) z))"
  shows "run dbg r x = None"
  unfolding run_eq [OF assms(1)]
proof (rule state_loop_diverges [where I = "\<lambda>v _. vars_ok r v"])
  fix v y
  assume ok: "vars_ok r v"
  obtain out y' where body: "run_state (run_body dbg r origin v) y = (out, y')" by fastforce
  have "\<exists>v'. out = Inl v'"
    using assms(2,3) by (rule_tac run_body_verdict [OF body ok])
      (fastforce simp: can_expire_def Let_def split: if_splits)
  then show "\<exists>v' y'. run_state (run_body dbg r origin v) y = (Inl v', y') \<and> vars_ok r v'"
    using body vars_ok_next [OF ok] by blast
qed simp

text \<open>
  C17: when the classifier wants to retry every outcome the operation can have, and neither the
  timeout nor the stop strategy fires at an elapsed time the clock can report, a run never
  returns, and never panics either: not when the attempt counter reaches \<open>u32::MAX\<close>, not when
  the total wait does. This is the retry without a timeout and with a stop strategy that never
  fires, and also the hazard of SPEC 11.2: on a clock that stands still \<open>timeout\<close> and
  \<open>stop::elapsed\<close> do not bound the loop.
\<close>

theorem unbounded_run_diverges:
  assumes "run_state (ck_now (rt_clock r)) x = (origin, x0)"
    and "\<not> can_expire r origin"
    and "\<forall>st y z. is_Retry (fst (run_state
           (rt_classifier r (fst (run_state (call_op (rt_op r) st) y))) z))"
  shows "run dbg r x = None"
  by (rule nothing_ends_run [OF assms])

definition stuck_retry :: "(virtual_clock, (nat, nat) result, nat, nat) sync_retry" where
  "stuck_retry =
     set_timeout (set_clock (sample_retry (\<lambda>n. Err n) (StopAfterElapsed (from_millis 10)))
       (frozen_clock (from_millis 3))) (from_millis 25)"

theorem unbounded_run_diverges_witness:
  "run True (sample_retry (\<lambda>n. Err n) never) virtual_clock_new = None
   \<and> run True stuck_retry virtual_clock_new = None"
proof -
  have "\<not> can_expire (sample_retry (\<lambda>n. Err n) never) duration_zero"
    by (simp add: never_def can_expire_def timed_out_def)
  moreover have "\<not> can_expire stuck_retry (from_millis 3)"
    by (auto simp: can_expire_def Let_def stuck_retry_def set_timeout_def set_clock_def
        frozen_clock_def timed_out_def dur_simps)
  ultimately show ?thesis
    using unbounded_run_diverges [of "sample_retry (\<lambda>n. Err n) never" virtual_clock_new
        duration_zero virtual_clock_new True]
      unbounded_run_diverges [of stuck_retry virtual_clock_new "from_millis 3" virtual_clock_new True]
    by (simp add: stuck_retry_def set_timeout_def set_clock_def frozen_clock_def default_decide_def
        classify_result_def virtual_clock_new_def)
qed

text \<open>
  A zero timeout permits exactly one attempt, whatever the stop strategy, the clock and
  the classifier.
\<close>

theorem zero_timeout_is_one_attempt:
  assumes "rt_timeout r = Some duration_zero"
  shows "\<exists>res stats w x'. run dbg r x = Some (Inr ((res, stats), w), x') \<and> rs_attempts stats = 1"
proof -
  obtain origin x0 where now: "run_state (ck_now (rt_clock r)) x = (origin, x0)" by fastforce
  have "\<exists>e x'. run dbg r x = Some (e, x') \<and>
      (\<exists>res stats w. e = Inr ((res, stats), w) \<and> rs_attempts stats = 1)"
  proof (rule run_total_rule [OF now, where I = "\<lambda>v _. lv_attempt v = 1" and m = "\<lambda>_ _. 0"])
    fix v y v' y'
    assume ok: "vars_ok r v" and body: "run_state (run_body dbg r origin v) y = (Inl v', y')"
    show "lv_attempt v' = 1 \<and> (0 :: nat) < 0"
      by (rule run_body_next [OF body ok]) (simp add: assms timed_out_def)
  next
    fix v y e y'
    assume I: "lv_attempt v = 1" and ok: "vars_ok r v"
      and body: "run_state (run_body dbg r origin v) y = (Inr e, y')"
    show "\<exists>res stats w. e = Inr ((res, stats), w) \<and> rs_attempts stats = 1"
      using I by (rule_tac run_body_exit [OF body ok]) auto
  qed simp
  then show ?thesis by blast
qed

theorem zero_timeout_is_one_attempt_witness:
  "\<exists>res stats w x'.
     run True (set_timeout (sample_retry (\<lambda>n. Err n) never) duration_zero) virtual_clock_new =
       Some (Inr ((res, stats), w), x') \<and> rs_attempts stats = 1"
  by (rule zero_timeout_is_one_attempt) (simp add: set_timeout_def)

subsection \<open>What a retry with an attempt bound returns\<close>

text \<open>
  The specification: classify the outcomes in order; the first that is not retried decides,
  and if none of the first \<open>m - 1\<close> is, the \<open>m\<close>-th does, whatever its verdict.
\<close>

definition spec_run :: "nat \<Rightarrow> (nat \<Rightarrow> ('r, 'a, 'o) verdict) \<Rightarrow>
    ('r, ('a, 'o) retry_error) result \<times> nat" where
  "spec_run m vf =
     (let n = (case find (\<lambda>n. \<not> is_Retry (vf n)) [1..<m] of Some n \<Rightarrow> n | None \<Rightarrow> m)
      in (verdict_result (vf n), n))"

lemma find_append:
  "find P (xs @ ys) = (case find P xs of None \<Rightarrow> find P ys | Some z \<Rightarrow> Some z)"
  by (induction xs) simp_all

lemma spec_run_eq:
  assumes "1 \<le> n" and "n \<le> m" and "\<forall>i. 1 \<le> i \<longrightarrow> i < n \<longrightarrow> is_Retry (vf i)"
    and "n = m \<or> \<not> is_Retry (vf n)"
  shows "spec_run m vf = (verdict_result (vf n), n)"
proof -
  have "[1..<m] = [1..<n] @ [n..<m]" using assms(1,2) by (metis upt_add_eq_append le_add_diff_inverse)
  moreover have "find (\<lambda>n. \<not> is_Retry (vf n)) [1..<n] = None"
    using assms(3) by (simp add: find_None_iff)
  ultimately have "find (\<lambda>n. \<not> is_Retry (vf n)) [1..<m] = find (\<lambda>n. \<not> is_Retry (vf n)) [n..<m]"
    by (simp add: find_append)
  then show ?thesis
    using assms(2,4) by (cases "n = m") (auto simp: spec_run_def Let_def upt_rec [of n m])
qed

text \<open>The loop before attempt \<open>n\<close>: all earlier outcomes were to be retried, and \<open>n\<close> is in range.\<close>

definition spec_inv :: "u32 \<Rightarrow> (nat \<Rightarrow> ('r, 'a, 'o) verdict) \<Rightarrow> 'x loop_vars \<Rightarrow> bool" where
  "spec_inv m vf v \<longleftrightarrow> unat (lv_attempt v) \<le> unat m
     \<and> (\<forall>i. 1 \<le> i \<longrightarrow> i < unat (lv_attempt v) \<longrightarrow> is_Retry (vf i))"

lemma spec_inv_next:
  assumes stop: "rt_stop r = StopAfterAttempts m"
    and oper: "\<forall>st y. fst (run_state (call_op (rt_op r) st) y) = f (unat (st_attempt st))"
    and classify: "\<forall>oc y. fst (run_state (rt_classifier r oc) y) = vf oc"
    and I: "spec_inv m (vf \<circ> f) v" and ok: "vars_ok r v"
    and body: "run_state (run_body dbg r origin v) y = (Inl v', y')"
  shows "spec_inv m (vf \<circ> f) v' \<and> unat m - unat (lv_attempt v') < unat m - unat (lv_attempt v)"
proof (rule run_body_verdict [OF body ok])
  fix e0 y0 oc e y1 y2
  assume "oc = fst (run_state (call_op (rt_op r) (attempt_state_of v e0)) y0)"
    and h: "if is_Retry (fst (run_state (rt_classifier r oc) y1))
      \<and> \<not> fst (run_state (should_stop (rt_stop r) (attempt_state_of v e)) y2)
      \<and> \<not> timed_out (rt_timeout r) e
     then \<exists>d w. Inl v' = Inl (loop_next v (clamp_delay (rt_timeout r) e d) w)
     else \<exists>stats. Inl v' = Inr (Inr ((verdict_result (fst (run_state (rt_classifier r oc) y1)), stats),
              lv_wait v)) \<and> rs_attempts stats = lv_attempt v"
  then have oc: "oc = f (unat (lv_attempt v))" by (simp add: oper)
  have lt: "lv_attempt v < m" and rt: "is_Retry (vf oc)"
    using h by (auto simp: classify stop not_le split: if_splits)
  have att: "lv_attempt v' = u32_saturating_add (lv_attempt v) 1"
    using h by (auto split: if_splits)
  have nx: "unat (lv_attempt v') = Suc (unat (lv_attempt v))"
    unfolding att by (rule unat_next_attempt [OF lt])
  have "unat (lv_attempt v) < unat m" using lt by (simp add: word_less_nat_alt)
  then show ?thesis using I rt by (auto simp: spec_inv_def nx less_Suc_eq oc)
qed

lemma spec_inv_exit:
  assumes stop: "rt_stop r = StopAfterAttempts m" and timeout: "rt_timeout r = None"
    and oper: "\<forall>st y. fst (run_state (call_op (rt_op r) st) y) = f (unat (st_attempt st))"
    and classify: "\<forall>oc y. fst (run_state (rt_classifier r oc) y) = vf oc"
    and I: "spec_inv m (vf \<circ> f) v" and ok: "vars_ok r v"
    and body: "run_state (run_body dbg r origin v) y = (Inr e, y')"
  shows "\<exists>stats w. e = Inr ((fst (spec_run (unat m) (vf \<circ> f)), stats), w)
     \<and> unat (rs_attempts stats) = snd (spec_run (unat m) (vf \<circ> f))"
proof (rule run_body_verdict [OF body ok])
  fix e0 y0 oc el y1 y2
  assume "oc = fst (run_state (call_op (rt_op r) (attempt_state_of v e0)) y0)"
    and h: "if is_Retry (fst (run_state (rt_classifier r oc) y1))
      \<and> \<not> fst (run_state (should_stop (rt_stop r) (attempt_state_of v el)) y2)
      \<and> \<not> timed_out (rt_timeout r) el
     then \<exists>d w. Inr e = Inl (loop_next v (clamp_delay (rt_timeout r) el d) w)
     else \<exists>stats. Inr e = Inr (Inr ((verdict_result (fst (run_state (rt_classifier r oc) y1)), stats),
              lv_wait v)) \<and> rs_attempts stats = lv_attempt v"
  then have oc: "oc = f (unat (lv_attempt v))" by (simp add: oper)
  have nr: "unat (lv_attempt v) = unat m \<or> \<not> is_Retry (vf oc)"
    using h I
    by (auto simp: spec_inv_def classify stop timeout timed_out_def word_le_nat_alt split: if_splits)
  have "1 \<le> unat (lv_attempt v)" using ok by (simp add: vars_ok_def unat_gt_0 Suc_le_eq)
  then have "spec_run (unat m) (vf \<circ> f) = (verdict_result (vf oc), unat (lv_attempt v))"
    using I nr by (subst spec_run_eq [of "unat (lv_attempt v)"]) (auto simp: spec_inv_def oc)
  then show ?thesis using h by (auto simp: classify split: if_splits)
qed

lemma run_meets_spec:
  assumes stop: "rt_stop r = StopAfterAttempts m" and m: "m \<noteq> 0" and timeout: "rt_timeout r = None"
    and oper: "\<forall>st y. fst (run_state (call_op (rt_op r) st) y) = f (unat (st_attempt st))"
    and classify: "\<forall>oc y. fst (run_state (rt_classifier r oc) y) = vf oc"
  shows "\<exists>stats w x'. run dbg r x = Some (Inr ((fst (spec_run (unat m) (vf \<circ> f)), stats), w), x')
     \<and> unat (rs_attempts stats) = snd (spec_run (unat m) (vf \<circ> f))"
proof -
  let ?Q = "\<lambda>e. \<exists>stats w. e = Inr ((fst (spec_run (unat m) (vf \<circ> f)), stats), w)
     \<and> unat (rs_attempts stats) = snd (spec_run (unat m) (vf \<circ> f))"
  obtain origin x0 where now: "run_state (ck_now (rt_clock r)) x = (origin, x0)" by fastforce
  have "\<exists>e x'. run dbg r x = Some (e, x') \<and> ?Q e"
  proof (rule run_total_rule [OF now, where I = "\<lambda>v _. spec_inv m (vf \<circ> f) v"
        and m = "\<lambda>v _. unat m - unat (lv_attempt v)"])
    show "spec_inv m (vf \<circ> f) (loop_start r)"
      using m by (simp add: spec_inv_def unat_gt_0 Suc_le_eq)
  qed (rule spec_inv_next [OF stop oper classify], assumption+,
      rule spec_inv_exit [OF stop timeout oper classify], assumption+)
  then show ?thesis by blast
qed

text \<open>
  C2: a retry of at most \<open>m\<close> attempts without a timeout, whose outcomes depend on the attempt number
  alone and whose classifier is a function, returns exactly what the specification says, after exactly that many attempts, for every clock, every wait strategy
  and every hook.
\<close>

theorem run_refines_spec:
  assumes stop: "rt_stop r = StopAfterAttempts m" and m: "m \<noteq> 0" and timeout: "rt_timeout r = None"
    and oper: "\<forall>st y. fst (run_state (call_op (rt_op r) st) y) = f (unat (st_attempt st))"
    and classify: "\<forall>oc y. fst (run_state (rt_classifier r oc) y) = vf oc"
  shows "\<exists>stats w x'. run dbg r x = Some (Inr ((fst (spec_run (unat m) (vf \<circ> f)), stats), w), x')
     \<and> unat (rs_attempts stats) = snd (spec_run (unat m) (vf \<circ> f))"
  by (rule run_meets_spec [OF assms])

theorem run_refines_spec_witness:
  "\<exists>stats w x'.
     run True (sample_retry (\<lambda>n. if n < 3 then Err n else Ok 7) (StopAfterAttempts 5)) virtual_clock_new =
       Some (Inr ((Ok 7, stats), w), x') \<and> unat (rs_attempts stats) = 3"
proof -
  let ?f = "\<lambda>n :: nat. if n < 3 then Err n else Ok 7 :: (nat, nat) result"
  have "spec_run (unat (5 :: u32)) (classify_result \<circ> ?f) = (Ok 7, 3)"
    by (simp add: spec_run_def classify_result_def verdict_result_def upt_rec)
  then show ?thesis
    using run_refines_spec [of "sample_retry ?f (StopAfterAttempts 5)" 5 ?f classify_result True
        virtual_clock_new]
    by (simp add: default_decide_def)
qed

text \<open>
  \<open>(|| op()).retry()\<close> behaves as \<open>retry(|_| op())\<close>, however the builder is configured:
  same result, same statistics, same effects.
\<close>

theorem stateless_op_is_ignored_state:
  "run dbg (r\<lparr>rt_op := StatelessOp f\<rparr>) = run dbg (r\<lparr>rt_op := OpFn (\<lambda>_. f)\<rparr>)"
proof -
  have sel: "rt_clock (r\<lparr>rt_op := oper\<rparr>) = rt_clock r" "rt_hooks (r\<lparr>rt_op := oper\<rparr>) = rt_hooks r"
      "rt_classifier (r\<lparr>rt_op := oper\<rparr>) = rt_classifier r" "rt_stop (r\<lparr>rt_op := oper\<rparr>) = rt_stop r"
      "rt_timeout (r\<lparr>rt_op := oper\<rparr>) = rt_timeout r" "rt_op (r\<lparr>rt_op := oper\<rparr>) = oper" for oper
    by simp_all
  have "run_body dbg (r\<lparr>rt_op := StatelessOp f\<rparr>) o' v = run_body dbg (r\<lparr>rt_op := OpFn (\<lambda>_. f)\<rparr>) o' v"
    for o' v
    unfolding run_body_def sel call_op.simps ..
  then have "run_body dbg (r\<lparr>rt_op := StatelessOp f\<rparr>) = run_body dbg (r\<lparr>rt_op := OpFn (\<lambda>_. f)\<rparr>)"
    by (intro ext)
  then show ?thesis by (intro ext) (simp add: run_def)
qed

end
