(* ===== verification/World_Lift.thy ===== *)
theory World_Lift
  imports Engine_Sync
begin

text \<open>
  Running a user's computations in a larger world: \<open>get\<close> reads the user's part of it and
  \<open>put\<close> writes it back. This is how a retry over an arbitrary world is given a clock or a log
  of its own that the user's callbacks cannot touch, and it is what the interfaces of the
  engine theories are interpreted with.
\<close>

definition lift_state :: "('x \<Rightarrow> 'y) \<Rightarrow> ('y \<Rightarrow> 'x \<Rightarrow> 'x) \<Rightarrow> ('y, 'a) state \<Rightarrow> ('x, 'a) state" where
  "lift_state get put m = State (\<lambda>x. let (a, y) = run_state m (get x) in (a, put y x))"

lemma run_lift_state:
  "run_state (lift_state get put m) x =
     (fst (run_state m (get x)), put (snd (run_state m (get x))) x)"
  by (simp add: lift_state_def case_prod_beta)

primrec lift_stop :: "('x \<Rightarrow> 'y) \<Rightarrow> ('y \<Rightarrow> 'x \<Rightarrow> 'x) \<Rightarrow> 'y stop_strategy \<Rightarrow> 'x stop_strategy" where
  "lift_stop get put (StopAfterAttempts m) = StopAfterAttempts m"
| "lift_stop get put (StopAfterElapsed d) = StopAfterElapsed d"
| "lift_stop get put StopNever = StopNever"
| "lift_stop get put (StopAny l r) = StopAny (lift_stop get put l) (lift_stop get put r)"
| "lift_stop get put (StopAll l r) = StopAll (lift_stop get put l) (lift_stop get put r)"
| "lift_stop get put (StopRef s) = StopRef (lift_stop get put s)"
| "lift_stop get put (StopCustom f) = StopCustom (\<lambda>st. lift_state get put (f st))"

primrec lift_wait :: "('x \<Rightarrow> 'y) \<Rightarrow> ('y \<Rightarrow> 'x \<Rightarrow> 'x) \<Rightarrow> 'y wait_strategy \<Rightarrow> 'x wait_strategy" where
  "lift_wait get put (WaitFixed d) = WaitFixed d"
| "lift_wait get put (WaitLinear i k) = WaitLinear i k"
| "lift_wait get put (WaitExponential i b) = WaitExponential i b"
| "lift_wait get put (WaitCapped w b) = WaitCapped (lift_wait get put w) b"
| "lift_wait get put (WaitCombine l r) = WaitCombine (lift_wait get put l) (lift_wait get put r)"
| "lift_wait get put (WaitChain l r n) = WaitChain (lift_wait get put l) (lift_wait get put r) n"
| "lift_wait get put (Jittered w j) = Jittered (lift_wait get put w) j"
| "lift_wait get put (WaitRef w) = WaitRef (lift_wait get put w)"
| "lift_wait get put (WaitCustom f) = WaitCustom (\<lambda>st. lift_state get put (f st))"

primrec lift_op :: "('x \<Rightarrow> 'y) \<Rightarrow> ('y \<Rightarrow> 'x \<Rightarrow> 'x) \<Rightarrow> ('y, 'o) retry_op \<Rightarrow> ('x, 'o) retry_op" where
  "lift_op get put (OpFn f) = OpFn (\<lambda>st. lift_state get put (f st))"
| "lift_op get put (StatelessOp f) = StatelessOp (lift_state get put f)"

primrec lift_hook :: "('x \<Rightarrow> 'y) \<Rightarrow> ('y \<Rightarrow> 'x \<Rightarrow> 'x) \<Rightarrow> ('y, 'v) hook \<Rightarrow> ('x, 'v) hook" where
  "lift_hook get put HookUnit = HookUnit"
| "lift_hook get put (HookFn f) = HookFn (\<lambda>v. lift_state get put (f v))"
| "lift_hook get put (HookChain h k) = HookChain (lift_hook get put h) (lift_hook get put k)"

definition lift_clock :: "('x \<Rightarrow> 'y) \<Rightarrow> ('y \<Rightarrow> 'x \<Rightarrow> 'x) \<Rightarrow> 'y sync_clock \<Rightarrow> 'x sync_clock" where
  "lift_clock get put c =
     \<lparr>ck_now = lift_state get put (ck_now c), ck_wait = (\<lambda>d. lift_state get put (ck_wait c d))\<rparr>"

definition lift_retry ::
    "('x \<Rightarrow> 'y) \<Rightarrow> ('y \<Rightarrow> 'x \<Rightarrow> 'x) \<Rightarrow> ('y, 'o, 'r, 'a) sync_retry \<Rightarrow> ('x, 'o, 'r, 'a) sync_retry" where
  "lift_retry get put r =
     \<lparr>rt_op = lift_op get put (rt_op r),
      rt_classifier = (\<lambda>oc. lift_state get put (rt_classifier r oc)),
      rt_stop = lift_stop get put (rt_stop r), rt_wait = lift_wait get put (rt_wait r),
      rt_clock = lift_clock get put (rt_clock r),
      rt_hooks = \<lparr>hk_before_attempt = lift_hook get put (hk_before_attempt (rt_hooks r)),
        hk_after_attempt = lift_hook get put (hk_after_attempt (rt_hooks r)),
        hk_on_exit = lift_hook get put (hk_on_exit (rt_hooks r))\<rparr>,
      rt_timeout = rt_timeout r\<rparr>"

subsection \<open>Lifted computations stay in their part of the world\<close>

lemma keeps_lift: "(\<And>x y. R x (put y x)) \<Longrightarrow> keeps R (lift_state get put m)"
  by (auto simp: run_lift_state)

lemma lift_stop_customs:
  "stop_customs (lift_stop get put s) = map (\<lambda>f st. lift_state get put (f st)) (stop_customs s)"
  by (induction s) simp_all

lemma lift_wait_customs:
  "wait_customs (lift_wait get put w) = map (\<lambda>f st. lift_state get put (f st)) (wait_customs w)"
  by (induction w) simp_all

lemma lift_op_keeps: "(\<And>x y. R x (put y x)) \<Longrightarrow> keeps R (call_op (lift_op get put oper) st)"
  by (cases oper) (simp_all add: keeps_lift)

lemma lift_hook_keeps:
  "reflp R \<Longrightarrow> transp R \<Longrightarrow> (\<And>x y. R x (put y x)) \<Longrightarrow> R x (hook_world (lift_hook get put h) v x)"
  by (induction h arbitrary: x)
    (auto simp: run_lift_state reflp_def dest: transpD)

lemma lift_retry_simps [simp]:
  "rt_op (lift_retry get put r) = lift_op get put (rt_op r)"
  "rt_classifier (lift_retry get put r) oc = lift_state get put (rt_classifier r oc)"
  "rt_stop (lift_retry get put r) = lift_stop get put (rt_stop r)"
  "rt_wait (lift_retry get put r) = lift_wait get put (rt_wait r)"
  "rt_clock (lift_retry get put r) = lift_clock get put (rt_clock r)"
  "rt_timeout (lift_retry get put r) = rt_timeout r"
  "hk_before_attempt (rt_hooks (lift_retry get put r)) =
     lift_hook get put (hk_before_attempt (rt_hooks r))"
  "hk_after_attempt (rt_hooks (lift_retry get put r)) =
     lift_hook get put (hk_after_attempt (rt_hooks r))"
  "hk_on_exit (rt_hooks (lift_retry get put r)) = lift_hook get put (hk_on_exit (rt_hooks r))"
  "ck_now (lift_clock get put c) = lift_state get put (ck_now c)"
  "ck_wait (lift_clock get put c) d = lift_state get put (ck_wait c d)"
  by (simp_all add: lift_retry_def lift_clock_def)

lemma lift_stop_keeps: "(\<And>x y. R x (put y x)) \<Longrightarrow> stop_keeps R (lift_stop get put s)"
  by (auto simp: stop_keeps_def lift_stop_customs intro!: keeps_lift)

lemma lift_wait_keeps: "(\<And>x y. R x (put y x)) \<Longrightarrow> wait_keeps R (lift_wait get put w)"
  by (auto simp: wait_keeps_def lift_wait_customs intro!: keeps_lift)

end
