(* ===== verification/Engine_Trace.thy ===== *)
theory Engine_Trace
  imports Engine_Run World_Lift
begin

text \<open>
  The order in which an observer sees a run: \<open>before_attempt\<close> and \<open>after_attempt\<close> in turn,
  once per attempt and numbered, then \<open>on_exit\<close> once and last.
\<close>

datatype ('r, 'a, 'o) event =
    EvBefore retry_state
  | EvAfter "'o attempt_state"
  | EvExit "('r, 'a, 'o) exit"

definition attempt_events ::
    "(retry_state \<times> 'o attempt_state) list \<Rightarrow> ('r, 'a, 'o) event list" where
  "attempt_events ps = concat (map (\<lambda>(b, a). [EvBefore b, EvAfter a]) ps)"

text \<open>Attempt \<open>i\<close> carries the number \<open>i\<close>, up to the largest \<open>u32\<close>, in both of its events.\<close>

definition numbered :: "(retry_state \<times> 'o attempt_state) list \<Rightarrow> bool" where
  "numbered ps \<longleftrightarrow> (\<forall>i < length ps. unat (st_attempt (fst (ps ! i))) = min (Suc i) 4294967295
     \<and> as_attempt (snd (ps ! i)) = st_attempt (fst (ps ! i)))"

definition delays_seen :: "(retry_state \<times> 'o attempt_state) list \<Rightarrow> duration option list" where
  "delays_seen ps = map (\<lambda>(b, a). st_previous_delay b) ps"

lemma attempt_events_simps [simp]:
  "attempt_events [] = []"
  "attempt_events (ps @ [(b, a)]) = attempt_events ps @ [EvBefore b, EvAfter a]"
  by (simp_all add: attempt_events_def)

lemma delays_seen_simps [simp]:
  "delays_seen [] = []" "delays_seen (ps @ [(b, a)]) = delays_seen ps @ [st_previous_delay b]"
  by (simp_all add: delays_seen_def)

lemma numbered_Nil [simp]: "numbered []"
  by (simp add: numbered_def)

lemma numbered_snoc:
  "numbered ps \<Longrightarrow> unat (st_attempt b) = min (Suc (length ps)) 4294967295 \<Longrightarrow>
   as_attempt a = st_attempt b \<Longrightarrow> numbered (ps @ [(b, a)])"
  by (auto simp: numbered_def nth_append less_Suc_eq)

text \<open>
  What the events of a run that ends with \<open>res\<close> and \<open>stats\<close> look like: the attempts, numbered
  from one, each reporting the delay slept before it (none before the first), and one exit
  event last, which agrees with what the caller receives. The statistics count the attempts,
  give the elapsed time of the last one, and sum the delays.
\<close>

definition follows_protocol ::
    "('r, 'a, 'o) event list \<Rightarrow> ('r, ('a, 'o) retry_error) result \<Rightarrow> retry_stats \<Rightarrow> bool" where
  "follows_protocol evs res stats \<longleftrightarrow>
     (\<exists>ps ds ev. evs = attempt_events ps @ [EvExit ev] \<and> ps \<noteq> [] \<and> numbered ps
        \<and> delays_seen ps = None # map Some ds
        \<and> rs_total_wait stats = foldl saturating_add duration_zero ds
        \<and> rs_attempts stats = as_attempt (snd (last ps))
        \<and> rs_total_elapsed stats = as_elapsed (snd (last ps)) \<and> exit_agrees ev res stats)"

subsection \<open>The interface: a log that only the hooks write\<close>

locale hook_log =
  fixes r :: "('x, 'o, 'r, 'a) sync_retry" and log :: "'x \<Rightarrow> ('r, 'a, 'o) event list"
  assumes before: "log (hook_world (hk_before_attempt (rt_hooks r)) b x) = log x @ [EvBefore b]"
    and after: "log (hook_world (hk_after_attempt (rt_hooks r)) a x) = log x @ [EvAfter a]"
    and exit: "log (hook_world (hk_on_exit (rt_hooks r)) ev x) = log x @ [EvExit ev]"
    and oper: "keeps (\<lambda>x y. log y = log x) (call_op (rt_op r) st)"
    and observers: "observers_keep (\<lambda>x y. log y = log x) r"
    and now: "keeps (\<lambda>x y. log y = log x) (ck_now (rt_clock r))"
    and waiting: "keeps (\<lambda>x y. log y = log x) (ck_wait (rt_clock r) d)"
begin

text \<open>What one iteration adds to the log.\<close>

lemma body_log:
  assumes body: "run_state (run_body dbg r origin v) x = (out, x')" and ok: "vars_ok r v"
  obtains b a where "st_attempt b = lv_attempt v" and "as_attempt a = lv_attempt v"
    and "st_previous_delay b = lv_previous_delay v"
    and "(\<exists>res stats ev. out = Inr (Inr ((res, stats), lv_wait v))
           \<and> log x' = log x @ [EvBefore b, EvAfter a, EvExit ev] \<and> exit_agrees ev res stats
           \<and> stats = stats_for (progress_of v (as_elapsed a)) (rs_stop_reason stats))
         \<or> (\<exists>delay w. out = Inl (loop_next v delay w) \<and> log x' = log x @ [EvBefore b, EvAfter a])"
proof -
  have ok': "lv_attempt v \<noteq> 0" "wait_config (lv_wait v) = wait_config (rt_wait r)"
    using ok by (simp_all add: vars_ok_def)
  show thesis
  proof (rule run_body_cases [OF body ok'(1) observers ok'(2)])
    fix t1 x1 oc x3 t2 x4 bs e y
    assume w1: "run_state (ck_now (rt_clock r)) x = (t1, x1)"
      and bs: "bs = attempt_state_of v (saturating_sub t1 origin)"
      and w3: "run_state (call_op (rt_op r) bs) (hook_world (hk_before_attempt (rt_hooks r)) bs x1) = (oc, x3)"
      and w4: "run_state (ck_now (rt_clock r)) x3 = (t2, x4)"
      and y: "y = hook_world (hk_after_attempt (rt_hooks r))
         \<lparr>as_attempt = lv_attempt v, as_elapsed = e, as_outcome = oc\<rparr> x4"
      and out: "body_ends (\<lambda>x y. log y = log x) r v e y out x'
        \<or> body_goes_on (\<lambda>x y. log y = log x) r v e y out x'"
    let ?a = "\<lparr>as_attempt = lv_attempt v, as_elapsed = e, as_outcome = oc\<rparr>"
    have "log x4 = log x @ [EvBefore bs]"
      using keepsD [OF now w1] keepsD [OF oper w3] keepsD [OF now w4] by (simp add: before)
    then have l: "log y = log x @ [EvBefore bs, EvAfter ?a]" by (simp add: y after)
    have sleep: "log (sleep_world (rt_clock r) delay y) = log y" for delay y
      using waiting [of delay] by (auto simp: sleep_world_def keeps_def)
    show thesis
    proof (rule that [of bs ?a])
      show "(\<exists>res stats ev. out = Inr (Inr ((res, stats), lv_wait v))
           \<and> log x' = log x @ [EvBefore bs, EvAfter ?a, EvExit ev] \<and> exit_agrees ev res stats
           \<and> stats = stats_for (progress_of v (as_elapsed ?a)) (rs_stop_reason stats))
         \<or> (\<exists>delay w. out = Inl (loop_next v delay w) \<and> log x' = log x @ [EvBefore bs, EvAfter ?a])"
        using out unfolding body_leaves_defs by (elim disjE exE conjE) (simp_all add: l exit sleep, blast)
    qed (simp_all add: bs)
  qed
qed

text \<open>The protocol, as an invariant of the loop and its consequence for a whole run.\<close>

definition log_inv where
  "log_inv L v y \<longleftrightarrow> (\<exists>ps ds. log y = L @ attempt_events ps \<and> numbered ps
     \<and> unat (lv_attempt v) = min (Suc (length ps)) 4294967295
     \<and> delays_seen ps @ [lv_previous_delay v] = None # map Some ds
     \<and> lv_total_wait v = foldl saturating_add duration_zero ds)"

lemma log_inv_next:
  assumes I: "log_inv L v y" and ok: "vars_ok r v"
    and body: "run_state (run_body dbg r origin v) y = (Inl v', y')"
  shows "log_inv L v' y'"
proof -
  obtain ps ds where ps: "log y = L @ attempt_events ps" "numbered ps"
      "unat (lv_attempt v) = min (Suc (length ps)) 4294967295"
      "delays_seen ps @ [lv_previous_delay v] = None # map Some ds"
      "lv_total_wait v = foldl saturating_add duration_zero ds"
    using I by (auto simp: log_inv_def)
  show ?thesis
  proof (rule body_log [OF body ok])
    fix b a
    assume ba: "st_attempt b = lv_attempt v" "as_attempt a = lv_attempt v"
        "st_previous_delay b = lv_previous_delay v"
      and out: "(\<exists>res stats ev. Inl v' = Inr (Inr ((res, stats), lv_wait v))
           \<and> log y' = log y @ [EvBefore b, EvAfter a, EvExit ev] \<and> exit_agrees ev res stats
           \<and> stats = stats_for (progress_of v (as_elapsed a)) (rs_stop_reason stats))
         \<or> (\<exists>delay w. Inl v' = Inl (loop_next v delay w) \<and> log y' = log y @ [EvBefore b, EvAfter a])"
    then obtain delay w where v': "v' = loop_next v delay w"
      and log': "log y' = log y @ [EvBefore b, EvAfter a]" by auto
    have "numbered (ps @ [(b, a)])" using ps ba by (intro numbered_snoc) simp_all
    moreover have "delays_seen (ps @ [(b, a)]) @ [lv_previous_delay v'] = None # map Some (ds @ [delay])"
      using ps(4) ba by (simp add: v')
    moreover have "unat (lv_attempt v') = min (Suc (length (ps @ [(b, a)]))) 4294967295"
      using ps(3) by (simp add: v' unat_u32_saturating_add)
    moreover have "log y' = L @ attempt_events (ps @ [(b, a)])" using ps(1) log' by simp
    moreover have "lv_total_wait v' = foldl saturating_add duration_zero (ds @ [delay])"
      using ps(5) by (simp add: v')
    ultimately show ?thesis unfolding log_inv_def by blast
  qed
qed

definition log_post where
  "log_post L e y \<longleftrightarrow> (\<exists>res stats w evs. e = Inr ((res, stats), w) \<and> log y = L @ evs
     \<and> follows_protocol evs res stats)"

lemma log_inv_exit:
  assumes I: "log_inv L v y" and ok: "vars_ok r v"
    and body: "run_state (run_body dbg r origin v) y = (Inr e, y')"
  shows "log_post L e y'"
proof -
  obtain ps ds where ps: "log y = L @ attempt_events ps" "numbered ps"
      "unat (lv_attempt v) = min (Suc (length ps)) 4294967295"
      "delays_seen ps @ [lv_previous_delay v] = None # map Some ds"
      "lv_total_wait v = foldl saturating_add duration_zero ds"
    using I by (auto simp: log_inv_def)
  show ?thesis
  proof (rule body_log [OF body ok])
    fix b a
    assume ba: "st_attempt b = lv_attempt v" "as_attempt a = lv_attempt v"
        "st_previous_delay b = lv_previous_delay v"
      and "(\<exists>res stats ev. Inr e = Inr (Inr ((res, stats), lv_wait v))
         \<and> log y' = log y @ [EvBefore b, EvAfter a, EvExit ev] \<and> exit_agrees ev res stats
         \<and> stats = stats_for (progress_of v (as_elapsed a)) (rs_stop_reason stats))
       \<or> (\<exists>delay w. Inr e = Inl (loop_next v delay w) \<and> log y' = log y @ [EvBefore b, EvAfter a])"
    then obtain res stats ev where out: "e = Inr ((res, stats), lv_wait v)"
        "log y' = log y @ [EvBefore b, EvAfter a, EvExit ev]" "exit_agrees ev res stats"
        "stats = stats_for (progress_of v (as_elapsed a)) (rs_stop_reason stats)" by auto
    then have st: "rs_attempts stats = lv_attempt v" "rs_total_elapsed stats = as_elapsed a"
        "rs_total_wait stats = lv_total_wait v"
      by (metis stats_for_def progress_of_simps(1,2,4) retry_stats.select_convs(1,2,3))+
    have "numbered (ps @ [(b, a)])" using ps ba by (intro numbered_snoc) simp_all
    then have "follows_protocol (attempt_events ps @ [EvBefore b, EvAfter a, EvExit ev]) res stats"
      unfolding follows_protocol_def using ps ba out(3) st
      by (intro exI [of _ "ps @ [(b, a)]"] exI [of _ ds] exI [of _ ev]) simp
    then show ?thesis using out(1,2) ps(1) by (auto simp: log_post_def)
  qed
qed

lemma run_log:
  assumes run: "run dbg r x = Some (e, x')"
  shows "log_post (log x) e x'"
proof -
  obtain origin x0 where now: "run_state (ck_now (rt_clock r)) x = (origin, x0)" by fastforce
  have L: "log x0 = log x" using keepsD [OF hook_log.now [OF hook_log_axioms] now] .
  show ?thesis
  proof (rule run_rule [OF run now, where I = "log_inv (log x)"])
    show "log_inv (log x) (loop_start r) x0"
      unfolding log_inv_def by (rule exI [of _ "[]"], rule exI [of _ "[]"]) (simp add: L)
  qed (fact log_inv_next, fact log_inv_exit)
qed

end

subsection \<open>Recording hooks on any retry\<close>

text \<open>
  Any retry, over a world with a log beside the user's, with one more hook at each point,
  registered last through the builder.
\<close>

definition log_event :: "'e \<Rightarrow> ('y \<times> 'e list, unit) state" where
  "log_event e = State (\<lambda>(y, l). ((), (y, l @ [e])))"

definition put_fst :: "'y \<Rightarrow> 'y \<times> 'l \<Rightarrow> 'y \<times> 'l" where
  "put_fst y x = (y, snd x)"

definition logged_retry ::
    "('y, 'o, 'r, 'a) sync_retry \<Rightarrow> ('y \<times> ('r, 'a, 'o) event list, 'o, 'r, 'a) sync_retry" where
  "logged_retry r =
     on_exit (after_attempt (before_attempt (lift_retry fst put_fst r)
       (\<lambda>b. log_event (EvBefore b))) (\<lambda>a. log_event (EvAfter a))) (\<lambda>ev. log_event (EvExit ev))"

lemma put_fst_keeps_snd [simp]: "snd (put_fst y x) = snd x"
  by (simp add: put_fst_def)

lemma log_event_snd [simp]: "snd (snd (run_state (log_event e) x)) = snd x @ [e]"
  by (simp add: log_event_def case_prod_beta)

lemma lift_hook_snd [simp]: "snd (hook_world (lift_hook fst put_fst h) v x) = snd x"
proof -
  have "reflp (\<lambda>x y. snd y = snd x)" "transp (\<lambda>x y. snd y = snd x)"
    by (auto simp: reflp_def transp_def)
  then show ?thesis by (rule lift_hook_keeps) simp
qed

interpretation logged: hook_log "logged_retry r" snd for r
proof unfold_locales
  show "observers_keep (\<lambda>x y. snd y = snd x) (logged_retry r)"
    by (auto simp: observers_keep_def logged_retry_def builder_defs reflp_def transp_def
        intro!: keeps_lift lift_stop_keeps lift_wait_keeps)
qed (auto simp: logged_retry_def builder_defs intro!: keeps_lift lift_op_keeps)

text \<open>
  C4: an observer of any run sees the hook protocol: \<open>before_attempt\<close> and \<open>after_attempt\<close> in
  turn for attempts numbered from one, each told the delay slept before it, then \<open>on_exit\<close>
  exactly once and last, with the result, the attempt count and the elapsed time the caller
  receives; the statistics' total wait is the sum of the delays the hooks were told.
\<close>

theorem hook_protocol:
  assumes "run dbg (logged_retry r) (y, l) = Some (e, (y', l'))"
  shows "\<exists>res stats w evs. e = Inr ((res, stats), w) \<and> l' = l @ evs \<and> follows_protocol evs res stats"
  using logged.run_log [OF assms] by (simp add: logged.log_post_def)

theorem hook_protocol_witness:
  "\<exists>res stats w y' evs.
     run True (logged_retry (sample_retry (\<lambda>n. Err n) (StopAfterAttempts 3))) (virtual_clock_new, []) =
       Some (Inr ((res, stats), w), (y', evs)) \<and> follows_protocol evs res stats"
proof -
  let ?r = "logged_retry (sample_retry (\<lambda>n. Err n) (StopAfterAttempts 3))"
  have "stop_limit (rt_stop ?r) = Some 3" by (simp add: logged_retry_def builder_defs)
  from run_stop_limit [OF this, of True "(virtual_clock_new, [])"] obtain e y' l' where
    h: "run True ?r (virtual_clock_new, []) = Some (e, (y', l'))" by (metis surj_pair)
  from hook_protocol [OF h] show ?thesis using h by auto
qed

end
