(* ===== verification/Engine_Time.thy ===== *)
theory Engine_Time
  imports Engine_Run World_Lift
begin

text \<open>
  Time in a run: with a lawful clock, and callbacks that do not turn it back, the waits are
  accounted for in the elapsed time, and a timeout bounds them and, with waits that are
  never zero, ends the run.
\<close>

locale timed_run = lawful_sync_clock "rt_clock r" time ready
  for r :: "('x, 'o, 'r, 'a) sync_retry" and time :: "'x \<Rightarrow> duration" and ready :: "'x \<Rightarrow> bool" +
  assumes before: "later x (hook_world (hk_before_attempt (rt_hooks r)) b x)"
    and after: "later x (hook_world (hk_after_attempt (rt_hooks r)) a x)"
    and exit: "later x (hook_world (hk_on_exit (rt_hooks r)) ev x)"
    and oper: "keeps later (call_op (rt_op r) st)"
    and observers: "observers_keep later r"
begin

lemma body_time:
  assumes body: "run_state (run_body dbg r origin v) x = (out, x')" and ok: "vars_ok r v"
    and ready: "ready x"
  obtains t where "time x \<le> t" and "ready x'" and
    "(\<exists>res stats. out = Inr (Inr ((res, stats), lv_wait v)) \<and> t \<le> time x'
        \<and> rs_total_elapsed stats = saturating_sub t origin \<and> rs_total_wait stats = lv_total_wait v)
     \<or> (\<exists>d w. out = Inl (loop_next v (clamp_delay (rt_timeout r) (saturating_sub t origin) d) w)
        \<and> \<not> timed_out (rt_timeout r) (saturating_sub t origin)
        \<and> wait_lower (rt_wait r) (attempt_state_of v (saturating_sub t origin)) \<le> d
        \<and> saturating_add t (clamp_delay (rt_timeout r) (saturating_sub t origin) d) \<le> time x'
        \<and> (\<exists>y. \<not> fst (run_state (should_stop (rt_stop r) (attempt_state_of v (saturating_sub t origin))) y)))"
proof -
  have ok': "lv_attempt v \<noteq> 0" "wait_config (lv_wait v) = wait_config (rt_wait r)"
    using ok by (simp_all add: vars_ok_def)
  have sleep: "ready y \<Longrightarrow> ready (sleep_world (rt_clock r) d y)
      \<and> saturating_add (time y) d \<le> time (sleep_world (rt_clock r) d y)" for y d
    using wait_advances [of y d "snd (run_state (ck_wait (rt_clock r) d) y)"]
    by (auto simp: sleep_world_def prod_eq_iff)
  show thesis
  proof (rule run_body_cases [OF body ok'(1) observers ok'(2)])
    fix t1 x1 oc x3 t2 x4 bs e x5
    assume w1: "run_state (ck_now (rt_clock r)) x = (t1, x1)"
      and w3: "run_state (call_op (rt_op r) bs) (hook_world (hk_before_attempt (rt_hooks r)) bs x1) = (oc, x3)"
      and w4: "run_state (ck_now (rt_clock r)) x3 = (t2, x4)"
      and e: "e = saturating_sub t2 origin"
      and x5: "x5 = hook_world (hk_after_attempt (rt_hooks r))
         \<lparr>as_attempt = lv_attempt v, as_elapsed = e, as_outcome = oc\<rparr> x4"
      and out: "body_ends later r v e x5 out x' \<or> body_goes_on later r v e x5 out x'"
    have "later x x3"
      using later_now [OF w1] before [of x1 bs] keepsD [OF oper w3] later_transp
      by (meson transpD)
    then have x3: "ready x3" "time x \<le> time x3" using ready by (auto simp: later_def)
    then have x4: "ready x4" "time x4 = t2" "time x \<le> t2"
      using now_reads [OF w4] now_monotone [OF _ w4] by auto
    then have x5: "ready x5" "t2 \<le> time x5"
      using after [of x4] unfolding x5 by (auto simp: later_def)
    show thesis
      using out unfolding body_leaves_defs
    proof (elim disjE exE conjE)
      fix ev res stats x6
      assume o: "out = Inr (Inr ((res, stats), lv_wait v))" "later x5 x6"
        "x' = hook_world (hk_on_exit (rt_hooks r)) ev x6"
        "stats = stats_for (progress_of v e) (rs_stop_reason stats)"
      have "ready x'" "t2 \<le> time x'"
        using o(2,3) x5 exit [of x6 ev] by (auto simp: later_def)
      moreover have "rs_total_elapsed stats = saturating_sub t2 origin"
          "rs_total_wait stats = lv_total_wait v"
        using o(4) e by (metis stats_for_def progress_of_simps(2,4) retry_stats.select_convs(2,3))+
      ultimately show thesis using o(1) x4 by (intro that [of t2]) auto
    next
      fix d w x6 y
      assume o: "out = Inl (loop_next v (clamp_delay (rt_timeout r) e d) w)" "later x5 x6"
        "x' = sleep_world (rt_clock r) (clamp_delay (rt_timeout r) e d) x6"
        "wait_lower (rt_wait r) (attempt_state_of v e) \<le> d" "\<not> timed_out (rt_timeout r) e"
        "\<not> fst (run_state (should_stop (rt_stop r) (attempt_state_of v e)) y)"
      have x6: "ready x6" "t2 \<le> time x6" using o(2) x5 by (auto simp: later_def)
      have "ready x'" "saturating_add (time x6) (clamp_delay (rt_timeout r) e d) \<le> time x'"
        using sleep [OF x6(1)] o(3) by auto
      moreover from this(2) have "saturating_add t2 (clamp_delay (rt_timeout r) e d) \<le> time x'"
        using saturating_add_mono [OF x6(2) order_refl] by (rule order_trans [rotated])
      ultimately show thesis using o x4 e by (intro that [of t2]) auto
    qed
  qed
qed

text \<open>The waits so far are contained in the time that has passed since the origin.\<close>

definition time_inv where
  "time_inv origin v y \<longleftrightarrow> ready y \<and> saturating_add origin (lv_total_wait v) \<le> time y"

lemma time_inv_start:
  "run_state (ck_now (rt_clock r)) x = (origin, x0) \<Longrightarrow> time_inv origin (loop_start r) x0"
  using now_reads by (auto simp: time_inv_def)

lemma time_inv_next:
  assumes I: "time_inv origin v y" and ok: "vars_ok r v"
    and body: "run_state (run_body dbg r origin v) y = (Inl v', y')"
  shows "time_inv origin v' y'"
proof -
  have ready: "ready y" and tw: "saturating_add origin (lv_total_wait v) \<le> time y"
    using I by (simp_all add: time_inv_def)
  show ?thesis
  proof (rule body_time [OF body ok ready], elim disjE exE conjE)
    fix t d w
    let ?d = "clamp_delay (rt_timeout r) (saturating_sub t origin) d"
    assume t: "time y \<le> t" "ready y'" "Inl v' = Inl (loop_next v ?d w)"
      "saturating_add t ?d \<le> time y'"
    have "saturating_add origin (lv_total_wait v') =
        saturating_add (saturating_add origin (lv_total_wait v)) ?d"
      using t(3) by (simp add: saturating_add_assoc)
    also have "\<dots> \<le> saturating_add t ?d"
      using tw t(1) by (intro saturating_add_mono order_refl) (rule order_trans)
    finally show ?thesis using t(2,4) by (simp add: time_inv_def)
  qed simp
qed

lemma add_le_imp_le_sub:
  "saturating_add a b \<le> t \<Longrightarrow> t < duration_MAX \<Longrightarrow> b \<le> saturating_sub t a"
  by (auto simp: dur_simps)

lemma run_wait_accounted:
  assumes run: "run dbg r x = Some (Inr ((res, stats), w), x')"
  shows "rs_total_wait stats \<le> rs_total_elapsed stats \<or> time x' = duration_MAX"
proof -
  obtain origin x0 where now: "run_state (ck_now (rt_clock r)) x = (origin, x0)" by fastforce
  let ?Q = "\<lambda>(e :: ('x, 'o, 'r, 'a) loop_result) y. case e of Inl p \<Rightarrow> True | Inr ((res, stats), w) \<Rightarrow>
      rs_total_wait stats \<le> rs_total_elapsed stats \<or> time y = duration_MAX"
  have "?Q (Inr ((res, stats), w)) x'"
  proof (rule run_rule [OF run now, where I = "time_inv origin" and Q = ?Q, OF time_inv_start [OF now]])
    fix v y e y'
    assume I: "time_inv origin v y" and ok: "vars_ok r v"
      and body: "run_state (run_body dbg r origin v) y = (Inr e, y')"
    have ready: "ready y" and tw: "saturating_add origin (lv_total_wait v) \<le> time y"
      using I by (simp_all add: time_inv_def)
    show "?Q e y'"
    proof (rule body_time [OF body ok ready], elim disjE exE conjE)
      fix t res stats
      assume t: "time y \<le> t" "Inr e = Inr (Inr ((res, stats), lv_wait v))" "t \<le> time y'"
        "rs_total_elapsed stats = saturating_sub t origin" "rs_total_wait stats = lv_total_wait v"
      show ?thesis
      proof (cases "t < duration_MAX")
        case True
        then have "lv_total_wait v \<le> saturating_sub t origin"
          using add_le_imp_le_sub [OF order_trans [OF tw t(1)]] by blast
        then show ?thesis using t by auto
      next
        case False
        then have "time y' = duration_MAX" using t(3) duration_le_MAX [of "time y'"]
          by (metis antisym not_less order_trans)
        then show ?thesis using t(2) by auto
      qed
    qed simp
  qed (rule time_inv_next)
  then show ?thesis by simp
qed

text \<open>What is left of the timeout after an iteration that goes on.\<close>

lemma deadline_next:
  assumes I: "time_inv origin v y" and ok: "vars_ok r v"
    and body: "run_state (run_body dbg r origin v) y = (Inl v', y')"
    and timeout: "rt_timeout r = Some T" and fits: "as_nanos origin + as_nanos T < duration_max_nanos"
  obtains t d where "time y \<le> t" and "as_nanos t < as_nanos origin + as_nanos T"
    and "wait_lower (rt_wait r) (attempt_state_of v (saturating_sub t origin)) \<le> d"
    and "lv_total_wait v' = saturating_add (lv_total_wait v)
           (min d (saturating_sub T (saturating_sub t origin)))"
    and "as_nanos t + min (as_nanos d) (as_nanos T - (as_nanos t - as_nanos origin)) \<le> as_nanos (time y')"
    and "as_nanos origin \<le> as_nanos t"
proof -
  have ready: "ready y" and tw: "saturating_add origin (lv_total_wait v) \<le> time y"
    using I by (simp_all add: time_inv_def)
  show thesis
  proof (rule body_time [OF body ok ready], elim disjE exE conjE)
    fix t d w
    let ?d = "clamp_delay (rt_timeout r) (saturating_sub t origin) d"
    assume t: "time y \<le> t" "Inl v' = Inl (loop_next v ?d w)"
      "\<not> timed_out (rt_timeout r) (saturating_sub t origin)"
      "wait_lower (rt_wait r) (attempt_state_of v (saturating_sub t origin)) \<le> d"
      "saturating_add t ?d \<le> time y'"
    have d: "?d = min d (saturating_sub T (saturating_sub t origin))"
      by (simp add: clamp_delay_def timeout)
    have lt: "as_nanos t < as_nanos origin + as_nanos T"
      using t(3) by (simp add: timed_out_def timeout dur_simps)
    have ge: "as_nanos origin \<le> as_nanos t"
      using order_trans [OF saturating_add_ge(1) tw] t(1) by (simp add: less_eq_duration_def)
    have "as_nanos ?d \<le> as_nanos T - (as_nanos t - as_nanos origin)"
      by (simp add: d as_nanos_min saturating_sub.rep_eq)
    then have "as_nanos t + as_nanos ?d \<le> duration_max_nanos"
      using lt ge fits by linarith
    then have "as_nanos t + as_nanos ?d \<le> as_nanos (time y')"
      using t(5) by (simp add: less_eq_duration_def saturating_add.rep_eq min_def)
    then show thesis
      using t lt ge by (intro that [of t d]) (simp_all add: d as_nanos_min saturating_sub.rep_eq)
  qed simp
qed

lemma run_timeout_bounds_wait:
  assumes run: "run dbg r x = Some (Inr ((res, stats), w), x')"
    and now: "run_state (ck_now (rt_clock r)) x = (origin, x0)"
    and timeout: "rt_timeout r = Some T" and fits: "as_nanos origin + as_nanos T < duration_max_nanos"
  shows "rs_total_wait stats \<le> T"
proof -
  let ?I = "\<lambda>v y. time_inv origin v y \<and> lv_total_wait v \<le> T"
  let ?Q = "\<lambda>(e :: ('x, 'o, 'r, 'a) loop_result) y. case e of Inl p \<Rightarrow> True | Inr ((res, stats), w) \<Rightarrow> rs_total_wait stats \<le> T"
  have "?Q (Inr ((res, stats), w)) x'"
  proof (rule run_rule [OF run now, where I = ?I and Q = ?Q])
    show "?I (loop_start r) x0" using time_inv_start [OF now] by simp
  next
    fix v y v' y'
    assume I: "?I v y" and ok: "vars_ok r v" and body: "run_state (run_body dbg r origin v) y = (Inl v', y')"
    have J: "time_inv origin v y" using I by simp
    have "lv_total_wait v' \<le> T"
    proof (rule deadline_next [OF J ok body timeout fits])
      fix t d
      assume t: "time y \<le> t" "as_nanos t < as_nanos origin + as_nanos T"
        "lv_total_wait v' = saturating_add (lv_total_wait v)
           (min d (saturating_sub T (saturating_sub t origin)))"
      have "saturating_add origin (lv_total_wait v) \<le> t"
        using J t(1) by (auto simp: time_inv_def)
      moreover have "t < duration_MAX" using t(2) fits by (simp add: dur_simps)
      ultimately have "lv_total_wait v \<le> saturating_sub t origin" by (rule add_le_imp_le_sub)
      then show "lv_total_wait v' \<le> T" using t(2) unfolding t(3) by (simp add: dur_simps)
    qed
    then show "?I v' y'" using time_inv_next [OF J ok body] by simp
  next
    fix v y e y'
    assume I: "?I v y" and ok: "vars_ok r v" and body: "run_state (run_body dbg r origin v) y = (Inr e, y')"
    show "?Q e y'" using I by (rule_tac run_body_exit [OF body ok]) auto
  qed
  then show ?thesis by simp
qed

text \<open>
  The point, \<open>m\<close> attempts and the elapsed time \<open>D\<close>, from which a retry goes no further: its
  timeout has passed, or the built-in parts of its stop strategy fire.
\<close>

definition ends_by :: "u32 \<Rightarrow> duration \<Rightarrow> bool" where
  "ends_by m D \<longleftrightarrow> timed_out (rt_timeout r) D \<or> stop_cond (rt_stop r) m D"

lemma clamp_delay_positive:
  "\<not> timed_out T e \<Longrightarrow> d \<noteq> duration_zero \<Longrightarrow> 0 < as_nanos (clamp_delay T e d)"
  by (auto simp: clamp_delay_def timed_out_def dur_simps split: option.splits)

text \<open>An iteration that goes on has attempts or time left, and uses up some of both.\<close>

lemma ends_by_next:
  assumes I: "time_inv origin v y" and ok: "vars_ok r v"
    and body: "run_state (run_body dbg r origin v) y = (Inl v', y')"
    and ends: "ends_by m D" and fits: "as_nanos origin + as_nanos D < duration_max_nanos"
    and positive: "\<And>st. wait_lower (rt_wait r) st \<noteq> duration_zero"
  shows "lv_attempt v' = u32_saturating_add (lv_attempt v) 1 \<and> time y \<le> time y'
    \<and> (lv_attempt v < m \<or> as_nanos (time y) < min (as_nanos (time y')) (as_nanos origin + as_nanos D))"
proof -
  have ready: "ready y" using I by (simp add: time_inv_def)
  show ?thesis
  proof (rule body_time [OF body ok ready], elim disjE exE conjE)
    fix t d w z
    let ?e = "saturating_sub t origin"
    assume t: "time y \<le> t" "Inl v' = Inl (loop_next v (clamp_delay (rt_timeout r) ?e d) w)"
      "\<not> timed_out (rt_timeout r) ?e" "wait_lower (rt_wait r) (attempt_state_of v ?e) \<le> d"
      "saturating_add t (clamp_delay (rt_timeout r) ?e d) \<le> time y'"
      and stop: "\<not> fst (run_state (should_stop (rt_stop r) (attempt_state_of v ?e)) z)"
    have "d \<noteq> duration_zero"
      using t(4) positive [of "attempt_state_of v ?e"] by (auto simp: dur_simps)
    then have pos: "0 < as_nanos (clamp_delay (rt_timeout r) ?e d)" by (rule clamp_delay_positive [OF t(3)])
    have "t \<le> time y'" using saturating_add_ge(1) t(5) by (rule order_trans)
    have "lv_attempt v < m \<or> ?e < D"
    proof (rule ccontr)
      assume "\<not> (lv_attempt v < m \<or> ?e < D)"
      then have late: "m \<le> lv_attempt v" "D \<le> ?e" by auto
      have "\<not> timed_out (rt_timeout r) D"
        using t(3) late(2) by (auto simp: timed_out_def split: option.splits)
      then have "stop_cond (rt_stop r) m D" using ends by (simp add: ends_by_def)
      then show False using stop_cond_fires [of "rt_stop r" m D "attempt_state_of v ?e" z] late stop by simp
    qed
    moreover have "as_nanos (time y) < min (as_nanos (time y')) (as_nanos origin + as_nanos D)" if "?e < D"
    proof -
      have "as_nanos t < as_nanos origin + as_nanos D"
        using that by (auto simp: less_duration_def saturating_sub.rep_eq)
      then show ?thesis
        using t(1,5) pos fits by (auto simp: less_eq_duration_def saturating_add.rep_eq min_def split: if_splits)
    qed
    ultimately show ?thesis using t(1,2) \<open>t \<le> time y'\<close> by auto
  qed simp
qed

lemma run_deadline_terminates:
  assumes now: "run_state (ck_now (rt_clock r)) x = (origin, x0)"
    and ends: "ends_by m D" and fits: "as_nanos origin + as_nanos D < duration_max_nanos"
    and positive: "\<And>st. wait_lower (rt_wait r) st \<noteq> duration_zero"
  shows "\<exists>res stats w x'. run dbg r x = Some (Inr ((res, stats), w), x')"
proof -
  let ?m = "\<lambda>(v :: 'x loop_vars) y. (unat m - unat (lv_attempt v))
      + (as_nanos origin + as_nanos D - as_nanos (time y))"
  have "\<exists>e x'. run dbg r x = Some (e, x') \<and> (\<exists>res stats w. e = Inr ((res, stats), w))"
  proof (rule run_total_rule [OF now, where I = "time_inv origin" and m = ?m, OF time_inv_start [OF now]])
    fix v y v' y'
    assume I: "time_inv origin v y" and ok: "vars_ok r v"
      and body: "run_state (run_body dbg r origin v) y = (Inl v', y')"
    note go = ends_by_next [OF I ok body ends fits positive]
    have att: "unat (lv_attempt v') = min (unat (lv_attempt v) + 1) 4294967295"
      using go by (simp add: unat_u32_saturating_add)
    have "unat (lv_attempt v) \<le> unat (lv_attempt v')"
      unfolding att using unat_u32_lt [of "lv_attempt v"] by simp
    moreover have "lv_attempt v < m \<Longrightarrow> unat (lv_attempt v) < unat (lv_attempt v') \<and> unat (lv_attempt v) < unat m"
      unfolding att using unat_u32_lt [of m] by (simp add: word_less_nat_alt)
    moreover have "as_nanos (time y) \<le> as_nanos (time y')" using go by (simp add: less_eq_duration_def)
    ultimately have "?m v' y' < ?m v y" using go by auto
    then show "time_inv origin v' y' \<and> ?m v' y' < ?m v y" using time_inv_next [OF I ok body] by simp
  next
    fix v y e y'
    assume ok: "vars_ok r v" and body: "run_state (run_body dbg r origin v) y = (Inr e, y')"
    show "\<exists>res stats w. e = Inr ((res, stats), w)" by (rule run_body_exit [OF body ok]) blast
  qed
  then show ?thesis by blast
qed

end

subsection \<open>Any retry, on the crate's two synchronous clocks\<close>

definition put_virtual :: "'y \<Rightarrow> 'y virtual_clock_scheme \<Rightarrow> 'y virtual_clock_scheme" where
  "put_virtual y x = virtual_clock.more_update (\<lambda>_. y) x"

definition put_system :: "'y \<Rightarrow> 'y os_world_scheme \<Rightarrow> 'y os_world_scheme" where
  "put_system y x = os_world.more_update (\<lambda>_. y) x"

definition on_virtual_clock ::
    "('y, 'o, 'r, 'a) sync_retry \<Rightarrow> ('y virtual_clock_scheme, 'o, 'r, 'a) sync_retry" where
  "on_virtual_clock r = set_clock (lift_retry virtual_clock.more put_virtual r) virtual_sync_clock"

definition on_system_clock ::
    "('y os_world_scheme \<Rightarrow> nat) \<Rightarrow> ('y os_world_scheme \<Rightarrow> nat) \<Rightarrow> ('y, 'o, 'r, 'a) sync_retry \<Rightarrow>
     ('y os_world_scheme, 'o, 'r, 'a) sync_retry" where
  "on_system_clock pass late r = set_clock (lift_retry os_world.more put_system r) (system_clock pass late)"

lemma put_simps [simp]:
  "vc_now (put_virtual y x) = vc_now x" "vc_waits (put_virtual y x) = vc_waits x"
  "os_anchor_age (put_system y z) = os_anchor_age z" "os_time (put_system y z) = os_time z"
  "os_ready (put_system y z) = os_ready z"
  by (simp_all add: put_virtual_def put_system_def os_time_def os_ready_def)

lemma on_clock_simps [simp]:
  "rt_clock (on_virtual_clock r) = virtual_sync_clock" "rt_timeout (on_virtual_clock r) = rt_timeout r"
  "rt_clock (on_system_clock pass late r) = system_clock pass late"
  "rt_timeout (on_system_clock pass late r) = rt_timeout r"
  "rt_op (on_virtual_clock r) = lift_op virtual_clock.more put_virtual (rt_op r)"
  "rt_wait (on_virtual_clock r) = lift_wait virtual_clock.more put_virtual (rt_wait r)"
  "rt_stop (on_virtual_clock r) = lift_stop virtual_clock.more put_virtual (rt_stop r)"
  by (simp_all add: on_virtual_clock_def on_system_clock_def set_clock_def)

lemma lift_wait_lower: "wait_lower (lift_wait get put w) st = wait_lower w st"
  by (induction w) simp_all

lemma later_put:
  "virtual.later x (put_virtual y x)" "system.later z (put_system y z)"
  by (simp_all add: virtual.later_def system.later_def)

context lawful_sync_clock
begin

lemma lift_timed_run:
  assumes put: "\<And>x y. later x (put y x)"
  shows "timed_run (set_clock (lift_retry get put r) c) time ready"
proof (intro timed_run.intro timed_run_axioms.intro)
  show "lawful_sync_clock (rt_clock (set_clock (lift_retry get put r) c)) time ready"
    using lawful_sync_clock_axioms by (simp add: set_clock_def)
  show "observers_keep later (set_clock (lift_retry get put r) c)"
    unfolding observers_keep_def
  proof (intro conjI allI later_reflp later_transp)
    show "keeps later (rt_classifier (set_clock (lift_retry get put r) c) oc)" for oc
      by (simp add: set_clock_def keeps_lift put)
    show "stop_keeps later (rt_stop (set_clock (lift_retry get put r) c))"
      by (simp add: set_clock_def lift_stop_keeps put)
    show "wait_keeps later (rt_wait (set_clock (lift_retry get put r) c))"
      by (simp add: set_clock_def lift_wait_keeps put)
  qed
  show "keeps later (call_op (rt_op (set_clock (lift_retry get put r) c)) st)" for st
    by (simp add: set_clock_def lift_op_keeps put)
qed (simp_all add: set_clock_def lift_hook_keeps [OF later_reflp later_transp] put)

end

interpretation virtual_run: timed_run "on_virtual_clock r" vc_now "\<lambda>_. True" for r
  unfolding on_virtual_clock_def by (rule virtual.lift_timed_run) (rule later_put)

interpretation system_run: timed_run "on_system_clock pass late r" os_time os_ready for pass late r
  unfolding on_system_clock_def by (rule system.lift_timed_run) (rule later_put)

subsection \<open>Properties\<close>

text \<open>A virtual clock at time zero beside a user's world, and a polling loop for the instances.\<close>

definition virtual_world :: "'y \<Rightarrow> 'y virtual_clock_scheme" where
  "virtual_world y = \<lparr>vc_now = duration_zero, vc_waits = [], \<dots> = y\<rparr>"

lemma virtual_world_simps [simp]:
  "vc_now (virtual_world y) = duration_zero" "vc_waits (virtual_world y) = []"
  by (simp_all add: virtual_world_def)

definition polling_retry ::
    "virtual_clock stop_strategy \<Rightarrow> (virtual_clock, (nat, nat) result, nat, nat) sync_retry" where
  "polling_retry stop =
     set_timeout (set_wait (sample_retry (\<lambda>n. Err n) stop) (fixed (from_millis 10))) (from_millis 25)"

lemma polling_retry_simps [simp]:
  "rt_stop (polling_retry s) = s" "rt_timeout (polling_retry s) = Some (from_millis 25)"
  "rt_wait (polling_retry s) = WaitFixed (from_millis 10)"
  by (simp_all add: polling_retry_def builder_defs fixed_def sample_retry_def)

lemma stop_limit_lift [simp]: "stop_limit (lift_stop get put s) = stop_limit s"
  by (induction s) (simp_all split: option.splits)

lemma polling_run:
  "\<exists>res stats w x'. run True (on_virtual_clock (polling_retry (StopAfterAttempts 100)))
     (virtual_world virtual_clock_new) = Some (Inr ((res, stats), w), x')"
  using run_stop_limit [of "on_virtual_clock (polling_retry (StopAfterAttempts 100))" 100] by fastforce

text \<open>
  C16: with a lawful clock and callbacks that do not turn it back, the waits a run reports are
  part of the elapsed time it reports, unless the clock has reached its end: statistics and
  \<open>stop::elapsed\<close> never miss time that was slept.
\<close>

theorem waits_are_elapsed_time:
  assumes "timed_run r time ready"
    and "run dbg r x = Some (Inr ((res, stats), w), x')"
  shows "rs_total_wait stats \<le> rs_total_elapsed stats \<or> time x' = duration_MAX"
  by (rule timed_run.run_wait_accounted [OF assms])

theorem waits_are_elapsed_time_witness:
  "\<exists>res stats w x'. run True (on_virtual_clock (polling_retry (StopAfterAttempts 100)))
       (virtual_world virtual_clock_new) = Some (Inr ((res, stats), w), x')
     \<and> (rs_total_wait stats \<le> rs_total_elapsed stats \<or> vc_now x' = duration_MAX)"
  using polling_run waits_are_elapsed_time [OF virtual_run.timed_run_axioms] by metis

text \<open>
  C8: on a clock that keeps the documented contract of \<open>Clock\<close> (it never goes back, and a wait of
  \<open>d\<close> moves it on by \<open>d\<close> at least), and under a timeout that ends before the clock does, the waits of
  a run sum up to at most the timeout, whatever the wait strategy asks for. On a clock that stands
  still there is no such bound.
\<close>

theorem timeout_bounds_total_wait:
  assumes "timed_run r time ready" and "rt_timeout r = Some T"
    and "run_state (ck_now (rt_clock r)) x = (origin, x0)"
    and "as_nanos origin + as_nanos T < duration_max_nanos"
    and "run dbg r x = Some (Inr ((res, stats), w), x')"
  shows "rs_total_wait stats \<le> T"
  by (rule timed_run.run_timeout_bounds_wait [OF assms(1,5,3,2,4)])

theorem timeout_bounds_total_wait_witness:
  "\<exists>res stats w x'. run True (on_virtual_clock (polling_retry (StopAfterAttempts 100)))
       (virtual_world virtual_clock_new) = Some (Inr ((res, stats), w), x')
     \<and> rs_total_wait stats \<le> from_millis 25"
proof -
  let ?r = "on_virtual_clock (polling_retry (StopAfterAttempts 100))"
  let ?x = "virtual_world virtual_clock_new"
  obtain res stats w x' where h: "run True ?r ?x = Some (Inr ((res, stats), w), x')"
    using polling_run by blast
  have "run_state (ck_now (rt_clock ?r)) ?x = (duration_zero, ?x)" by simp
  from timeout_bounds_total_wait [OF virtual_run.timed_run_axioms _ this _ h, of "from_millis 25"]
  show ?thesis using h by (auto simp: dur_simps)
qed

text \<open>
  C7: a deadline ends the run: a retry with waits that are never zero returns, without a panic,
  even when every outcome is retried, if its timeout has passed by the elapsed time \<open>D\<close> or the
  built-in parts of its stop strategy fire from \<open>m\<close> attempts and \<open>D\<close> on (\<open>stop::elapsed(D)\<close>, or
  any combination with \<open>stop::attempts\<close> and the user's own by \<open>|\<close> and \<open>&\<close>), and the clock does not
  end before.
\<close>

theorem deadline_ends_the_run:
  assumes "timed_run r time ready"
    and "timed_out (rt_timeout r) D \<or> stop_cond (rt_stop r) m D"
    and "run_state (ck_now (rt_clock r)) x = (origin, x0)"
    and "as_nanos origin + as_nanos D < duration_max_nanos"
    and "\<forall>st. wait_lower (rt_wait r) st \<noteq> duration_zero"
  shows "\<exists>res stats w x'. run dbg r x = Some (Inr ((res, stats), w), x')"
  using timed_run.run_deadline_terminates [OF assms(1,3) _ assms(4)] assms(2,5)
    timed_run.ends_by_def [OF assms(1)] by blast

text \<open>Once by the timeout alone, and once by \<open>attempts(100) & elapsed(1s)\<close> without a timeout.\<close>

definition bounded_polling :: "(virtual_clock, (nat, nat) result, nat, nat) sync_retry" where
  "bounded_polling = set_wait (sample_retry Err
     (stop_and (StopAfterAttempts 100) (StopAfterElapsed (from_secs 1)))) (fixed (from_millis 10))"

theorem deadline_ends_the_run_witness:
  "(\<exists>res stats w x'. run True (on_virtual_clock (polling_retry never))
      (virtual_world virtual_clock_new) = Some (Inr ((res, stats), w), x'))
   \<and> (\<exists>res stats w x'. run True (on_virtual_clock bounded_polling)
      (virtual_world virtual_clock_new) = Some (Inr ((res, stats), w), x'))"
proof (rule conjI)
  have "run_state (ck_now (rt_clock (on_virtual_clock (polling_retry never))))
      (virtual_world virtual_clock_new) = (duration_zero, virtual_world virtual_clock_new)" by simp
  from deadline_ends_the_run [OF virtual_run.timed_run_axioms _ this, of "from_millis 25" 1]
  show "\<exists>res stats w x'. run True (on_virtual_clock (polling_retry never))
      (virtual_world virtual_clock_new) = Some (Inr ((res, stats), w), x')"
    by (simp add: lift_wait_lower timed_out_def dur_simps)
next
  have "run_state (ck_now (rt_clock (on_virtual_clock bounded_polling)))
      (virtual_world virtual_clock_new) = (duration_zero, virtual_world virtual_clock_new)" by simp
  from deadline_ends_the_run [OF virtual_run.timed_run_axioms _ this, of "from_secs 1" 100]
  show "\<exists>res stats w x'. run True (on_virtual_clock bounded_polling)
      (virtual_world virtual_clock_new) = Some (Inr ((res, stats), w), x')"
    by (simp add: lift_wait_lower bounded_polling_def stop_and_def set_wait_def fixed_def dur_simps)
qed

end
