(* ===== verification/Virtual_Run.thy ===== *)
theory Virtual_Run
  imports Engine_Time
begin

text \<open>
  A run on \<open>VirtualClock\<close> in closed form: with callbacks that leave the clock alone the
  virtual time that passes and the waits the clock records are exactly the delays of the
  run. This is what the crate's tests assert with.
\<close>

definition same_time :: "'m virtual_clock_scheme \<Rightarrow> 'm virtual_clock_scheme \<Rightarrow> bool" where
  "same_time x y \<longleftrightarrow> vc_now y = vc_now x \<and> vc_waits y = vc_waits x"

lemma same_time_preorder: "reflp same_time" "transp same_time"
  by (auto simp: same_time_def reflp_def transp_def)

lemma same_time_put: "same_time x (put_virtual y x)"
  by (simp add: same_time_def)

definition slept :: "duration list \<Rightarrow> duration list" where
  "slept ds = filter (\<lambda>d. d \<noteq> duration_zero) ds"

lemma sleep_world_virtual:
  "vc_now (sleep_world virtual_sync_clock d x) = saturating_add (vc_now x) d"
  "vc_waits (sleep_world virtual_sync_clock d x) = vc_waits x @ slept [d]"
  by (simp_all add: sleep_world_def slept_def)

lemma virtual_body:
  assumes body: "run_state (run_body dbg (on_virtual_clock r) origin v) x = (out, x')"
    and ok: "vars_ok (on_virtual_clock r) v"
  obtains
    (exit) res stats where "out = Inr (Inr ((res, stats), lv_wait v))" and "same_time x x'"
      and "stats = stats_for (progress_of v (saturating_sub (vc_now x) origin)) (rs_stop_reason stats)"
  | (next_attempt) delay w where "out = Inl (loop_next v delay w)"
      and "vc_now x' = saturating_add (vc_now x) delay" and "vc_waits x' = vc_waits x @ slept [delay]"
proof -
  let ?r = "on_virtual_clock r"
  have ok': "lv_attempt v \<noteq> 0" "wait_config (lv_wait v) = wait_config (rt_wait ?r)"
    using ok by (simp_all add: vars_ok_def)
  have obs: "observers_keep same_time ?r"
    unfolding observers_keep_def
    by (simp add: on_virtual_clock_def set_clock_def same_time_preorder keeps_lift lift_stop_keeps
        lift_wait_keeps same_time_put)
  have hooks: "same_time y (hook_world (hk_before_attempt (rt_hooks ?r)) b y)"
      "same_time y (hook_world (hk_after_attempt (rt_hooks ?r)) a y)"
      "same_time y (hook_world (hk_on_exit (rt_hooks ?r)) ev y)" for y b a ev
    by (simp_all add: on_virtual_clock_def set_clock_def lift_hook_keeps same_time_preorder same_time_put)
  have oper: "keeps same_time (call_op (rt_op ?r) st)" for st
    by (simp add: lift_op_keeps same_time_put)
  show thesis
  proof (rule run_body_cases [OF body ok'(1) obs ok'(2)], unfold body_leaves_defs, elim disjE exE conjE)
    fix t1 x1 oc x3 t2 x4 bs e y ev res stats x5
    assume w: "run_state (ck_now (rt_clock ?r)) x = (t1, x1)"
        "run_state (call_op (rt_op ?r) bs) (hook_world (hk_before_attempt (rt_hooks ?r)) bs x1) = (oc, x3)"
        "run_state (ck_now (rt_clock ?r)) x3 = (t2, x4)" "e = saturating_sub t2 origin"
        "y = hook_world (hk_after_attempt (rt_hooks ?r))
           \<lparr>as_attempt = lv_attempt v, as_elapsed = e, as_outcome = oc\<rparr> x4"
      and o: "out = Inr (Inr ((res, stats), lv_wait v))"
        "same_time y x5"
        "x' = hook_world (hk_on_exit (rt_hooks ?r)) ev x5"
        "stats = stats_for (progress_of v e) (rs_stop_reason stats)"
    have "vc_now x4 = vc_now x \<and> vc_waits x4 = vc_waits x \<and> t2 = vc_now x"
      using w hooks(1) [of x1 bs] keepsD [OF oper w(2)] by (auto simp: same_time_def)
    then have "same_time x x'" "e = saturating_sub (vc_now x) origin"
      using o(2,3) w(4,5) hooks(2) hooks(3) [of x5 ev] by (auto simp: same_time_def)
    then show thesis using o(1,4) exit by metis
  next
    fix t1 x1 oc x3 t2 x4 bs e y d w x5 z
    assume w: "run_state (ck_now (rt_clock ?r)) x = (t1, x1)"
        "run_state (call_op (rt_op ?r) bs) (hook_world (hk_before_attempt (rt_hooks ?r)) bs x1) = (oc, x3)"
        "run_state (ck_now (rt_clock ?r)) x3 = (t2, x4)"
        "y = hook_world (hk_after_attempt (rt_hooks ?r))
           \<lparr>as_attempt = lv_attempt v, as_elapsed = e, as_outcome = oc\<rparr> x4"
      and o: "out = Inl (loop_next v (clamp_delay (rt_timeout ?r) e d) w)"
        "same_time y x5"
        "x' = sleep_world (rt_clock ?r) (clamp_delay (rt_timeout ?r) e d) x5"
    have "vc_now x5 = vc_now x \<and> vc_waits x5 = vc_waits x"
      using o(2) w hooks(1) [of x1 bs] keepsD [OF oper w(2)] hooks(2) by (auto simp: same_time_def)
    then show thesis
      using o(1,3) by (intro next_attempt) (simp_all add: sleep_world_virtual)
  qed
qed

definition virtual_inv ::
    "'m virtual_clock_scheme \<Rightarrow> 'm virtual_clock_scheme loop_vars \<Rightarrow> 'm virtual_clock_scheme \<Rightarrow> bool" where
  "virtual_inv x v y \<longleftrightarrow> (\<exists>ds. lv_total_wait v = foldl saturating_add duration_zero ds
     \<and> unat (lv_attempt v) = min (Suc (length ds)) 4294967295
     \<and> vc_now y = saturating_add (vc_now x) (lv_total_wait v)
     \<and> vc_waits y = vc_waits x @ slept ds)"

lemma virtual_inv_start: "virtual_inv x (loop_start (on_virtual_clock r)) x"
  unfolding virtual_inv_def by (rule exI [of _ "[]"]) (simp add: slept_def)

lemma virtual_inv_next:
  assumes I: "virtual_inv x v y" and ok: "vars_ok (on_virtual_clock r) v"
    and body: "run_state (run_body dbg (on_virtual_clock r) (vc_now x) v) y = (Inl v', y')"
  shows "virtual_inv x v' y'"
proof -
  obtain ds where ds: "lv_total_wait v = foldl saturating_add duration_zero ds"
      "unat (lv_attempt v) = min (Suc (length ds)) 4294967295"
      "vc_now y = saturating_add (vc_now x) (lv_total_wait v)" "vc_waits y = vc_waits x @ slept ds"
    using I by (auto simp: virtual_inv_def)
  show ?thesis
    using body ok
  proof (cases rule: virtual_body)
    case (next_attempt delay w)
    then show ?thesis unfolding virtual_inv_def
      using ds by (intro exI [of _ "ds @ [delay]"])
        (simp add: slept_def saturating_add_assoc unat_u32_saturating_add)
  qed simp
qed

text \<open>
  C10: on the virtual clock, with callbacks that leave it alone, a run that made \<open>n\<close> attempts
  slept \<open>n - 1\<close> delays: the clock advanced by exactly their sum, which is the total wait and
  the elapsed time of the statistics, and it recorded exactly the delays that are not zero,
  in order.
\<close>

theorem virtual_clock_accounts_exactly:
  assumes run: "run dbg (on_virtual_clock r) x = Some (e, x')"
  shows "\<exists>res stats w ds. e = Inr ((res, stats), w)
     \<and> unat (rs_attempts stats) = min (Suc (length ds)) 4294967295
     \<and> rs_total_wait stats = foldl saturating_add duration_zero ds
     \<and> vc_now x' = saturating_add (vc_now x) (rs_total_wait stats)
     \<and> rs_total_elapsed stats = saturating_sub (vc_now x') (vc_now x)
     \<and> vc_waits x' = vc_waits x @ slept ds"
proof -
  have now: "run_state (ck_now (rt_clock (on_virtual_clock r))) x = (vc_now x, x)" by simp
  show ?thesis
  proof (rule run_rule [OF run now, where I = "virtual_inv x"])
    fix v y e y'
    assume I: "virtual_inv x v y" and ok: "vars_ok (on_virtual_clock r) v"
      and body: "run_state (run_body dbg (on_virtual_clock r) (vc_now x) v) y = (Inr e, y')"
    show "\<exists>res stats w ds. e = Inr ((res, stats), w)
       \<and> unat (rs_attempts stats) = min (Suc (length ds)) 4294967295
       \<and> rs_total_wait stats = foldl saturating_add duration_zero ds
       \<and> vc_now y' = saturating_add (vc_now x) (rs_total_wait stats)
       \<and> rs_total_elapsed stats = saturating_sub (vc_now y') (vc_now x)
       \<and> vc_waits y' = vc_waits x @ slept ds"
      using body ok
    proof (cases rule: virtual_body)
      case (exit res stats)
      then have "rs_attempts stats = lv_attempt v" "rs_total_wait stats = lv_total_wait v"
          "rs_total_elapsed stats = saturating_sub (vc_now y) (vc_now x)"
        by (metis stats_for_def progress_of_simps(1,2,4) retry_stats.select_convs(1,2,3))+
      then show ?thesis using exit I by (auto simp: virtual_inv_def same_time_def)
    qed simp
  qed (simp_all add: virtual_inv_start virtual_inv_next)
qed

theorem virtual_clock_accounts_exactly_witness:
  "\<exists>res stats w x' ds. run True (on_virtual_clock (polling_retry (StopAfterAttempts 100)))
       (virtual_world virtual_clock_new) = Some (Inr ((res, stats), w), x')
     \<and> rs_total_wait stats = foldl saturating_add duration_zero ds
     \<and> rs_total_elapsed stats = vc_now x' \<and> vc_waits x' = slept ds"
proof -
  obtain res stats w x' where h: "run True (on_virtual_clock (polling_retry (StopAfterAttempts 100)))
      (virtual_world virtual_clock_new) = Some (Inr ((res, stats), w), x')"
    using polling_run by blast
  have "saturating_sub d duration_zero = d" for d by (simp add: dur_simps)
  then show ?thesis using h virtual_clock_accounts_exactly [OF h] by auto
qed

end
