(* ===== verification/Engine_Async.thy ===== *)
theory Engine_Async
  imports Engine_Sync
begin

text \<open>
  \<open>src/src/engine/async_engine.rs\<close>: the async builder, which mirrors the sync one, and the
  state machine \<open>AsyncRun\<close> it is driven by. An operation returns a future, a clock returns a
  future per wait, and \<open>poll\<close> runs the machine until one of them is pending. \<open>PhantomData\<close>
  and pinning have no run-time content.
\<close>

subsection \<open>The builder\<close>

definition ASYNC_DEFAULT_MAX_ATTEMPTS :: u32 where
  "ASYNC_DEFAULT_MAX_ATTEMPTS = 3"

definition ASYNC_DEFAULT_INITIAL_WAIT :: duration where
  "ASYNC_DEFAULT_INITIAL_WAIT = from_millis 100"

record ('f, 'c, 's, 'w, 'cl, 'ba, 'aa, 'ox) async_retry =
  ac_op :: 'f
  ac_classifier :: 'c
  ac_stop :: 's
  ac_wait :: 'w
  ac_clock :: 'cl
  ac_hooks :: "('ba, 'aa, 'ox) execution_hooks"
  ac_timeout :: "duration option"

text \<open>
  The default clock slot is \<open>SystemClock\<close>, which is no async clock: the value \<open>system\<close> only
  marks the slot, and \<open>call\<close> type checks after \<open>.clock(..)\<close> has replaced it.
\<close>

definition async_from_parts ::
    "'cl \<Rightarrow> 'f \<Rightarrow> 'c \<Rightarrow> 's \<Rightarrow> 'w \<Rightarrow> duration option \<Rightarrow>
     ('f, 'c, 's, 'w, 'cl, ('x, 'v) hook, ('y, 'u) hook, ('z, 't) hook) async_retry" where
  "async_from_parts system oper classifier stop wait timeout =
     \<lparr>ac_op = oper, ac_classifier = classifier, ac_stop = stop, ac_wait = wait, ac_clock = system,
      ac_hooks = execution_hooks_new, ac_timeout = timeout\<rparr>"

definition async_from_op ::
    "'cl \<Rightarrow> ('o \<Rightarrow> ('r, 'a, 'o) verdict) \<Rightarrow> 'f \<Rightarrow>
     panic + ('f, ('x, 'o, 'r, 'a) classifier, 'x stop_strategy, 'x wait_strategy, 'cl,
        ('x, 'v) hook, ('x, 'u) hook, ('x, 't) hook) async_retry" where
  "async_from_op system classify oper =
     (case attempts ASYNC_DEFAULT_MAX_ATTEMPTS of
        Inl p \<Rightarrow> Inl p
      | Inr stop \<Rightarrow>
          Inr (async_from_parts system oper (default_decide classify) stop
                 (exponential ASYNC_DEFAULT_INITIAL_WAIT) None))"

definition retry_async ::
    "'cl \<Rightarrow> ('o \<Rightarrow> ('r, 'a, 'o) verdict) \<Rightarrow> (retry_state \<Rightarrow> ('x, ('x, 'o) future) state) \<Rightarrow>
     panic + (('x, ('x, 'o) future) retry_op, ('x, 'o, 'r, 'a) classifier, 'x stop_strategy,
        'x wait_strategy, 'cl, ('x, 'v) hook, ('x, 'u) hook, ('x, 't) hook) async_retry" where
  "retry_async system classify f = async_from_op system classify (OpFn f)"

definition retry_async_ext ::
    "'cl \<Rightarrow> ('o \<Rightarrow> ('r, 'a, 'o) verdict) \<Rightarrow> ('x, ('x, 'o) future) state \<Rightarrow>
     panic + (('x, ('x, 'o) future) retry_op, ('x, 'o, 'r, 'a) classifier, 'x stop_strategy,
        'x wait_strategy, 'cl, ('x, 'v) hook, ('x, 'u) hook, ('x, 't) hook) async_retry" where
  "retry_async_ext system classify f = async_from_op system classify (StatelessOp f)"

definition async_set_stop ::
    "('f, 'c, 's, 'w, 'cl, 'ba, 'aa, 'ox) async_retry \<Rightarrow> 's2 \<Rightarrow>
     ('f, 'c, 's2, 'w, 'cl, 'ba, 'aa, 'ox) async_retry" where
  "async_set_stop r stop =
     \<lparr>ac_op = ac_op r, ac_classifier = ac_classifier r, ac_stop = stop, ac_wait = ac_wait r,
      ac_clock = ac_clock r, ac_hooks = ac_hooks r, ac_timeout = ac_timeout r\<rparr>"

definition async_set_wait ::
    "('f, 'c, 's, 'w, 'cl, 'ba, 'aa, 'ox) async_retry \<Rightarrow> 'w2 \<Rightarrow>
     ('f, 'c, 's, 'w2, 'cl, 'ba, 'aa, 'ox) async_retry" where
  "async_set_wait r wait =
     \<lparr>ac_op = ac_op r, ac_classifier = ac_classifier r, ac_stop = ac_stop r, ac_wait = wait,
      ac_clock = ac_clock r, ac_hooks = ac_hooks r, ac_timeout = ac_timeout r\<rparr>"

definition async_set_clock ::
    "('f, 'c, 's, 'w, 'cl, 'ba, 'aa, 'ox) async_retry \<Rightarrow> 'cl2 \<Rightarrow>
     ('f, 'c, 's, 'w, 'cl2, 'ba, 'aa, 'ox) async_retry" where
  "async_set_clock r clock =
     \<lparr>ac_op = ac_op r, ac_classifier = ac_classifier r, ac_stop = ac_stop r, ac_wait = ac_wait r,
      ac_clock = clock, ac_hooks = ac_hooks r, ac_timeout = ac_timeout r\<rparr>"

definition async_set_timeout ::
    "('f, 'c, 's, 'w, 'cl, 'ba, 'aa, 'ox) async_retry \<Rightarrow> duration \<Rightarrow>
     ('f, 'c, 's, 'w, 'cl, 'ba, 'aa, 'ox) async_retry" where
  "async_set_timeout r dur = r\<lparr>ac_timeout := Some dur\<rparr>"

definition async_with_classifier ::
    "('f, 'c, 's, 'w, 'cl, 'ba, 'aa, 'ox) async_retry \<Rightarrow> 'c2 \<Rightarrow>
     ('f, 'c2, 's, 'w, 'cl, 'ba, 'aa, 'ox) async_retry" where
  "async_with_classifier r classifier =
     \<lparr>ac_op = ac_op r, ac_classifier = classifier, ac_stop = ac_stop r, ac_wait = ac_wait r,
      ac_clock = ac_clock r, ac_hooks = ac_hooks r, ac_timeout = ac_timeout r\<rparr>"

definition async_decide ::
    "('f, 'c, 's, 'w, 'cl, 'ba, 'aa, 'ox) async_retry \<Rightarrow> ('d \<Rightarrow> ('r, 'a, 'o) verdict) \<Rightarrow>
     ('o \<Rightarrow> ('x, 'd) state) \<Rightarrow>
     ('f, ('x, 'o, 'r, 'a) classifier, 's, 'w, 'cl, 'ba, 'aa, 'ox) async_retry" where
  "async_decide r into_verdict c = async_with_classifier r (closure_decide into_verdict c)"

definition async_when ::
    "('f, 'c, 's, 'w, 'cl, 'ba, 'aa, 'ox) async_retry \<Rightarrow> ('x, 't, 'e) retry_predicate \<Rightarrow>
     ('f, ('x, ('t, 'e) result, 't, 'e) classifier, 's, 'w, 'cl, 'ba, 'aa, 'ox) async_retry" where
  "async_when r predicate = async_with_classifier r (when_decide predicate)"

definition async_until ::
    "('f, 'c, 's, 'w, 'cl, 'ba, 'aa, 'ox) async_retry \<Rightarrow> ('x, 't, 'e) retry_predicate \<Rightarrow>
     ('f, ('x, ('t, 'e) result, 't, 'e) classifier, 's, 'w, 'cl, 'ba, 'aa, 'ox) async_retry" where
  "async_until r predicate = async_with_classifier r (until_decide predicate)"

definition async_before_attempt ::
    "('f, 'c, 's, 'w, 'cl, ('x, retry_state) hook, 'aa, 'ox) async_retry \<Rightarrow> (retry_state \<Rightarrow> ('x, unit) state) \<Rightarrow>
     ('f, 'c, 's, 'w, 'cl, ('x, retry_state) hook, 'aa, 'ox) async_retry" where
  "async_before_attempt r hook =
     \<lparr>ac_op = ac_op r, ac_classifier = ac_classifier r, ac_stop = ac_stop r, ac_wait = ac_wait r,
      ac_clock = ac_clock r, ac_hooks = chain_before_attempt (ac_hooks r) (HookFn hook), ac_timeout = ac_timeout r\<rparr>"

definition async_after_attempt ::
    "('f, 'c, 's, 'w, 'cl, 'ba, ('x, 'o attempt_state) hook, 'ox) async_retry \<Rightarrow> ('o attempt_state \<Rightarrow> ('x, unit) state) \<Rightarrow>
     ('f, 'c, 's, 'w, 'cl, 'ba, ('x, 'o attempt_state) hook, 'ox) async_retry" where
  "async_after_attempt r hook =
     \<lparr>ac_op = ac_op r, ac_classifier = ac_classifier r, ac_stop = ac_stop r, ac_wait = ac_wait r,
      ac_clock = ac_clock r, ac_hooks = chain_after_attempt (ac_hooks r) (HookFn hook), ac_timeout = ac_timeout r\<rparr>"

definition async_on_exit ::
    "('f, 'c, 's, 'w, 'cl, 'ba, 'aa, ('x, ('r, 'a, 'o) exit) hook) async_retry \<Rightarrow> (('r, 'a, 'o) exit \<Rightarrow> ('x, unit) state) \<Rightarrow>
     ('f, 'c, 's, 'w, 'cl, 'ba, 'aa, ('x, ('r, 'a, 'o) exit) hook) async_retry" where
  "async_on_exit r hook =
     \<lparr>ac_op = ac_op r, ac_classifier = ac_classifier r, ac_stop = ac_stop r, ac_wait = ac_wait r,
      ac_clock = ac_clock r, ac_hooks = chain_on_exit (ac_hooks r) (HookFn hook), ac_timeout = ac_timeout r\<rparr>"

lemmas async_builder_defs = async_from_parts_def async_set_stop_def async_set_wait_def
  async_set_clock_def async_set_timeout_def async_with_classifier_def async_decide_def
  async_when_def async_until_def async_before_attempt_def async_after_attempt_def async_on_exit_def

subsection \<open>The state machine\<close>

datatype ('x, 'o) phase =
    ReadyToStart
  | Polling "('x, 'o) future"
  | Sleeping "('x, unit) future"
  | Phase_Done

record ('x, 'o, 'r, 'a) async_run =
  ar_op :: "('x, ('x, 'o) future) retry_op"
  ar_classifier :: "('x, 'o, 'r, 'a) classifier"
  ar_stop :: "'x stop_strategy"
  ar_wait :: "'x wait_strategy"
  ar_clock :: "'x async_clock"
  ar_hooks :: "('x, 'o, 'r, 'a) hooks"
  ar_timeout :: "duration option"
  ar_phase :: "('x, 'o) phase"
  ar_attempt :: u32
  ar_previous_delay :: "duration option"
  ar_total_wait :: duration
  ar_origin :: "duration option"

text \<open>The builder with its slots filled as the async \<open>call\<close> requires.\<close>

type_synonym ('x, 'o, 'r, 'a) filled_async_retry =
  "(('x, ('x, 'o) future) retry_op, ('x, 'o, 'r, 'a) classifier, 'x stop_strategy, 'x wait_strategy,
    'x async_clock, ('x, retry_state) hook, ('x, 'o attempt_state) hook,
    ('x, ('r, 'a, 'o) exit) hook) async_retry"

definition into_run :: "('x, 'o, 'r, 'a) filled_async_retry \<Rightarrow> ('x, 'o, 'r, 'a) async_run" where
  "into_run r =
     \<lparr>ar_op = ac_op r, ar_classifier = ac_classifier r, ar_stop = ac_stop r, ar_wait = ac_wait r,
      ar_clock = ac_clock r, ar_hooks = ac_hooks r, ar_timeout = ac_timeout r,
      ar_phase = ReadyToStart, ar_attempt = 1, ar_previous_delay = None,
      ar_total_wait = duration_zero, ar_origin = None\<rparr>"

type_synonym ('r, 'a, 'o) run_output = "('r, ('a, 'o) retry_error) result \<times> retry_stats"

text \<open>
  One turn of the loop inside \<open>poll\<close>: to the next turn, or out of it with a panic or with the
  answer to the poll, and the machine as it is then.
\<close>

definition poll_body ::
    "bool \<Rightarrow> duration \<Rightarrow> ('x, 'o, 'r, 'a) async_run \<Rightarrow>
     ('x, ('x, 'o, 'r, 'a) async_run +
          (panic + ('r, 'a, 'o) run_output poll) \<times> ('x, 'o, 'r, 'a) async_run) state" where
  "poll_body dbg origin this =
     (case ar_phase this of
        ReadyToStart \<Rightarrow>
          (case for_attempt dbg (ar_attempt this) of
             Inl p \<Rightarrow> State_Monad.return (Inr (Inl p, this))
           | Inr st0 \<Rightarrow> do {
               e \<leftarrow> elapsed_since (ar_clock this) origin;
               let before_state = with_previous_delay (with_elapsed st0 e) (ar_previous_delay this);
               _ \<leftarrow> hook_call (hk_before_attempt (ar_hooks this)) before_state;
               op_future \<leftarrow> call_op (ar_op this) before_state;
               State_Monad.return (Inl (this\<lparr>ar_phase := Polling op_future\<rparr>)) })
      | Polling op_future \<Rightarrow> do {
          (p, op_future') \<leftarrow> fut_poll op_future;
          case p of
            Pending \<Rightarrow> State_Monad.return (Inr (Inr Pending, this\<lparr>ar_phase := Polling op_future'\<rparr>))
          | Ready outcome \<Rightarrow> do {
              post_elapsed \<leftarrow> elapsed_since (ar_clock this) origin;
              s \<leftarrow> step dbg
                     \<lparr>pg_attempt = ar_attempt this, pg_elapsed = post_elapsed,
                      pg_previous_delay = ar_previous_delay this, pg_total_wait = ar_total_wait this\<rparr>
                     outcome (ar_classifier this) (ar_stop this) (ar_wait this) (ar_timeout this)
                     (ar_hooks this);
              case s of
                Inl e \<Rightarrow> State_Monad.return (Inr (Inl e, this))
              | Inr (Done res stats, wait') \<Rightarrow>
                  State_Monad.return
                    (Inr (Inr (Ready (res, stats)), this\<lparr>ar_wait := wait', ar_phase := Phase_Done\<rparr>))
              | Inr (Continue delay running, wait') \<Rightarrow>
                  (let this' = this\<lparr>ar_wait := wait', ar_previous_delay := Some delay,
                                    ar_total_wait := running\<rparr>
                   in if duration_is_zero delay
                      then State_Monad.return
                        (Inl (this'\<lparr>ar_phase := ReadyToStart,
                                     ar_attempt := u32_saturating_add (ar_attempt this') 1\<rparr>))
                      else do {
                        sleep_future \<leftarrow> ck_wait_async (ar_clock this') delay;
                        State_Monad.return (Inl (this'\<lparr>ar_phase := Sleeping sleep_future\<rparr>)) }) } }
      | Sleeping sleep_future \<Rightarrow> do {
          (p, sleep_future') \<leftarrow> fut_poll sleep_future;
          case p of
            Pending \<Rightarrow>
              State_Monad.return (Inr (Inr Pending, this\<lparr>ar_phase := Sleeping sleep_future'\<rparr>))
          | Ready _ \<Rightarrow>
              State_Monad.return
                (Inl (this\<lparr>ar_phase := ReadyToStart,
                            ar_attempt := u32_saturating_add (ar_attempt this) 1\<rparr>)) }
      | Phase_Done \<Rightarrow>
          State_Monad.return (Inr (Inl ''async retry future polled after completion'', this)))"

text \<open>
  \<open>AsyncRun::poll\<close>: the first poll reads the clock for the origin; \<^const>\<open>None\<close> is a poll that
  never returns, which a loop of ready futures without a bound can be.
\<close>

definition async_poll ::
    "bool \<Rightarrow> ('x, 'o, 'r, 'a) async_run \<Rightarrow> 'x \<Rightarrow>
     (((panic + ('r, 'a, 'o) run_output poll) \<times> ('x, 'o, 'r, 'a) async_run) \<times> 'x) option" where
  "async_poll dbg this x =
     (case ar_origin this of
        Some origin \<Rightarrow> state_loop (poll_body dbg origin) this x
      | None \<Rightarrow>
          (let (origin, x') = run_state (ck_now (ar_clock this)) x
           in state_loop (poll_body dbg origin) (this\<lparr>ar_origin := Some origin\<rparr>) x'))"

subsection \<open>The futures of \<open>call\<close>\<close>

datatype 'i drop_stats = DropStats (ds_inner: 'i)

definition drop_stats_poll ::
    "('i \<Rightarrow> 'x \<Rightarrow> (((panic + ('u \<times> retry_stats) poll) \<times> 'i) \<times> 'x) option) \<Rightarrow>
     'i drop_stats \<Rightarrow> 'x \<Rightarrow> (((panic + 'u poll) \<times> 'i drop_stats) \<times> 'x) option" where
  "drop_stats_poll poll_inner d x =
     (case poll_inner (ds_inner d) x of
        None \<Rightarrow> None
      | Some ((Inl p, inner'), x') \<Rightarrow> Some ((Inl p, DropStats inner'), x')
      | Some ((Inr Pending, inner'), x') \<Rightarrow> Some ((Inr Pending, DropStats inner'), x')
      | Some ((Inr (Ready (res, _)), inner'), x') \<Rightarrow> Some ((Inr (Ready res), DropStats inner'), x'))"

definition async_call ::
    "('x, 'o, 'r, 'a) filled_async_retry \<Rightarrow> ('x, 'o, 'r, 'a) async_run drop_stats" where
  "async_call r = DropStats (into_run r)"

datatype 'r async_retry_with_stats = AsyncRetryWithStats (aws_inner: 'r)

definition async_with_stats :: "'r \<Rightarrow> 'r async_retry_with_stats" where
  "async_with_stats r = AsyncRetryWithStats r"

definition async_call_with_stats ::
    "('x, 'o, 'r, 'a) filled_async_retry async_retry_with_stats \<Rightarrow> ('x, 'o, 'r, 'a) async_run" where
  "async_call_with_stats ws = into_run (aws_inner ws)"

end
