(* ===== verification/Async_Parity.thy ===== *)
theory Async_Parity
  imports Engine_Async Engine_Run
begin

text \<open>
  The async engine, driven to completion, is the sync engine: \<open>tests/parity.rs\<close> compares the
  two on samples, here they are equal for every operation, clock, strategy, classifier and
  hook whose futures complete, in what they return and in what they do to the world.
\<close>

subsection \<open>The driver\<close>

text \<open>
  \<open>block_on\<close> of the tests on the machine of the engine: poll until ready, with the rest of
  the program (\<open>idle\<close>) running after every pending poll.
\<close>

partial_function (option) async_block_on ::
    "bool \<Rightarrow> ('x, unit) state \<Rightarrow> ('x, 'o, 'r, 'a) async_run \<Rightarrow> 'x \<Rightarrow>
     (((panic + ('r, 'a, 'o) run_output) \<times> ('x, 'o, 'r, 'a) async_run) \<times> 'x) option" where
  "async_block_on dbg idle this x =
     (case async_poll dbg this x of
        None \<Rightarrow> None
      | Some ((answer, this'), x') \<Rightarrow>
          (case answer of
             Inl p \<Rightarrow> Some ((Inl p, this'), x')
           | Inr v \<Rightarrow>
               (case v of
                  Pending \<Rightarrow> async_block_on dbg idle this' (snd (run_state idle x'))
                | Ready out \<Rightarrow> Some ((Inr out, this'), x'))))"

text \<open>What the driver does with the answer to a poll.\<close>

definition after_poll ::
    "('x, unit) state \<Rightarrow>
     ((panic + ('r, 'a, 'o) run_output poll) \<times> ('x, 'o, 'r, 'a) async_run) \<times> 'x \<Rightarrow>
     (('x, 'o, 'r, 'a) async_run \<times> 'x) +
     (((panic + ('r, 'a, 'o) run_output) \<times> ('x, 'o, 'r, 'a) async_run) \<times> 'x)" where
  "after_poll idle q =
     (case q of ((answer, this'), x') \<Rightarrow>
        (case answer of
           Inl p \<Rightarrow> Inr ((Inl p, this'), x')
         | Inr v \<Rightarrow>
             (case v of
                Pending \<Rightarrow> Inl (this', snd (run_state idle x'))
              | Ready out \<Rightarrow> Inr ((Inr out, this'), x'))))"

definition machine ::
    "bool \<Rightarrow> ('x, unit) state \<Rightarrow> duration \<Rightarrow> ('x, 'o, 'r, 'a) async_run \<times> 'x \<Rightarrow>
     (('x, 'o, 'r, 'a) async_run \<times> 'x) +
     (((panic + ('r, 'a, 'o) run_output) \<times> ('x, 'o, 'r, 'a) async_run) \<times> 'x)" where
  "machine dbg idle origin = fuse (loop_body (poll_body dbg origin)) (after_poll idle)"

lemma async_poll_started:
  "ar_origin this = Some origin \<Longrightarrow>
   async_poll dbg this x = rust_loop (loop_body (poll_body dbg origin)) (this, x)"
  by (simp add: async_poll_def state_loop_def)

text \<open>The origin is read once.\<close>

lemma poll_body_origin:
  "run_state (poll_body dbg origin this) x = (out, x') \<Longrightarrow>
   (case out of Inl this' \<Rightarrow> ar_origin this' = ar_origin this
     | Inr (_, this') \<Rightarrow> ar_origin this' = ar_origin this)"
  by (auto simp: poll_body_def Let_def split: phase.splits sum.splits prod.splits poll.splits
      step_result.splits if_splits)

lemma async_block_on_unfold:
  "async_block_on dbg idle this x =
     (case async_poll dbg this x of None \<Rightarrow> None
      | Some q \<Rightarrow> (case after_poll idle q of
            Inl s' \<Rightarrow> async_block_on dbg idle (fst s') (snd s') | Inr r \<Rightarrow> Some r))"
  by (subst async_block_on.simps) (auto simp: after_poll_def split: option.split sum.split poll.split)

lemma machine_le_driver:
  assumes "ar_origin this = Some origin"
    and "iterate (machine dbg idle origin) n (this, x) = Inr r"
  shows "async_block_on dbg idle this x = Some r"
proof -
  have "(\<lambda>s. async_block_on dbg idle (fst s) (snd s)) (this, x) = Some r"
    using assms(2) unfolding machine_def
  proof (rule fuse_unnest [where I = "\<lambda>s. ar_origin (fst s) = Some origin", rotated 4])
    fix s :: "('a, 'b, 'c, 'd) async_run \<times> 'a"
    assume "ar_origin (fst s) = Some origin"
    then show "async_block_on dbg idle (fst s) (snd s) =
        (case rust_loop (loop_body (poll_body dbg origin)) s of None \<Rightarrow> None
         | Some q \<Rightarrow> (case after_poll idle q of
             Inl s' \<Rightarrow> async_block_on dbg idle (fst s') (snd s') | Inr r \<Rightarrow> Some r))"
      by (subst async_block_on_unfold) (simp add: async_poll_started)
  next
    fix s s' :: "('a, 'b, 'c, 'd) async_run \<times> 'a"
    assume "ar_origin (fst s) = Some origin" "loop_body (poll_body dbg origin) s = Inl s'"
    then show "ar_origin (fst s') = Some origin"
      using poll_body_origin by (fastforce simp: loop_body_Inl_iff)
  next
    fix s q s'
    assume "ar_origin (fst s) = Some origin" "loop_body (poll_body dbg origin) s = Inr q"
      "after_poll idle q = Inl s'"
    then show "ar_origin (fst s') = Some origin"
      using poll_body_origin [of dbg origin "fst s" "snd s" "Inr (fst q)" "snd q"]
      by (auto simp: loop_body_Inr_iff after_poll_def split: prod.splits sum.splits poll.splits)
  qed (use assms(1) in simp)
  then show ?thesis by simp
qed

lemma rust_loop_origin:
  assumes "rust_loop (loop_body (poll_body dbg origin)) (this, x) = Some ((answer, this'), x')"
    and "ar_origin this = Some origin"
  shows "ar_origin this' = Some origin"
proof -
  have "(\<lambda>q. ar_origin (snd (fst q)) = Some origin) ((answer, this'), x')"
    using assms(1)
  proof (rule rust_loop_invariant [where I = "\<lambda>s. ar_origin (fst s) = Some origin"])
    fix s s' assume "ar_origin (fst s) = Some origin" "loop_body (poll_body dbg origin) s = Inl s'"
    then show "ar_origin (fst s') = Some origin"
      using poll_body_origin by (fastforce simp: loop_body_Inl_iff)
  next
    fix s q assume "ar_origin (fst s) = Some origin" "loop_body (poll_body dbg origin) s = Inr q"
    then show "ar_origin (snd (fst q)) = Some origin"
      using poll_body_origin [of dbg origin "fst s" "snd s" "Inr (fst q)" "snd q"]
      by (auto simp: loop_body_Inr_iff split: prod.splits)
  qed (use assms(2) in simp)
  then show ?thesis by simp
qed

lemma driver_le_machine:
  assumes "async_block_on dbg idle this x = Some r"
  shows "\<forall>origin. ar_origin this = Some origin \<longrightarrow> rust_loop (machine dbg idle origin) (this, x) = Some r"
proof (rule async_block_on.raw_induct
    [where P = "\<lambda>dbg idle this x r. \<forall>origin. ar_origin this = Some origin \<longrightarrow>
       rust_loop (machine dbg idle origin) (this, x) = Some r"
      and xa = "(((dbg, idle), this), x)" and y = r, unfolded prod.case, OF _ assms], intro allI impI, goal_cases)
  case (1 drive dbg idle this x r origin)
  note IH = 1(1) and eq = 1(2) and origin = 1(3)
  obtain answer this' x' where
    q: "rust_loop (loop_body (poll_body dbg origin)) (this, x) = Some ((answer, this'), x')"
    using eq origin by (auto simp: async_poll_started split: option.splits)
  have o': "ar_origin this' = Some origin" using rust_loop_origin [OF q origin] .
  have "rust_loop (machine dbg idle origin) (this, x) =
      (case after_poll idle ((answer, this'), x') of
         Inl s' \<Rightarrow> rust_loop (machine dbg idle origin) s' | Inr r \<Rightarrow> Some r)"
    unfolding machine_def by (rule rust_loop_fuse [OF q])
  also have "\<dots> = Some r"
    using eq origin q o' IH
    by (auto simp: async_poll_started after_poll_def split: sum.splits poll.splits)
  finally show ?case .
qed

lemma driver_is_machine:
  assumes "ar_origin this = Some origin"
  shows "async_block_on dbg idle this x = rust_loop (machine dbg idle origin) (this, x)"
proof (cases "async_block_on dbg idle this x")
  case (Some r)
  then show ?thesis using driver_le_machine [OF Some] assms by simp
next
  case None
  then have "rust_loop (machine dbg idle origin) (this, x) = None"
    using machine_le_driver [OF assms] rust_loop_iterate by (metis not_None_eq)
  with None show ?thesis by simp
qed

lemma driver_start:
  assumes "ar_origin this = None" and "run_state (ck_now (ar_clock this)) x = (origin, x0)"
  shows "async_block_on dbg idle this x =
           rust_loop (machine dbg idle origin) (this\<lparr>ar_origin := Some origin\<rparr>, x0)"
proof -
  have "async_poll dbg this x = async_poll dbg (this\<lparr>ar_origin := Some origin\<rparr>) x0"
    using assms by (simp add: async_poll_def)
  then have "async_block_on dbg idle this x = async_block_on dbg idle (this\<lparr>ar_origin := Some origin\<rparr>) x0"
    by (simp add: async_block_on_unfold [of dbg idle this] async_block_on_unfold [of dbg idle "this\<lparr>ar_origin := Some origin\<rparr>"])
  then show ?thesis by (simp add: driver_is_machine)
qed

subsection \<open>The sync retry of an async one\<close>

text \<open>A computation that makes a future, and the computation that also waits for it.\<close>

definition blocking :: "('x, unit) state \<Rightarrow> ('x, ('x, 'a) future) state \<Rightarrow> ('x, 'a) state" where
  "blocking idle m = State (\<lambda>x. let (fut, x') = run_state m x in the (block_on idle fut x'))"

definition completes :: "('x, unit) state \<Rightarrow> ('x, ('x, 'a) future) state \<Rightarrow> bool" where
  "completes idle m \<longleftrightarrow>
     (\<forall>x. block_on idle (fst (run_state m x)) (snd (run_state m x)) \<noteq> None)"

primrec blocking_op ::
    "('x, unit) state \<Rightarrow> ('x, ('x, 'o) future) retry_op \<Rightarrow> ('x, 'o) retry_op" where
  "blocking_op idle (OpFn f) = OpFn (\<lambda>st. blocking idle (f st))"
| "blocking_op idle (StatelessOp f) = StatelessOp (blocking idle f)"

definition blocking_clock :: "('x, unit) state \<Rightarrow> 'x async_clock \<Rightarrow> 'x sync_clock" where
  "blocking_clock idle c =
     \<lparr>ck_now = ck_now c, ck_wait = (\<lambda>d. blocking idle (ck_wait_async c d))\<rparr>"

definition blocking_retry ::
    "('x, unit) state \<Rightarrow> ('x, 'o, 'r, 'a) filled_async_retry \<Rightarrow> ('x, 'o, 'r, 'a) sync_retry" where
  "blocking_retry idle a =
     \<lparr>rt_op = blocking_op idle (ac_op a), rt_classifier = ac_classifier a, rt_stop = ac_stop a,
      rt_wait = ac_wait a, rt_clock = blocking_clock idle (ac_clock a), rt_hooks = ac_hooks a,
      rt_timeout = ac_timeout a\<rparr>"

lemma blocking_simps [simp]:
  "call_op (blocking_op idle oper) st = blocking idle (call_op oper st)"
  "ck_now (blocking_clock idle c) = ck_now c"
  "ck_wait (blocking_clock idle c) d = blocking idle (ck_wait_async c d)"
  "rt_op (blocking_retry idle a) = blocking_op idle (ac_op a)"
  "rt_classifier (blocking_retry idle a) = ac_classifier a"
  "rt_stop (blocking_retry idle a) = ac_stop a" "rt_wait (blocking_retry idle a) = ac_wait a"
  "rt_clock (blocking_retry idle a) = blocking_clock idle (ac_clock a)"
  "rt_hooks (blocking_retry idle a) = ac_hooks a" "rt_timeout (blocking_retry idle a) = ac_timeout a"
  by (cases oper; simp add: blocking_clock_def blocking_retry_def)+

lemma run_blocking:
  assumes "completes idle m" and "run_state m x = (fut, x')"
  shows "block_on idle fut x' = Some (run_state (blocking idle m) x)"
  using assms by (auto simp: completes_def blocking_def dest: spec [of _ x])

text \<open>The machine at the start of an attempt, from the variables of the sync loop.\<close>

definition run_at ::
    "('x, 'o, 'r, 'a) filled_async_retry \<Rightarrow> duration \<Rightarrow> 'x loop_vars \<Rightarrow> ('x, 'o, 'r, 'a) async_run" where
  "run_at a origin v = (into_run a)\<lparr>ar_origin := Some origin, ar_attempt := lv_attempt v,
     ar_previous_delay := lv_previous_delay v, ar_total_wait := lv_total_wait v,
     ar_wait := lv_wait v\<rparr>"

lemma run_at_simps [simp]:
  "ar_op (run_at a origin v) = ac_op a" "ar_classifier (run_at a origin v) = ac_classifier a"
  "ar_stop (run_at a origin v) = ac_stop a" "ar_wait (run_at a origin v) = lv_wait v"
  "ar_clock (run_at a origin v) = ac_clock a" "ar_hooks (run_at a origin v) = ac_hooks a"
  "ar_timeout (run_at a origin v) = ac_timeout a" "ar_phase (run_at a origin v) = ReadyToStart"
  "ar_attempt (run_at a origin v) = lv_attempt v"
  "ar_previous_delay (run_at a origin v) = lv_previous_delay v"
  "ar_total_wait (run_at a origin v) = lv_total_wait v" "ar_origin (run_at a origin v) = Some origin"
  by (simp_all add: run_at_def into_run_def)

lemma machine_Inl:
  "run_state (poll_body dbg origin this) x = (Inl this', x') \<Longrightarrow>
   machine dbg idle origin (this, x) = Inl (this', x')"
  by (simp add: machine_def fuse_def loop_body_def)

lemma machine_Inr:
  "run_state (poll_body dbg origin this) x = (Inr q, x') \<Longrightarrow>
   machine dbg idle origin (this, x) = after_poll idle (q, x')"
  by (simp add: machine_def fuse_def loop_body_def)

text \<open>Polling the operation, or the sleep, until it is ready.\<close>

lemma polling_completes:
  assumes "block_on idle fut x = Some (oc, x')"
  shows "\<exists>fut2 fut3 y. run_state (fut_poll fut2) y = ((Ready oc, fut3), x')
     \<and> reaches (machine dbg idle origin) (this\<lparr>ar_phase := Polling fut\<rparr>, x)
         (this\<lparr>ar_phase := Polling fut2\<rparr>, y)"
proof -
  obtain n where "iterate (loop_body (block_on_body idle)) n (fut, x) = Inr (oc, x')"
    using assms rust_loop_iterate unfolding block_on_def state_loop_def by metis
  then show ?thesis
  proof (induction n arbitrary: fut x)
    case (Suc n)
    obtain p fut' x1 where p: "run_state (fut_poll fut) x = ((p, fut'), x1)" by (metis surj_pair)
    show ?case
    proof (cases p)
      case (Ready oc')
      then have "oc' = oc" "x1 = x'" using Suc.prems p
        by (simp_all add: loop_body_def block_on_body_def)
      then show ?thesis using p Ready reaches_refl by metis
    next
      case Pending
      define x2 where "x2 = snd (run_state idle x1)"
      have x2: "run_state idle x1 = ((), x2)" by (simp add: x2_def prod_eq_iff)
      have "iterate (loop_body (block_on_body idle)) n (fut', x2) = Inr (oc, x')"
        using Suc.prems p Pending x2 by (simp add: loop_body_def block_on_body_def)
      then obtain fut2 fut3 y where IH: "run_state (fut_poll fut2) y = ((Ready oc, fut3), x')"
        "reaches (machine dbg idle origin) (this\<lparr>ar_phase := Polling fut'\<rparr>, x2)
           (this\<lparr>ar_phase := Polling fut2\<rparr>, y)"
        using Suc.IH by blast
      have "machine dbg idle origin (this\<lparr>ar_phase := Polling fut\<rparr>, x) =
          Inl (this\<lparr>ar_phase := Polling fut'\<rparr>, x2)"
        by (subst machine_Inr [where q = "(Inr Pending, this\<lparr>ar_phase := Polling fut'\<rparr>)" and x' = x1])
          (simp_all add: poll_body_def p Pending after_poll_def x2)
      from reaches_turn [where c = "machine dbg idle origin", OF this IH(2)] show ?thesis
        using IH(1) by blast
    qed
  qed simp
qed

lemma sleeping_completes:
  assumes "block_on idle fut x = Some ((), x')"
  shows "\<exists>fut2 fut3 y. run_state (fut_poll fut2) y = ((Ready (), fut3), x')
     \<and> reaches (machine dbg idle origin) (this\<lparr>ar_phase := Sleeping fut\<rparr>, x)
         (this\<lparr>ar_phase := Sleeping fut2\<rparr>, y)"
proof -
  obtain n where "iterate (loop_body (block_on_body idle)) n (fut, x) = Inr ((), x')"
    using assms rust_loop_iterate unfolding block_on_def state_loop_def by metis
  then show ?thesis
  proof (induction n arbitrary: fut x)
    case (Suc n)
    obtain p fut' x1 where p: "run_state (fut_poll fut) x = ((p, fut'), x1)" by (metis surj_pair)
    show ?case
    proof (cases p)
      case (Ready oc')
      then have "x1 = x'" using Suc.prems p by (simp add: loop_body_def block_on_body_def)
      then show ?thesis using p Ready reaches_refl by (metis old.unit.exhaust)
    next
      case Pending
      define x2 where "x2 = snd (run_state idle x1)"
      have x2: "run_state idle x1 = ((), x2)" by (simp add: x2_def prod_eq_iff)
      have "iterate (loop_body (block_on_body idle)) n (fut', x2) = Inr ((), x')"
        using Suc.prems p Pending x2 by (simp add: loop_body_def block_on_body_def)
      then obtain fut2 fut3 y where IH: "run_state (fut_poll fut2) y = ((Ready (), fut3), x')"
        "reaches (machine dbg idle origin) (this\<lparr>ar_phase := Sleeping fut'\<rparr>, x2)
           (this\<lparr>ar_phase := Sleeping fut2\<rparr>, y)"
        using Suc.IH by blast
      have "machine dbg idle origin (this\<lparr>ar_phase := Sleeping fut\<rparr>, x) =
          Inl (this\<lparr>ar_phase := Sleeping fut'\<rparr>, x2)"
        by (subst machine_Inr [where q = "(Inr Pending, this\<lparr>ar_phase := Sleeping fut'\<rparr>)" and x' = x1])
          (simp_all add: poll_body_def p Pending after_poll_def x2)
      from reaches_turn [where c = "machine dbg idle origin", OF this IH(2)] show ?thesis
        using IH(1) by blast
    qed
  qed simp
qed

lemma poll_body_ready:
  assumes "lv_attempt v \<noteq> 0"
    and "run_state (ck_now (ac_clock a)) x = (t1, x1)"
    and "run_state (call_op (ac_op a) (attempt_state_of v (saturating_sub t1 origin)))
          (hook_world (hk_before_attempt (ac_hooks a)) (attempt_state_of v (saturating_sub t1 origin)) x1) =
          (fut, x2)"
  shows "machine dbg idle origin (run_at a origin v, x) =
           Inl ((run_at a origin v)\<lparr>ar_phase := Polling fut\<rparr>, x2)"
proof -
  have st: "with_previous_delay (with_elapsed
      \<lparr>st_attempt = lv_attempt v, st_elapsed = duration_zero, st_previous_delay = None\<rparr> e)
      (lv_previous_delay v) = attempt_state_of v e" for e
    by (simp add: with_previous_delay_def with_elapsed_def attempt_state_of_def)
  show ?thesis
    by (rule machine_Inl) (use assms in \<open>simp add: poll_body_def elapsed_since_def st run_hook_call Let_def\<close>)
qed

text \<open>The turn of the machine that processes the outcome.\<close>

definition after_step ::
    "('x, 'o, 'r, 'a) filled_async_retry \<Rightarrow> duration \<Rightarrow> 'x loop_vars \<Rightarrow> duration \<Rightarrow> duration \<Rightarrow>
     'x wait_strategy \<Rightarrow> ('x, 'o, 'r, 'a) async_run" where
  "after_step a origin v delay running w =
     (run_at a origin v)\<lparr>ar_wait := w, ar_previous_delay := Some delay, ar_total_wait := running\<rparr>"

lemma after_step_next:
  "(after_step a origin v delay running w)\<lparr>ar_phase := ReadyToStart,
     ar_attempt := u32_saturating_add (lv_attempt v) 1\<rparr> =
   run_at a origin \<lparr>lv_attempt = u32_saturating_add (lv_attempt v) 1, lv_previous_delay = Some delay,
     lv_total_wait = running, lv_wait = w\<rparr>"
  by (simp add: after_step_def run_at_def into_run_def)

lemma poll_body_outcome:
  assumes fut: "run_state (fut_poll fut) y = ((Ready oc, fut'), x3)"
    and t2: "run_state (ck_now (ac_clock a)) x3 = (t2, x4)"
    and s: "run_state (step dbg (progress_of v (saturating_sub t2 origin)) oc (ac_classifier a)
          (ac_stop a) (lv_wait v) (ac_timeout a) (ac_hooks a)) x4 = (s, x5)"
  shows "run_state (poll_body dbg origin ((run_at a origin v)\<lparr>ar_phase := Polling fut\<rparr>)) y =
    (case s of
       Inl p \<Rightarrow> (Inr (Inl p, (run_at a origin v)\<lparr>ar_phase := Polling fut\<rparr>), x5)
     | Inr (Done res stats, w) \<Rightarrow>
         (Inr (Inr (Ready (res, stats)), (run_at a origin v)\<lparr>ar_wait := w, ar_phase := Phase_Done\<rparr>), x5)
     | Inr (Continue delay running, w) \<Rightarrow>
         (if delay = duration_zero
          then (Inl ((after_step a origin v delay running w)\<lparr>ar_phase := ReadyToStart,
                  ar_attempt := u32_saturating_add (lv_attempt v) 1\<rparr>), x5)
          else (case run_state (ck_wait_async (ac_clock a) delay) x5 of (sf, x6) \<Rightarrow>
                  (Inl ((after_step a origin v delay running w)\<lparr>ar_phase := Sleeping sf\<rparr>), x6))))"
  using s unfolding progress_of_def
  by (simp add: poll_body_def fut elapsed_since_def t2 Let_def after_step_def
      split: sum.split step_result.split prod.split)

text \<open>A turn that falls asleep is followed by the turns of the sleep and the one that wakes up.\<close>

lemma sleep_turns:
  assumes wait_completes: "\<And>d. completes idle (ck_wait_async (ac_clock a) d)"
    and sf: "run_state (ck_wait_async (ac_clock a) delay) x = (sf, x1)" and nz: "delay \<noteq> duration_zero"
    and turn: "machine dbg idle origin s =
      Inl (after_step a origin v delay running w\<lparr>ar_phase := Sleeping sf\<rparr>, x1)"
  shows "reaches (machine dbg idle origin) s
    (run_at a origin \<lparr>lv_attempt = u32_saturating_add (lv_attempt v) 1, lv_previous_delay = Some delay,
        lv_total_wait = running, lv_wait = w\<rparr>, sleep_world (blocking_clock idle (ac_clock a)) delay x)"
    (is "reaches ?c s (run_at a origin ?v, ?x')")
proof -
  let ?S = "after_step a origin v delay running w"
  have bs: "block_on idle sf x1 = Some ((), ?x')"
    using run_blocking [OF wait_completes sf] nz by (simp add: sleep_world_def prod_eq_iff)
  obtain sf2 sf3 z where sf2: "run_state (fut_poll sf2) z = ((Ready (), sf3), ?x')"
    and asleep: "reaches ?c (?S\<lparr>ar_phase := Sleeping sf\<rparr>, x1) (?S\<lparr>ar_phase := Sleeping sf2\<rparr>, z)"
    using sleeping_completes [OF bs] by blast
  have "?c (?S\<lparr>ar_phase := Sleeping sf2\<rparr>, z) = Inl (run_at a origin ?v, ?x')"
    by (rule machine_Inl)
      (simp add: poll_body_def sf2 after_step_next [symmetric], simp add: after_step_def)
  then have "reaches ?c (?S\<lparr>ar_phase := Sleeping sf2\<rparr>, z) (run_at a origin ?v, ?x')"
    by (rule reaches_turn [OF _ reaches_refl])
  then show ?thesis by (rule reaches_trans [OF reaches_turn [OF turn asleep]])
qed

lemma run_turn:
  assumes ok: "lv_attempt v \<noteq> 0"
    and op_completes: "\<And>st. completes idle (call_op (ac_op a) st)"
    and wait_completes: "\<And>d. completes idle (ck_wait_async (ac_clock a) d)"
    and body: "run_state (run_body dbg (blocking_retry idle a) origin v) x = (out, x')"
  shows "case out of
      Inl v' \<Rightarrow> \<exists>n. iterate (machine dbg idle origin) (Suc n) (run_at a origin v, x) =
          Inl (run_at a origin v', x')
    | Inr e \<Rightarrow> \<exists>n this'. iterate (machine dbg idle origin) n (run_at a origin v, x) =
          Inr ((map_sum id fst e, this'), x')"
proof -
  let ?c = "machine dbg idle origin" and ?A = "run_at a origin v"
  obtain t1 x1 where t1: "run_state (ck_now (ac_clock a)) x = (t1, x1)" by fastforce
  let ?bs = "attempt_state_of v (saturating_sub t1 origin)"
  let ?x1 = "hook_world (hk_before_attempt (ac_hooks a)) ?bs x1"
  obtain fut x2 where fut: "run_state (call_op (ac_op a) ?bs) ?x1 = (fut, x2)" by fastforce
  obtain oc x3 where oc: "run_state (blocking idle (call_op (ac_op a) ?bs)) ?x1 = (oc, x3)" by fastforce
  have bl: "block_on idle fut x2 = Some (oc, x3)" using run_blocking [OF op_completes fut] oc by simp
  obtain t2 x4 where t2: "run_state (ck_now (ac_clock a)) x3 = (t2, x4)" by fastforce
  obtain s x5 where s: "run_state (step dbg (progress_of v (saturating_sub t2 origin)) oc
      (ac_classifier a) (ac_stop a) (lv_wait v) (ac_timeout a) (ac_hooks a)) x4 = (s, x5)" by fastforce
  have A: "?c (?A, x) = Inl (?A\<lparr>ar_phase := Polling fut\<rparr>, x2)"
    by (rule poll_body_ready [OF ok t1 fut])
  obtain fut2 fut3 y where fut2: "run_state (fut_poll fut2) y = ((Ready oc, fut3), x3)"
    and B: "reaches ?c (?A\<lparr>ar_phase := Polling fut\<rparr>, x2) (?A\<lparr>ar_phase := Polling fut2\<rparr>, y)"
    using polling_completes [OF bl] by blast
  note C = poll_body_outcome [OF fut2 t2 s]
  have sync: "run_state (run_body dbg (blocking_retry idle a) origin v) x =
    (case s of
       Inl p \<Rightarrow> (Inr (Inl p), x5)
     | Inr (Done res stats, w) \<Rightarrow> (Inr (Inr ((res, stats), w)), x5)
     | Inr (Continue delay running, w) \<Rightarrow>
         (Inl \<lparr>lv_attempt = u32_saturating_add (lv_attempt v) 1, lv_previous_delay = Some delay,
            lv_total_wait = running, lv_wait = w\<rparr>,
          sleep_world (rt_clock (blocking_retry idle a)) delay x5))"
    using run_body_step [of v "blocking_retry idle a" x t1 x1 origin oc x3 t2 x4 dbg s x5] ok t1 oc t2 s
    by simp
  show ?thesis
  proof (cases s)
    case (Inl p)
    then have "?c (?A\<lparr>ar_phase := Polling fut2\<rparr>, y) =
        Inr ((Inl p, ?A\<lparr>ar_phase := Polling fut2\<rparr>), x5)"
      using C by (subst machine_Inr) (auto simp: after_poll_def)
    from reaches_exit [OF reaches_turn [OF A B] this] show ?thesis
      using sync body Inl by auto
  next
    case (Inr sw)
    obtain st w where sw: "sw = (st, w)" by fastforce
    show ?thesis
    proof (cases st)
      case (Done res stats)
      then have "?c (?A\<lparr>ar_phase := Polling fut2\<rparr>, y) =
          Inr ((Inr (res, stats), ?A\<lparr>ar_wait := w, ar_phase := Phase_Done\<rparr>), x5)"
        using C Inr sw by (subst machine_Inr) (auto simp: after_poll_def)
      from reaches_exit [OF reaches_turn [OF A B] this] show ?thesis
        using sync body Inr sw Done by auto
    next
      case (Continue delay running)
      let ?v = "\<lparr>lv_attempt = u32_saturating_add (lv_attempt v) 1, lv_previous_delay = Some delay,
            lv_total_wait = running, lv_wait = w\<rparr>"
      have out: "out = Inl ?v" "x' = sleep_world (blocking_clock idle (ac_clock a)) delay x5"
        using sync body Inr sw Continue by auto
      have "reaches ?c (?A\<lparr>ar_phase := Polling fut2\<rparr>, y) (run_at a origin ?v, x')"
      proof (cases "delay = duration_zero")
        case True
        then have "?c (?A\<lparr>ar_phase := Polling fut2\<rparr>, y) = Inl (run_at a origin ?v, x5)"
          using C Inr sw Continue by (intro machine_Inl) (simp add: after_step_next)
        moreover have "x' = x5" using out(2) True by (simp add: sleep_world_def)
        ultimately show ?thesis using reaches_turn [OF _ reaches_refl] by metis
      next
        case False
        obtain sf x6 where sf: "run_state (ck_wait_async (ac_clock a) delay) x5 = (sf, x6)" by fastforce
        have "?c (?A\<lparr>ar_phase := Polling fut2\<rparr>, y) =
            Inl (after_step a origin v delay running w\<lparr>ar_phase := Sleeping sf\<rparr>, x6)"
          using C Inr sw Continue False sf by (intro machine_Inl) simp
        then show ?thesis unfolding out(2) by (rule sleep_turns [OF wait_completes sf False])
      qed
      then have "reaches ?c (?A\<lparr>ar_phase := Polling fut\<rparr>, x2) (run_at a origin ?v, x')"
        by (rule reaches_trans [OF B])
      from reaches_step [OF A this] show ?thesis by (simp only: out sum.case)
    qed
  qed
qed

subsection \<open>Parity\<close>

lemma async_parity:
  assumes "\<forall>st. completes idle (call_op (ac_op a) st)"
    and "\<forall>d. completes idle (ck_wait_async (ac_clock a) d)"
  shows "map_option (\<lambda>((res, _), x'). (res, x')) (async_block_on dbg idle (into_run a) x) =
         map_option (\<lambda>(e, x'). (map_sum id fst e, x')) (run dbg (blocking_retry idle a) x)"
proof -
  obtain origin x0 where now: "run_state (ck_now (ac_clock a)) x = (origin, x0)" by fastforce
  let ?r = "blocking_retry idle a" and ?c = "machine dbg idle origin"
  let ?h = "\<lambda>(v, x). (run_at a origin v, x)"
  have start: "ar_origin (into_run a) = None" "ar_clock (into_run a) = ac_clock a"
    by (simp_all add: into_run_def)
  have h0: "(into_run a)\<lparr>ar_origin := Some origin\<rparr> = run_at a origin (loop_start ?r)"
    by (simp add: run_at_def into_run_def)
  have "async_block_on dbg idle (into_run a) x = rust_loop ?c (?h (loop_start ?r, x0))"
    using driver_start [OF start(1), of x origin x0 dbg idle] now h0 start(2) by simp
  moreover have "run dbg ?r x = rust_loop (loop_body (run_body dbg ?r origin)) (loop_start ?r, x0)"
    using run_eq [of ?r x origin x0 dbg] now by (simp add: state_loop_def)
  moreover have "map_option (\<lambda>((res, _), x'). (res, x')) (rust_loop ?c (?h (loop_start ?r, x0))) =
      map_option (\<lambda>(e, x'). (map_sum id fst e, x'))
        (rust_loop (loop_body (run_body dbg ?r origin)) (loop_start ?r, x0))"
  proof (rule rust_loop_simulation [where I = "\<lambda>(v, _). vars_ok ?r v"])
    fix s s'
    assume I: "case s of (v, _) \<Rightarrow> vars_ok ?r v"
      and b: "loop_body (run_body dbg ?r origin) s = Inl s'"
    obtain v y v' y' where s: "s = (v, y)" "s' = (v', y')" by fastforce
    have body: "run_state (run_body dbg ?r origin v) y = (Inl v', y')"
      using b s by (simp add: loop_body_Inl_iff)
    have ok: "vars_ok ?r v" using I s by simp
    show "(case s' of (v, _) \<Rightarrow> vars_ok ?r v) \<and> (\<exists>n. iterate ?c (Suc n) (?h s) = Inl (?h s'))"
      using run_turn [OF _ _ _ body] vars_ok_next [OF ok body] ok assms
      by (simp add: s vars_ok_def del: iterate.simps)
  next
    fix s q
    assume I: "case s of (v, _) \<Rightarrow> vars_ok ?r v"
      and b: "loop_body (run_body dbg ?r origin) s = Inr q"
    obtain v y e y' where s: "s = (v, y)" "q = (e, y')" by fastforce
    have body: "run_state (run_body dbg ?r origin v) y = (Inr e, y')"
      using b s by (simp add: loop_body_Inr_iff)
    have ok: "lv_attempt v \<noteq> 0" using I s by (simp add: vars_ok_def)
    obtain n this' where "iterate ?c n (run_at a origin v, y) = Inr ((map_sum id fst e, this'), y')"
      using run_turn [OF ok _ _ body] assms by auto
    then show "\<exists>n qa. iterate ?c n (?h s) = Inr qa \<and>
        (\<lambda>((res, _), x'). (res, x')) qa = (\<lambda>(e, x'). (map_sum id fst e, x')) q"
      by (auto simp: s)
  qed simp
  ultimately show ?thesis by simp
qed

text \<open>
  C1: driven to completion, the async engine does exactly what the sync engine does with the
  same configuration and blocking versions of the operation and of the clock's wait: the
  same result and statistics, the same panic, the same final world, and it fails to
  terminate exactly when the sync engine does. The futures may be pending any number of
  times; they have to complete.
\<close>

theorem async_engine_is_sync_engine:
  assumes "\<forall>st. completes idle (call_op (ac_op a) st)"
    and "\<forall>d. completes idle (ck_wait_async (ac_clock a) d)"
  shows "map_option (\<lambda>((res, _), x'). (res, x')) (async_block_on dbg idle (into_run a) x) =
         map_option (\<lambda>(e, x'). (map_sum id fst e, x')) (run dbg (blocking_retry idle a) x)"
  by (rule async_parity [OF assms])

text \<open>An async retry on the virtual clock whose operation is pending once before it is ready.\<close>

definition yielding :: "'o \<Rightarrow> ('x, 'o) future" where
  "yielding v = future_of (\<lambda>polled. State_Monad.return (if polled then Ready v else Pending, True)) False"

definition sample_async ::
    "(nat \<Rightarrow> (nat, nat) result) \<Rightarrow> virtual_clock stop_strategy \<Rightarrow>
     (virtual_clock, (nat, nat) result, nat, nat) filled_async_retry" where
  "sample_async f stop =
     async_set_clock (async_from_parts ()
       (OpFn (\<lambda>st. State_Monad.return (yielding (f (unat (st_attempt st))))))
       (default_decide classify_result) stop (fixed (from_millis 10)) None) virtual_async_clock"

lemma sample_async_simps [simp]:
  "ac_op (sample_async f s) = OpFn (\<lambda>st. State_Monad.return (yielding (f (unat (st_attempt st)))))"
  "ac_clock (sample_async f s) = virtual_async_clock" "ac_stop (sample_async f s) = s"
  by (simp_all add: sample_async_def async_builder_defs)

lemma block_on_yielding: "block_on (State_Monad.return ()) (yielding v) x = Some (v, x)"
proof -
  let ?f = "\<lambda>b. future_of (\<lambda>polled. State_Monad.return (if polled then Ready v else Pending, True)) b"
  have "block_on (State_Monad.return ()) (?f False) x = block_on (State_Monad.return ()) (?f True) x"
    by (rule block_on_pending [where x' = x]) (simp_all add: run_future_of)
  also have "\<dots> = Some (v, x)"
    by (rule block_on_ready [where fut' = "?f True"]) (simp add: run_future_of)
  finally show ?thesis by (simp add: yielding_def)
qed

lemma sample_async_completes:
  "\<forall>st. completes (State_Monad.return ()) (call_op (ac_op (sample_async f s)) st)"
  "\<forall>d. completes (State_Monad.return ()) (ck_wait_async (ac_clock (sample_async f s)) d)"
  by (simp_all add: completes_def block_on_yielding virtual_wait_async_def block_on_virtual_wait)

theorem async_engine_is_sync_engine_witness:
  "\<exists>res stats w x'.
     run True (blocking_retry (State_Monad.return ()) (sample_async Err (StopAfterAttempts 3)))
       virtual_clock_new = Some (Inr ((res, stats), w), x')
     \<and> map_option (\<lambda>((res, _), x'). (res, x'))
         (async_block_on True (State_Monad.return ()) (into_run (sample_async Err (StopAfterAttempts 3)))
           virtual_clock_new) = Some (Inr (res, stats), x')"
proof -
  let ?a = "sample_async Err (StopAfterAttempts 3)"
  have "stop_limit (rt_stop (blocking_retry (State_Monad.return ()) ?a)) = Some 3" by simp
  from run_stop_limit [OF this, of True virtual_clock_new] obtain res stats w x' where
    "run True (blocking_retry (State_Monad.return ()) ?a) virtual_clock_new =
       Some (Inr ((res, stats), w), x')" by blast
  then show ?thesis
    using async_engine_is_sync_engine [OF sample_async_completes, of True Err "StopAfterAttempts 3"
        virtual_clock_new] by auto
qed

text \<open>
  Driven to completion, an async retry with a bounded stop strategy returns, without a
  panic, after at most that many attempts, however often its futures are pending.
\<close>

theorem async_bounded_run_terminates:
  assumes "stop_limit (ac_stop a) = Some m"
    and "\<forall>st. completes idle (call_op (ac_op a) st)"
    and "\<forall>d. completes idle (ck_wait_async (ac_clock a) d)"
  shows "\<exists>res stats this' x'. async_block_on dbg idle (into_run a) x =
           Some ((Inr (res, stats), this'), x') \<and> unat (rs_attempts stats) \<le> max 1 (unat m)"
proof -
  have "stop_limit (rt_stop (blocking_retry idle a)) = Some m" using assms(1) by simp
  from run_stop_limit [OF this, of dbg x] obtain res stats w x' where
    r: "run dbg (blocking_retry idle a) x = Some (Inr ((res, stats), w), x')"
      "unat (rs_attempts stats) \<le> max 1 (unat m)" by blast
  then show ?thesis
    using async_parity [OF assms(2,3), of dbg x] by auto
qed

theorem async_bounded_run_terminates_witness:
  "\<exists>res stats this' x'. async_block_on True (State_Monad.return ())
       (into_run (sample_async Err (StopAfterAttempts 3))) virtual_clock_new =
     Some ((Inr (res, stats), this'), x') \<and> unat (rs_attempts stats) \<le> 3"
  using async_bounded_run_terminates [OF _ sample_async_completes, of Err "StopAfterAttempts 3" 3 True
      virtual_clock_new]
  by simp

subsection \<open>After completion\<close>

lemma poll_body_ready_done:
  "run_state (poll_body dbg origin this) x = (Inr (Inr (Ready out), this'), x') \<Longrightarrow>
   ar_phase this' = Phase_Done"
  by (auto simp: poll_body_def Let_def split: phase.splits sum.splits prod.splits poll.splits
      step_result.splits if_splits)

text \<open>
  C22: a future that has returned its result panics with a message when it is polled again;
  it neither repeats the result nor touches the world.
\<close>

theorem poll_after_completion_panics:
  assumes "async_poll dbg this x = Some ((Inr (Ready out), this'), x')"
  shows "async_poll dbg this' y =
           Some ((Inl ''async retry future polled after completion'', this'), y)"
proof -
  obtain origin this1 x1 where o: "ar_origin this1 = Some origin"
    and r: "rust_loop (loop_body (poll_body dbg origin)) (this1, x1) = Some ((Inr (Ready out), this'), x')"
  proof (cases "ar_origin this")
    case None
    then show thesis
      using assms that [of "this\<lparr>ar_origin := Some (fst (run_state (ck_now (ar_clock this)) x))\<rparr>"]
      by (simp add: async_poll_def case_prod_beta state_loop_def)
  next
    case (Some origin)
    then show thesis using assms that by (simp add: async_poll_started)
  qed
  have "ar_origin this' = Some origin" by (rule rust_loop_origin [OF r o])
  moreover have "(\<lambda>q. fst (fst q) = Inr (Ready out) \<longrightarrow> ar_phase (snd (fst q)) = Phase_Done)
      ((Inr (Ready out) :: panic + _, this'), x')"
    by (rule rust_loop_invariant [OF r, where I = "\<lambda>_. True" and Q = "\<lambda>q. fst (fst q) = Inr (Ready out) \<longrightarrow>
        ar_phase (snd (fst q)) = Phase_Done"])
      (auto simp: loop_body_Inr_iff intro: poll_body_ready_done)
  ultimately show ?thesis
    by (simp add: async_poll_def state_loop_exit poll_body_def)
qed

theorem poll_after_completion_panics_witness:
  "\<exists>out this this' x'. async_poll True this virtual_clock_new = Some ((Inr (Ready out), this'), x')
     \<and> fst out = (Ok 7 :: (nat, (nat, (nat, nat) result) retry_error) result)
     \<and> async_poll True this' x' =
         Some ((Inl ''async retry future polled after completion'', this'), x')"
proof -
  let ?a = "sample_async (\<lambda>_. Ok 7) never"
  let ?v = "loop_start (blocking_retry (State_Monad.return ()) ?a)"
  let ?f = "future_of (\<lambda>_. State_Monad.return (Ready (Ok 7), ())) ()"
  let ?start = "(run_at ?a duration_zero ?v)\<lparr>ar_phase := Polling ?f\<rparr>"
  have s: "run_state (step True (progress_of ?v (saturating_sub duration_zero duration_zero)) (Ok 7)
      (ac_classifier ?a) (ac_stop ?a) (lv_wait ?v) (ac_timeout ?a) (ac_hooks ?a)) virtual_clock_new =
    (Inr (Done (Ok 7) (stats_for (progress_of ?v (saturating_sub duration_zero duration_zero)) Returned),
       lv_wait ?v), virtual_clock_new)"
    by (simp add: run_step Let_def sample_async_def async_builder_defs default_decide_def
        classify_result_def)
  have now: "run_state (ck_now (ac_clock ?a)) virtual_clock_new = (duration_zero, virtual_clock_new)"
    by (simp add: virtual_clock_new_def)
  have fut: "run_state (fut_poll ?f) virtual_clock_new = ((Ready (Ok 7), ?f), virtual_clock_new)"
    by (simp add: run_future_of)
  have "async_poll True ?start virtual_clock_new = Some ((Inr (Ready (Ok 7,
      stats_for (progress_of ?v (saturating_sub duration_zero duration_zero)) Returned)),
      (run_at ?a duration_zero ?v)\<lparr>ar_wait := lv_wait ?v, ar_phase := Phase_Done\<rparr>), virtual_clock_new)"
    using poll_body_outcome [OF fut now s] by (simp add: async_poll_def state_loop_exit)
  from this poll_after_completion_panics [OF this] show ?thesis by (metis fst_conv)
qed

end
