(* ===== verification/Policy.thy ===== *)
theory Policy
  imports Engine_Run Async_Parity
begin

text \<open>
  \<open>src/src/policy/mod.rs\<close>: the reusable configuration. \<open>retry\<close> lends the policy's strategies
  to the builder by shared reference, \<open>boxed\<close> puts them behind trait objects; both are
  \<open>StopRef\<close> and \<open>WaitRef\<close> in the model.
\<close>

definition POLICY_DEFAULT_MAX_ATTEMPTS :: u32 where
  "POLICY_DEFAULT_MAX_ATTEMPTS = 3"

definition POLICY_DEFAULT_INITIAL_WAIT :: duration where
  "POLICY_DEFAULT_INITIAL_WAIT = from_millis 100"

record ('s, 'w, 'c) retry_policy =
  rp_stop :: 's
  rp_wait :: 'w
  rp_classifier :: 'c
  rp_timeout :: "duration option"

definition policy_new ::
    "('o \<Rightarrow> ('r, 'a, 'o) verdict) \<Rightarrow>
     panic + ('x stop_strategy, 'x wait_strategy, ('x, 'o, 'r, 'a) classifier) retry_policy" where
  "policy_new classify =
     (case attempts POLICY_DEFAULT_MAX_ATTEMPTS of
        Inl p \<Rightarrow> Inl p
      | Inr stop \<Rightarrow> Inr \<lparr>rp_stop = stop, rp_wait = exponential POLICY_DEFAULT_INITIAL_WAIT,
          rp_classifier = default_decide classify, rp_timeout = None\<rparr>)"

definition policy_default ::
    "('o \<Rightarrow> ('r, 'a, 'o) verdict) \<Rightarrow>
     panic + ('x stop_strategy, 'x wait_strategy, ('x, 'o, 'r, 'a) classifier) retry_policy" where
  "policy_default classify = policy_new classify"

definition policy_stop ::
    "('s, 'w, 'c) retry_policy \<Rightarrow> 's2 \<Rightarrow> ('s2, 'w, 'c) retry_policy" where
  "policy_stop p stop =
     \<lparr>rp_stop = stop, rp_wait = rp_wait p, rp_classifier = rp_classifier p, rp_timeout = rp_timeout p\<rparr>"

definition policy_wait ::
    "('s, 'w, 'c) retry_policy \<Rightarrow> 'w2 \<Rightarrow> ('s, 'w2, 'c) retry_policy" where
  "policy_wait p wait =
     \<lparr>rp_stop = rp_stop p, rp_wait = wait, rp_classifier = rp_classifier p, rp_timeout = rp_timeout p\<rparr>"

definition policy_timeout :: "('s, 'w, 'c) retry_policy \<Rightarrow> duration \<Rightarrow> ('s, 'w, 'c) retry_policy" where
  "policy_timeout p dur = p\<lparr>rp_timeout := Some dur\<rparr>"

definition policy_when ::
    "('s, 'w, 'c) retry_policy \<Rightarrow> ('x, 't, 'e) retry_predicate \<Rightarrow> 
     ('s, 'w, ('x, ('t, 'e) result, 't, 'e) classifier) retry_policy" where
  "policy_when p predicate =
     \<lparr>rp_stop = rp_stop p, rp_wait = rp_wait p, rp_classifier = when_decide predicate, rp_timeout = rp_timeout p\<rparr>"

definition policy_until ::
    "('s, 'w, 'c) retry_policy \<Rightarrow> ('x, 't, 'e) retry_predicate \<Rightarrow> 
     ('s, 'w, ('x, ('t, 'e) result, 't, 'e) classifier) retry_policy" where
  "policy_until p predicate =
     \<lparr>rp_stop = rp_stop p, rp_wait = rp_wait p, rp_classifier = until_decide predicate, rp_timeout = rp_timeout p\<rparr>"

definition policy_decide ::
    "('s, 'w, 'c) retry_policy \<Rightarrow> ('d \<Rightarrow> ('r, 'a, 'o) verdict) \<Rightarrow> ('o \<Rightarrow> ('x, 'd) state) \<Rightarrow> 
     ('s, 'w, ('x, 'o, 'r, 'a) classifier) retry_policy" where
  "policy_decide p into_verdict c =
     \<lparr>rp_stop = rp_stop p, rp_wait = rp_wait p, rp_classifier = closure_decide into_verdict c, rp_timeout = rp_timeout p\<rparr>"

definition boxed ::
    "('x stop_strategy, 'x wait_strategy, 'c) retry_policy \<Rightarrow>
     ('x stop_strategy, 'x wait_strategy, 'c) retry_policy" where
  "boxed p =
     \<lparr>rp_stop = StopRef (rp_stop p), rp_wait = WaitRef (rp_wait p), rp_classifier = rp_classifier p,
      rp_timeout = rp_timeout p\<rparr>"

definition boxed_local ::
    "('x stop_strategy, 'x wait_strategy, 'c) retry_policy \<Rightarrow>
     ('x stop_strategy, 'x wait_strategy, 'c) retry_policy" where
  "boxed_local p =
     \<lparr>rp_stop = StopRef (rp_stop p), rp_wait = WaitRef (rp_wait p), rp_classifier = rp_classifier p,
      rp_timeout = rp_timeout p\<rparr>"

definition policy_retry ::
    "'cl \<Rightarrow> ('x stop_strategy, 'x wait_strategy, 'c) retry_policy \<Rightarrow>
     (retry_state \<Rightarrow> ('x, 'o) state) \<Rightarrow>
     (('x, 'o) retry_op, 'c, 'x stop_strategy, 'x wait_strategy, 'cl,
      ('x, 'v) hook, ('x, 'u) hook, ('x, 't) hook) retry" where
  "policy_retry system p f =
     from_parts system (OpFn f) (rp_classifier p) (StopRef (rp_stop p)) (WaitRef (rp_wait p))
       (rp_timeout p)"

definition policy_retry_async ::
    "'cl \<Rightarrow> ('x stop_strategy, 'x wait_strategy, 'c) retry_policy \<Rightarrow>
     (retry_state \<Rightarrow> ('x, ('x, 'o) future) state) \<Rightarrow>
     (('x, ('x, 'o) future) retry_op, 'c, 'x stop_strategy, 'x wait_strategy, 'cl,
      ('x, 'v) hook, ('x, 'u) hook, ('x, 't) hook) async_retry" where
  "policy_retry_async system p f =
     async_from_parts system (OpFn f) (rp_classifier p) (StopRef (rp_stop p)) (WaitRef (rp_wait p))
       (rp_timeout p)"

subsection \<open>Borrowing and boxing are transparent\<close>

definition borrowed :: "('x, 'o, 'r, 'a) sync_retry \<Rightarrow> ('x, 'o, 'r, 'a) sync_retry" where
  "borrowed r = r\<lparr>rt_stop := StopRef (rt_stop r), rt_wait := WaitRef (rt_wait r)\<rparr>"

lemma borrowed_simps [simp]:
  "rt_op (borrowed r) = rt_op r" "rt_classifier (borrowed r) = rt_classifier r"
  "rt_stop (borrowed r) = StopRef (rt_stop r)" "rt_wait (borrowed r) = WaitRef (rt_wait r)"
  "rt_clock (borrowed r) = rt_clock r" "rt_hooks (borrowed r) = rt_hooks r"
  "rt_timeout (borrowed r) = rt_timeout r"
  by (simp_all add: borrowed_def)

lemma step_borrowed:
  assumes "pg_attempt p \<noteq> 0"
  shows "run_state (step dbg p oc classifier (StopRef stop) (WaitRef wait) timeout hooks) x =
    (case run_state (step dbg p oc classifier stop wait timeout hooks) x of
       (Inl e, x') \<Rightarrow> (Inl e, x') | (Inr (s, w), x') \<Rightarrow> (Inr (s, WaitRef w), x'))"
  by (simp add: run_step [OF assms] Let_def split: prod.split verdict.split sum.split)

definition borrow_vars :: "'x loop_vars \<Rightarrow> 'x loop_vars" where
  "borrow_vars v = v\<lparr>lv_wait := WaitRef (lv_wait v)\<rparr>"

lemma borrow_vars_simps [simp]:
  "lv_attempt (borrow_vars v) = lv_attempt v" "lv_previous_delay (borrow_vars v) = lv_previous_delay v"
  "lv_total_wait (borrow_vars v) = lv_total_wait v" "lv_wait (borrow_vars v) = WaitRef (lv_wait v)"
  "progress_of (borrow_vars v) e = progress_of v e"
  "attempt_state_of (borrow_vars v) e = attempt_state_of v e"
  by (simp_all add: borrow_vars_def progress_of_def attempt_state_of_def)

lemma run_body_borrowed:
  assumes "lv_attempt v \<noteq> 0"
  shows "run_state (run_body dbg (borrowed r) origin (borrow_vars v)) x =
    (case run_state (run_body dbg r origin v) x of
       (Inl v', x') \<Rightarrow> (Inl (borrow_vars v'), x')
     | (Inr (Inl p), x') \<Rightarrow> (Inr (Inl p), x')
     | (Inr (Inr (out, w)), x') \<Rightarrow> (Inr (Inr (out, WaitRef w)), x'))"
proof -
  obtain t1 x1 where t1: "run_state (ck_now (rt_clock r)) x = (t1, x1)" by fastforce
  let ?bs = "attempt_state_of v (saturating_sub t1 origin)"
  obtain oc x3 where oc: "run_state (call_op (rt_op r) ?bs)
      (hook_world (hk_before_attempt (rt_hooks r)) ?bs x1) = (oc, x3)" by fastforce
  obtain t2 x4 where t2: "run_state (ck_now (rt_clock r)) x3 = (t2, x4)" by fastforce
  let ?p = "progress_of v (saturating_sub t2 origin)"
  obtain s x5 where s: "run_state (step dbg ?p oc (rt_classifier r)
      (rt_stop r) (lv_wait v) (rt_timeout r) (rt_hooks r)) x4 = (s, x5)" by fastforce
  have p: "pg_attempt ?p \<noteq> 0" using assms by simp
  define s' where "s' = (case s of Inl e \<Rightarrow> Inl e | Inr (st, w) \<Rightarrow> Inr (st, WaitRef w))"
  have sb: "run_state (step dbg ?p oc (rt_classifier r) (StopRef (rt_stop r)) (WaitRef (lv_wait v))
      (rt_timeout r) (rt_hooks r)) x4 = (s', x5)"
    by (simp add: step_borrowed [OF p] s s'_def split: sum.split prod.split)
  have "run_state (run_body dbg (borrowed r) origin (borrow_vars v)) x =
    (case s' of
       Inl p \<Rightarrow> (Inr (Inl p), x5)
     | Inr (Done res stats, w) \<Rightarrow> (Inr (Inr ((res, stats), w)), x5)
     | Inr (Continue delay running, w) \<Rightarrow>
         (Inl \<lparr>lv_attempt = u32_saturating_add (lv_attempt (borrow_vars v)) 1,
            lv_previous_delay = Some delay,
            lv_total_wait = running, lv_wait = w\<rparr>, sleep_world (rt_clock (borrowed r)) delay x5))"
    using run_body_step [of "borrow_vars v" "borrowed r" x t1 x1 origin oc x3 t2 x4 dbg s' x5]
      assms t1 oc t2 sb by simp
  then show ?thesis
    using run_body_step [OF assms t1 oc t2 s]
    by (cases s) (auto simp: s'_def borrow_vars_def split: prod.split step_result.split)
qed

lemma run_borrowed:
  "run dbg (borrowed r) x =
     map_option (map_prod (map_sum id (map_prod id WaitRef)) id) (run dbg r x)"
proof -
  obtain origin x0 where now: "run_state (ck_now (rt_clock r)) x = (origin, x0)" by fastforce
  let ?c = "loop_body (run_body dbg (borrowed r) origin)" and ?b = "loop_body (run_body dbg r origin)"
  let ?h = "\<lambda>(v, x). (borrow_vars v, x)"
  have "map_option id (rust_loop ?c (?h (loop_start r, x0))) =
      map_option (map_prod (map_sum id (map_prod id WaitRef)) id) (rust_loop ?b (loop_start r, x0))"
  proof (rule rust_loop_simulation [where I = "\<lambda>(v, _). vars_ok r v"])
    fix s s'
    assume I: "case s of (v, _) \<Rightarrow> vars_ok r v" and b: "?b s = Inl s'"
    obtain v y v' y' where s: "s = (v, y)" "s' = (v', y')" by fastforce
    have body: "run_state (run_body dbg r origin v) y = (Inl v', y')"
      using b s by (simp add: loop_body_Inl_iff)
    have ok: "vars_ok r v" using I s by simp
    then have "?c (?h s) = Inl (?h s')"
      using run_body_borrowed [of v dbg r origin y] body by (simp add: s vars_ok_def loop_body_Inl_iff)
    then have "iterate ?c (Suc 0) (?h s) = Inl (?h s')" by simp
    then show "(case s' of (v, _) \<Rightarrow> vars_ok r v) \<and> (\<exists>n. iterate ?c (Suc n) (?h s) = Inl (?h s'))"
      using vars_ok_next [OF ok body] s by blast
  next
    fix s q
    assume I: "case s of (v, _) \<Rightarrow> vars_ok r v" and b: "?b s = Inr q"
    obtain v y e y' where s: "s = (v, y)" "q = (e, y')" by fastforce
    have body: "run_state (run_body dbg r origin v) y = (Inr e, y')"
      using b s by (simp add: loop_body_Inr_iff)
    have "lv_attempt v \<noteq> 0" using I s by (simp add: vars_ok_def)
    then have "?c (?h s) = Inr (map_prod (map_sum id (map_prod id WaitRef)) id q)"
      using run_body_borrowed [of v dbg r origin y] body
      by (cases e) (auto simp: s loop_body_Inr_iff split: prod.split)
    then have "iterate ?c (Suc 0) (?h s) = Inr (map_prod (map_sum id (map_prod id WaitRef)) id q)" by simp
    then show "\<exists>n qa. iterate ?c n (?h s) = Inr qa \<and>
        id qa = map_prod (map_sum id (map_prod id WaitRef)) id q" by (metis id_apply)
  qed simp
  moreover have "borrow_vars (loop_start r) = loop_start (borrowed r)"
    by (simp add: borrow_vars_def loop_start_def)
  ultimately show ?thesis
    using run_eq [of r x origin x0 dbg] run_eq [of "borrowed r" x origin x0 dbg] now
    by (simp add: state_loop_def option.map_id)
qed

lemma call_borrowed:
  "call dbg (borrowed r) x = call dbg r x"
  "call_with_stats dbg (with_stats (borrowed r)) x = call_with_stats dbg (with_stats r) x"
  by (cases "run dbg r x"; cases "fst (the (run dbg r x))";
      auto simp: call_def call_with_stats_def with_stats_def run_borrowed)+

lemma constructors_total:
  "policy_new classify = Inr \<lparr>rp_stop = StopAfterAttempts 3, rp_wait = exponential (from_millis 100),
     rp_classifier = default_decide classify, rp_timeout = None\<rparr>"
  "retry_new system classify f = Inr (from_parts system (OpFn f) (default_decide classify)
     (StopAfterAttempts 3) (exponential (from_millis 100)) None)"
  "retry_async system' classify g = Inr (async_from_parts system' (OpFn g) (default_decide classify)
     (StopAfterAttempts 3) (exponential (from_millis 100)) None)"
  by (simp_all add: policy_new_def retry_new_def retry_async_def from_op_def async_from_op_def
      attempts_def POLICY_DEFAULT_MAX_ATTEMPTS_def POLICY_DEFAULT_INITIAL_WAIT_def
      DEFAULT_MAX_ATTEMPTS_def DEFAULT_INITIAL_WAIT_def ASYNC_DEFAULT_MAX_ATTEMPTS_def
      ASYNC_DEFAULT_INITIAL_WAIT_def word_le_nat_alt)

text \<open>
  C18: \<open>RetryPolicy::new().retry(op)\<close> behaves as \<open>retry(op)\<close>: neither constructor panics, and
  on every clock the two return the same result with the same statistics and the same
  effects, though one borrows its strategies and the other owns them.
\<close>

theorem default_policy_is_default_retry:
  "\<exists>p r. policy_new classify = Inr p \<and> retry_new system classify f = Inr r
     \<and> call_with_stats dbg (with_stats (set_clock (policy_retry system p f) c)) x =
       call_with_stats dbg (with_stats (set_clock r c)) x"
proof -
  let ?p = "\<lparr>rp_stop = StopAfterAttempts 3, rp_wait = exponential (from_millis 100),
     rp_classifier = default_decide classify, rp_timeout = None\<rparr>"
  let ?r = "from_parts system (OpFn f) (default_decide classify)
     (StopAfterAttempts 3) (exponential (from_millis 100)) None"
  have "set_clock (policy_retry system ?p f) c = borrowed (set_clock ?r c)"
    by (simp add: policy_retry_def builder_defs borrowed_def)
  then have "call_with_stats dbg (with_stats (set_clock (policy_retry system ?p f) c)) x =
      call_with_stats dbg (with_stats (set_clock ?r c)) x"
    by (simp add: call_borrowed)
  then show ?thesis
    by (intro exI [of _ ?p] exI [of _ ?r] conjI) (rule constructors_total)+
qed

text \<open>
  Boxing a policy changes nothing a caller can observe: the same result and the same
  effects for every operation and clock.
\<close>

theorem boxed_policy_behaves_the_same:
  "call dbg (set_clock (policy_retry system (boxed p) f) c) x =
     call dbg (set_clock (policy_retry system p f) c) x
   \<and> call_with_stats dbg (with_stats (set_clock (policy_retry system (boxed_local p) f) c)) x =
     call_with_stats dbg (with_stats (set_clock (policy_retry system p f) c)) x"
proof -
  have "set_clock (policy_retry system (boxed p) f) c = borrowed (set_clock (policy_retry system p f) c)"
    and "set_clock (policy_retry system (boxed_local p) f) c =
         borrowed (set_clock (policy_retry system p f) c)"
    by (simp_all add: policy_retry_def builder_defs borrowed_def boxed_def boxed_local_def)
  then show ?thesis by (simp add: call_borrowed)
qed

subsection \<open>The default retry on failing operations\<close>

definition failing_retry ::
    "(nat \<Rightarrow> ('t, 'e) result) \<Rightarrow> (virtual_clock, ('t, 'e) result, 't, 'e) sync_retry" where
  "failing_retry f =
     set_clock (from_parts () (OpFn (\<lambda>st. State_Monad.return (f (unat (st_attempt st)))))
       (default_decide classify_result) (StopAfterAttempts 3) (exponential (from_millis 100)) None)
     virtual_sync_clock"

lemma failing_retry_simps [simp]:
  "rt_op (failing_retry f) = OpFn (\<lambda>st. State_Monad.return (f (unat (st_attempt st))))"
  "rt_classifier (failing_retry f) = default_decide classify_result"
  "rt_stop (failing_retry f) = StopAfterAttempts 3"
  "rt_wait (failing_retry f) = exponential (from_millis 100)"
  "rt_clock (failing_retry f) = virtual_sync_clock" "rt_hooks (failing_retry f) = execution_hooks_new"
  "rt_timeout (failing_retry f) = None"
  by (simp_all add: failing_retry_def builder_defs)

lemma failing_body:
  fixes f :: "nat \<Rightarrow> ('t, 'e) result"
  assumes "lv_attempt v \<noteq> 0" and err: "is_err (f (unat (lv_attempt v)))"
    and w: "lv_wait v = exponential (from_millis 100)"
  shows "run_state (run_body dbg (failing_retry f) duration_zero v) x =
    (if 3 \<le> unat (lv_attempt v)
     then (Inr (Inr ((Err (Error_Exhausted (f (unat (lv_attempt v)))),
             stats_for (progress_of v (vc_now x)) Exhausted), lv_wait v)), x)
     else (let d = duration_of (100000000 * 2 ^ (unat (lv_attempt v) - 1))
           in (Inl (loop_next v d (lv_wait v)), record_wait d x)))"
proof -
  let ?d = "duration_of (100000000 * 2 ^ (unat (lv_attempt v) - 1))"
  have sub: "saturating_sub d duration_zero = d" for d by (simp add: dur_simps)
  obtain e where e: "f (unat (lv_attempt v)) = Err e" using err by (cases "f (unat (lv_attempt v))") auto
  have n: "as_nanos (from_millis 100) < 2 ^ 53" by (simp add: dur_simps)
  have wait: "run_state (next_wait (lv_wait v) (attempt_state_of v (vc_now x))) x = (Inr (?d, lv_wait v), x)"
    unfolding w next_wait_doubles [OF n] by (simp add: from_millis.rep_eq)
  have p: "pg_attempt (progress_of v (vc_now x)) \<noteq> 0" using assms(1) by simp
  define s :: "panic + ('t, 'e, ('t, 'e) result) step_result \<times> virtual_clock wait_strategy"
    where "s = (if 3 \<le> unat (lv_attempt v)
     then Inr (Done (Err (Error_Exhausted (f (unat (lv_attempt v)))))
            (stats_for (progress_of v (vc_now x)) Exhausted), lv_wait v)
     else Inr (Continue ?d (saturating_add (lv_total_wait v) ?d), lv_wait v))"
  have s: "run_state (step dbg (progress_of v (vc_now x)) (f (unat (lv_attempt v)))
      (default_decide classify_result) (StopAfterAttempts 3) (lv_wait v) None execution_hooks_new) x =
    (s, x)"
    by (simp add: run_step [OF p] Let_def default_decide_def classify_result_def e wait s_def
        timed_out_def clamp_delay_def word_le_nat_alt)
  have nz: "?d \<noteq> duration_zero"
    by (simp add: dur_simps)
  have "run_state (run_body dbg (failing_retry f) duration_zero v) x =
    (case s of
       Inl p \<Rightarrow> (Inr (Inl p), x)
     | Inr (Done res stats, w) \<Rightarrow> (Inr (Inr ((res, stats), w)), x)
     | Inr (Continue delay running, w) \<Rightarrow>
         (Inl \<lparr>lv_attempt = u32_saturating_add (lv_attempt v) 1, lv_previous_delay = Some delay,
            lv_total_wait = running, lv_wait = w\<rparr>, sleep_world (rt_clock (failing_retry f)) delay x))"
    using assms(1) s run_body_step [of v "failing_retry f" x "vc_now x" x duration_zero
      "f (unat (lv_attempt v))" x "vc_now x" x dbg s x]
    by (simp add: sub)
  then show ?thesis
    by (simp add: s_def Let_def loop_next_def sleep_world_def nz [unfolded One_nat_def])
qed

lemma failing_run:
  fixes f :: "nat \<Rightarrow> ('t, 'e) result"
  assumes err: "is_err (f 1)" "is_err (f 2)" "is_err (f 3)"
    and v2: "v2 = loop_next (loop_start (failing_retry f)) (from_millis 100)
      (exponential (from_millis 100))"
    and v3: "v3 = loop_next v2 (from_millis 200) (exponential (from_millis 100))"
    and x2: "x2 = record_wait (from_millis 100) virtual_clock_new"
    and x3: "x3 = record_wait (from_millis 200) x2"
  shows "run dbg (failing_retry f) virtual_clock_new = Some (Inr ((Err (Error_Exhausted (f 3)),
      stats_for (progress_of v3 (vc_now x3)) Exhausted), exponential (from_millis 100)), x3)"
proof -
  let ?body = "run_body dbg (failing_retry f) duration_zero"
  define v1 where "v1 = loop_start (failing_retry f)"
  have add: "u32_saturating_add 1 1 = 2" "u32_saturating_add 2 1 = 3"
    by (simp_all add: u32_saturating_add_def)
  have a: "lv_attempt v1 = 1" "lv_attempt v2 = 2" "lv_attempt v3 = 3"
      "lv_wait v1 = exponential (from_millis 100)" "lv_wait v2 = exponential (from_millis 100)"
      "lv_wait v3 = exponential (from_millis 100)"
    by (simp_all add: v1_def v2 v3 add)
  have d: "duration_of (100000000 * 2 ^ (unat (1 :: u32) - 1)) = from_millis 100"
      "duration_of (100000000 * 2 ^ (unat (2 :: u32) - 1)) = from_millis 200"
    by (simp_all add: dur_simps)
  have b1: "run_state (?body v1) virtual_clock_new = (Inl v2, x2)"
    using failing_body [of v1 f dbg virtual_clock_new] err(1) d(1) a
    by (simp add: v1_def v2 x2 Let_def)
  have b2: "run_state (?body v2) x2 = (Inl v3, x3)"
    using failing_body [of v2 f dbg x2] err(2) d(2) a by (simp add: v3 x3 Let_def)
  have b3: "run_state (?body v3) x3 = (Inr (Inr ((Err (Error_Exhausted (f 3)),
      stats_for (progress_of v3 (vc_now x3)) Exhausted), exponential (from_millis 100))), x3)"
    using failing_body [of v3 f dbg x3] err(3) a by simp
  have now: "run_state (ck_now (rt_clock (failing_retry f))) virtual_clock_new =
      (duration_zero, virtual_clock_new)"
    by (simp add: virtual_clock_new_def)
  show ?thesis
    unfolding run_eq [OF now] v1_def [symmetric]
    by (simp only: state_loop_step [where body = ?body, OF b1]
        state_loop_step [where body = ?body, OF b2] state_loop_exit [where body = ?body, OF b3])
qed

text \<open>
  \<open>retry(op)\<close> with its defaults, on an operation that fails three times: three attempts
  100 and 200 milliseconds apart, and then the third outcome as the payload of an exhausted
  error, with statistics that say so.
\<close>

theorem default_retry_on_failures:
  assumes "is_err (f 1)" and "is_err (f 2)" and "is_err (f 3)"
  shows "\<exists>r. retry_new () classify_result (\<lambda>st. State_Monad.return (f (unat (st_attempt st)))) = Inr r
     \<and> call_with_stats dbg (with_stats (set_clock r virtual_sync_clock)) virtual_clock_new =
       Some (Inr (Err (Error_Exhausted (f 3)),
               \<lparr>rs_attempts = 3, rs_total_elapsed = from_millis 300, rs_total_wait = from_millis 300,
                rs_stop_reason = Exhausted\<rparr>),
             \<lparr>vc_now = from_millis 300, vc_waits = [from_millis 100, from_millis 200]\<rparr>)"
proof -
  define v2 where "v2 = loop_next (loop_start (failing_retry f)) (from_millis 100)
    (exponential (from_millis 100))"
  define v3 where "v3 = loop_next v2 (from_millis 200) (exponential (from_millis 100))"
  define x2 where "x2 = record_wait (from_millis 100) virtual_clock_new"
  define x3 where "x3 = record_wait (from_millis 200) x2"
  note run = failing_run [OF assms v2_def v3_def x2_def x3_def, of dbg]
  have "x3 = \<lparr>vc_now = from_millis 300, vc_waits = [from_millis 100, from_millis 200]\<rparr>"
    by (simp add: x3_def x2_def record_wait_def vc_advance_def virtual_clock_new_def Let_def)
      (simp add: dur_simps)
  moreover have "stats_for (progress_of v3 (vc_now x3)) Exhausted =
      \<lparr>rs_attempts = 3, rs_total_elapsed = from_millis 300, rs_total_wait = from_millis 300,
       rs_stop_reason = Exhausted\<rparr>"
    by (simp add: stats_for_def v3_def v2_def u32_saturating_add_def)
      (simp add: x3_def x2_def virtual_clock_new_def dur_simps)
  ultimately show ?thesis
    using run by (simp add: constructors_total call_with_stats_def with_stats_def failing_retry_def)
qed

theorem default_retry_on_failures_witness:
  "\<exists>r. retry_new () classify_result
       (\<lambda>st. State_Monad.return (Err (unat (st_attempt st)) :: (unit, nat) result)) = Inr r
     \<and> call_with_stats True (with_stats (set_clock r virtual_sync_clock)) virtual_clock_new =
       Some (Inr (Err (Error_Exhausted (Err 3)),
               \<lparr>rs_attempts = 3, rs_total_elapsed = from_millis 300, rs_total_wait = from_millis 300,
                rs_stop_reason = Exhausted\<rparr>),
             \<lparr>vc_now = from_millis 300, vc_waits = [from_millis 100, from_millis 200]\<rparr>)"
  using default_retry_on_failures [of "Err :: nat \<Rightarrow> (unit, nat) result" True] by simp

end
