(* ===== verification/World_View.thy ===== *)
theory World_View
  imports World_Lift Engine_Run
begin

text \<open>
  When one world contains another: a run in the larger world that does the same on the smaller
  one is, seen through \<open>get\<close>, the run in the smaller world. \<open>tracks\<close> says so of a computation,
  the locale \<open>tracking\<close> of the parts of a builder, and its \<open>run_tracks\<close> of the whole loop,
  which it leaves in the same way or not at all.
\<close>

definition tracks ::
    "('x \<Rightarrow> 'y) \<Rightarrow> ('b \<Rightarrow> 'a \<Rightarrow> bool) \<Rightarrow> ('x, 'b) state \<Rightarrow> ('y, 'a) state \<Rightarrow> bool" where
  "tracks get R m' m \<longleftrightarrow>
     (\<forall>x. rel_prod R (\<lambda>x' y. get x' = y) (run_state m' x) (run_state m (get x)))"

lemma tracks_return: "R a' a \<Longrightarrow> tracks get R (State_Monad.return a') (State_Monad.return a)"
  by (simp add: tracks_def)

lemma tracks_bind:
  assumes m: "tracks get S m' m" and f: "\<And>a' a. S a' a \<Longrightarrow> tracks get R (f' a') (f a)"
  shows "tracks get R (State_Monad.bind m' f') (State_Monad.bind m f)"
  unfolding tracks_def
proof
  fix x
  obtain a' x' where m': "run_state m' x = (a', x')" by fastforce
  obtain a where a: "run_state m (get x) = (a, get x')" "S a' a"
    using m m' by (metis (mono_tags, lifting) tracks_def rel_prod_conv surj_pair case_prod_conv)
  have "tracks get R (f' a') (f a)" by (rule f) fact
  then show "rel_prod R (\<lambda>x' y. get x' = y) (run_state (State_Monad.bind m' f') x)
      (run_state (State_Monad.bind m f) (get x))"
    using m' a by (simp add: tracks_def)
qed

text \<open>
  What a strategy taken to the larger world by \<open>emb\<close> answers with, against what the strategy does.
\<close>

definition lifted_answer ::
    "('y wait_strategy \<Rightarrow> 'x wait_strategy) \<Rightarrow> panic + 'b \<times> 'x wait_strategy \<Rightarrow>
     panic + 'b \<times> 'y wait_strategy \<Rightarrow> bool" where
  "lifted_answer emb = rel_sum (=) (rel_prod (=) (\<lambda>w' w. w' = emb w))"

lemma lifted_answer_simps [simp]:
  "lifted_answer emb (Inl p) a \<longleftrightarrow> a = Inl p"
  "lifted_answer emb (Inr (b, w')) a \<longleftrightarrow> (\<exists>w. a = Inr (b, w) \<and> w' = emb w)"
  by (cases a; auto simp: lifted_answer_def)+

text \<open>The loop's variables, with the strategy lifted.\<close>

definition lift_vars ::
    "('y wait_strategy \<Rightarrow> 'x wait_strategy) \<Rightarrow> 'y loop_vars \<Rightarrow> 'x loop_vars" where
  "lift_vars emb v = \<lparr>lv_attempt = lv_attempt v, lv_previous_delay = lv_previous_delay v,
     lv_total_wait = lv_total_wait v, lv_wait = emb (lv_wait v)\<rparr>"

lemma lift_vars_simps:
  "lv_attempt (lift_vars emb v) = lv_attempt v"
  "lv_previous_delay (lift_vars emb v) = lv_previous_delay v"
  "lv_total_wait (lift_vars emb v) = lv_total_wait v"
  "lv_wait (lift_vars emb v) = emb (lv_wait v)"
  by (simp_all add: lift_vars_def)

text \<open>A computation that leaves the smaller world alone tracks doing nothing.\<close>

lemma tracks_silent:
  "(\<And>x. get (snd (run_state m' x)) = get x) \<Longrightarrow> tracks get (=) m' (State_Monad.return ())"
  by (simp add: tracks_def rel_prod_sel)

locale world_view =
  fixes get :: "'x \<Rightarrow> 'y" and put :: "'y \<Rightarrow> 'x \<Rightarrow> 'x"
  assumes get_put: "get (put y x) = y"
begin

lemma tracks_lift: "tracks get (=) (lift_state get put m) m"
  by (simp add: tracks_def run_lift_state get_put rel_prod_sel)

lemma tracks_op: "tracks get (=) (call_op (lift_op get put oper) st) (call_op oper st)"
  by (cases oper) (simp_all add: tracks_lift)

lemma tracks_hook: "tracks get (=) (hook_call (lift_hook get put h) v) (hook_call h v)"
proof (induction h)
  case (HookChain h k)
  show ?case
    unfolding lift_hook.simps hook_call.simps
    by (rule tracks_bind [OF HookChain.IH(1)]) (rule HookChain.IH(2))
next
  case (HookFn f)
  show ?case unfolding lift_hook.simps hook_call.simps by (rule tracks_lift)
next
  case HookUnit
  show ?case unfolding lift_hook.simps hook_call.simps by (rule tracks_return) simp
qed

lemma tracks_stop: "tracks get (=) (should_stop (lift_stop get put s) st) (should_stop s st)"
proof (induction s)
  case (StopAny l r)
  show ?case by (auto intro!: tracks_bind [OF StopAny.IH(1)] tracks_bind [OF StopAny.IH(2)] tracks_return)
next
  case (StopAll l r)
  show ?case by (auto intro!: tracks_bind [OF StopAll.IH(1)] tracks_bind [OF StopAll.IH(2)] tracks_return)
qed (auto intro!: tracks_return tracks_lift)

lemma tracks_wait:
  "tracks get (lifted_answer (lift_wait get put)) (next_wait (lift_wait get put w) st) (next_wait w st)"
proof (induction w)
  case (WaitCapped w b)
  show ?case
    by (auto intro!: tracks_bind [OF WaitCapped.IH] tracks_return
        split: sum.splits)
next
  case (WaitCombine l r)
  show ?case
    by (auto intro!: tracks_bind [OF WaitCombine.IH(1)] tracks_bind [OF WaitCombine.IH(2)] tracks_return
        split: sum.splits)
next
  case (WaitChain l r n)
  show ?case
    by (auto intro!: tracks_bind [OF WaitChain.IH(1)] tracks_bind [OF WaitChain.IH(2)] tracks_return
        split: sum.splits)
next
  case (Jittered w j)
  show ?case
    by (auto intro!: tracks_bind [OF Jittered.IH] tracks_return
        split: sum.splits prod.splits)
next
  case (WaitRef w)
  show ?case
    by (auto intro!: tracks_bind [OF WaitRef.IH] tracks_return
        split: sum.splits)
next
  case (WaitCustom f)
  show ?case by (auto intro!: tracks_bind [OF tracks_lift] tracks_return )
qed (auto intro!: tracks_return simp: Let_def split: sum.split)

end

subsection \<open>Two builders, part by part\<close>

locale tracking =
  fixes get :: "'x \<Rightarrow> 'y" and emb :: "'y wait_strategy \<Rightarrow> 'x wait_strategy"
    and r' :: "('x, 'o, 'r, 'a) sync_retry" and r :: "('y, 'o, 'r, 'a) sync_retry"
  assumes oper: "tracks get (=) (call_op (rt_op r') st) (call_op (rt_op r) st)"
    and classifier: "tracks get (=) (rt_classifier r' oc) (rt_classifier r oc)"
    and stop: "tracks get (=) (should_stop (rt_stop r') st) (should_stop (rt_stop r) st)"
    and wait: "rt_wait r' = emb (rt_wait r)"
    and asked: "tracks get (lifted_answer emb) (next_wait (emb w) st) (next_wait w st)"
    and now: "tracks get (=) (ck_now (rt_clock r')) (ck_now (rt_clock r))"
    and sleep: "tracks get (=) (ck_wait (rt_clock r') d) (ck_wait (rt_clock r) d)"
    and before: "tracks get (=) (hook_call (hk_before_attempt (rt_hooks r')) b)
                                (hook_call (hk_before_attempt (rt_hooks r)) b)"
    and after: "tracks get (=) (hook_call (hk_after_attempt (rt_hooks r')) att)
                               (hook_call (hk_after_attempt (rt_hooks r)) att)"
    and on_exit: "tracks get (=) (hook_call (hk_on_exit (rt_hooks r')) ev)
                                 (hook_call (hk_on_exit (rt_hooks r)) ev)"
    and timeout: "rt_timeout r' = rt_timeout r"
begin

lemma step_tracks:
  "tracks get (lifted_answer emb)
     (step dbg p oc (rt_classifier r') (rt_stop r') (emb w) (rt_timeout r') (rt_hooks r'))
     (step dbg p oc (rt_classifier r) (rt_stop r) w (rt_timeout r) (rt_hooks r))"
  unfolding step_def Let_def timeout
  by (auto intro!: tracks_bind [OF after] tracks_bind [OF classifier] tracks_bind [OF on_exit]
      tracks_bind [OF stop] tracks_bind [OF asked] tracks_return
      split: sum.splits verdict.split)

lemma elapsed_tracks:
  "tracks get (=) (elapsed_since (rt_clock r') origin) (elapsed_since (rt_clock r) origin)"
  unfolding elapsed_since_def by (auto intro!: tracks_bind [OF now] tracks_return)

lemma run_body_tracks:
  "tracks get (rel_sum (\<lambda>v' v. v' = lift_vars emb v) (lifted_answer emb))
     (run_body dbg r' origin (lift_vars emb v)) (run_body dbg r origin v)"
  unfolding run_body_def Let_def lift_vars_simps
  by (auto intro!: tracks_bind [OF elapsed_tracks] tracks_bind [OF before] tracks_bind [OF oper]
      tracks_bind [OF step_tracks] tracks_bind [OF sleep] tracks_return
      simp: lift_vars_def split: sum.splits step_result.split)

text \<open>The loops leave together, with the same answer, in worlds that look the same.\<close>

lemma run_tracks:
  "rel_option (rel_prod (lifted_answer emb) (\<lambda>x' y. get x' = y)) (run dbg r' x) (run dbg r (get x))"
proof -
  obtain origin x0 where now': "run_state (ck_now (rt_clock r')) x = (origin, x0)" by fastforce
  then have now_get: "run_state (ck_now (rt_clock r)) (get x) = (origin, get x0)"
    using now by (metis (mono_tags, lifting) tracks_def rel_prod_conv case_prod_conv surj_pair)
  show ?thesis
    unfolding run_eq [OF now'] run_eq [OF now_get] state_loop_def
  proof (rule rust_loop_lockstep
      [where R = "\<lambda>s t. fst s = lift_vars emb (fst t) \<and> get (snd s) = snd t"])
    show "fst (loop_start r', x0) = lift_vars emb (fst (loop_start r, get x0))
        \<and> get (snd (loop_start r', x0)) = snd (loop_start r, get x0)"
      by (simp add: loop_start_def lift_vars_def wait)
  next
    fix s t
    assume R: "fst s = lift_vars emb (fst t) \<and> get (snd s) = snd t"
    show "rel_sum (\<lambda>s t. fst s = lift_vars emb (fst t) \<and> get (snd s) = snd t)
        (rel_prod (lifted_answer emb) (\<lambda>x' y. get x' = y))
        (loop_body (run_body dbg r' origin) s) (loop_body (run_body dbg r origin) t)"
      using R run_body_tracks [of dbg origin "fst t", unfolded tracks_def, rule_format, of "snd s"]
      by (cases s; cases t)
        (auto simp: loop_body_def rel_prod_conv elim!: rel_sum.cases split: prod.splits sum.splits)
  qed
qed

end

end
