(* ===== verification/Observers.thy ===== *)
theory Observers
  imports World_View Engine_Trace
begin

text \<open>
  Hooks that only record: whatever they write down, outside of what the user's own callbacks
  can see, the run is the one without them.
\<close>

lemma tracks_extra_hook:
  assumes "tracks get (=) (hook_call h' v) (hook_call h v)"
    and "\<And>x. get (snd (run_state (k v) x)) = get x"
  shows "tracks get (=) (hook_call (HookChain h' (HookFn k)) v) (hook_call h v)"
  using assms by (auto simp: tracks_def rel_prod_sel case_prod_beta)

definition observed ::
    "('y, 'o, 'r, 'a) sync_retry \<Rightarrow> (retry_state \<Rightarrow> ('y \<times> 'l, unit) state) \<Rightarrow>
     ('o attempt_state \<Rightarrow> ('y \<times> 'l, unit) state) \<Rightarrow> (('r, 'a, 'o) exit \<Rightarrow> ('y \<times> 'l, unit) state) \<Rightarrow>
     ('y \<times> 'l, 'o, 'r, 'a) sync_retry" where
  "observed r f g h =
     on_exit (after_attempt (before_attempt (lift_retry fst put_fst r) f) g) h"

interpretation pair_view: world_view fst put_fst
  by unfold_locales (simp add: put_fst_def)

text \<open>A hook is silent when it leaves the user's part of the world alone.\<close>

definition silent :: "('v \<Rightarrow> ('y \<times> 'l, unit) state) \<Rightarrow> bool" where
  "silent f \<longleftrightarrow> (\<forall>v x. fst (snd (run_state (f v) x)) = fst x)"

lemma observed_tracking:
  assumes "silent f" and "silent g" and "silent h"
  shows "tracking fst (lift_wait fst put_fst) (observed r f g h) r"
  using assms
  by (intro tracking.intro)
    (simp_all only: observed_def builder_defs lift_retry_simps retry.select_convs execution_hooks_simps
      pair_view.tracks_op pair_view.tracks_hook pair_view.tracks_lift pair_view.tracks_stop pair_view.tracks_wait
      tracks_extra_hook silent_def)

lemma silent_log [simp]: "silent (\<lambda>v. log_event (f v))"
  by (simp add: silent_def log_event_def case_prod_beta)

interpretation log_view: tracking fst "lift_wait fst put_fst" "logged_retry r" r for r
  using observed_tracking [OF silent_log silent_log silent_log] by (simp add: observed_def logged_retry_def)

lemma seen_through:
  "rel_option (rel_prod (lifted_answer emb) (\<lambda>x' y. get x' = y)) a b \<Longrightarrow>
   map_option (\<lambda>(e, x'). (map_sum id fst e, get x')) a = map_option (\<lambda>(e, y'). (map_sum id fst e, y')) b"
  by (cases a; cases b) (auto simp: lifted_answer_def rel_prod_sel elim!: rel_sum.cases)

text \<open>
  C6: hooks that only record do not interfere: whatever they write beside the user's world, the
  run returns the same result with the same statistics, leaves the user's world as it would
  have been left without them, and returns exactly when it would have returned.
\<close>

theorem recording_hooks_do_not_interfere:
  assumes "silent f" and "silent g" and "silent h"
  shows "map_option (\<lambda>(e, x'). (map_sum id fst e, fst x')) (run dbg (observed r f g h) (y, l)) =
         map_option (\<lambda>(e, y'). (map_sum id fst e, y')) (run dbg r y)"
  using seen_through [OF tracking.run_tracks [OF observed_tracking [OF assms], of dbg r "(y, l)"]]
  by simp

theorem recording_hooks_do_not_interfere_witness:
  "map_option (\<lambda>(e, x'). (map_sum id fst e, fst x'))
     (run True (observed (sample_retry Err (StopAfterAttempts 3)) (\<lambda>b. log_event (st_attempt b))
        (\<lambda>a. log_event (as_attempt a)) (\<lambda>ev. log_event (exit_attempt ev))) (virtual_clock_new, [])) =
   map_option (\<lambda>(e, y'). (map_sum id fst e, y'))
     (run True (sample_retry Err (StopAfterAttempts 3)) virtual_clock_new)"
  by (rule recording_hooks_do_not_interfere) simp_all

text \<open>The log of a run is the log of the run that is being observed.\<close>

lemma logged_run_is_the_run:
  "map_option (\<lambda>(e, x'). (map_sum id fst e, fst x')) (run dbg (logged_retry r) (y, l)) =
   map_option (\<lambda>(e, y'). (map_sum id fst e, y')) (run dbg r y)"
  using seen_through [OF log_view.run_tracks [of dbg r "(y, l)"]] by simp

end
