(* ===== verification/Virtual_Async.thy ===== *)
theory Virtual_Async
  imports Async_Parity
begin

text \<open>
  One configuration, both engines, on \<open>VirtualClock\<close>: what \<open>tests/parity.rs\<close> runs side by
  side. The async operation does what the sync one does, when it is called or when its future is
  first polled, and is then ready, and the virtual clock waits in virtual time either way.
\<close>

primrec async_op :: "('x, 'o) retry_op \<Rightarrow> ('x, ('x, 'o) future) retry_op" where
  "async_op (OpFn f) = OpFn (\<lambda>st. map_state ready_future (f st))"
| "async_op (StatelessOp f) = StatelessOp (map_state ready_future f)"

definition async_of :: "('x, 'o, 'r, 'a) sync_retry \<Rightarrow> 'x async_clock \<Rightarrow> ('x, 'o, 'r, 'a) filled_async_retry" where
  "async_of r c =
     \<lparr>ac_op = async_op (rt_op r), ac_classifier = rt_classifier r, ac_stop = rt_stop r,
      ac_wait = rt_wait r, ac_clock = c, ac_hooks = rt_hooks r, ac_timeout = rt_timeout r\<rparr>"

lemma blocking_async_op: "blocking_op idle (async_op oper) = oper"
  by (cases oper) (auto simp: blocking_def fun_eq_iff run_map_state split: prod.split intro!: state_ext)

lemma blocking_virtual_clock: "blocking_clock idle virtual_async_clock = virtual_sync_clock"
proof -
  have "blocking idle (virtual_wait_async d) = virtual_wait d" for d :: duration
    by (rule state_ext) (simp add: blocking_def virtual_wait_async_def block_on_virtual_wait)
  then show ?thesis by (simp add: blocking_clock_def virtual_sync_clock_def)
qed

text \<open>
  The same operation as an \<open>async\<close> block: calling it does nothing, its body is run by the first poll.
\<close>

definition async_block :: "('x, 'o) state \<Rightarrow> ('x, 'o) future" where
  "async_block m = future_of (\<lambda>_. do { v \<leftarrow> m; State_Monad.return (Ready v, ()) }) ()"

primrec async_block_op :: "('x, 'o) retry_op \<Rightarrow> ('x, ('x, 'o) future) retry_op" where
  "async_block_op (OpFn f) = OpFn (\<lambda>st. State_Monad.return (async_block (f st)))"
| "async_block_op (StatelessOp f) = StatelessOp (State_Monad.return (async_block f))"

definition async_block_of :: "('x, 'o, 'r, 'a) sync_retry \<Rightarrow> 'x async_clock \<Rightarrow> ('x, 'o, 'r, 'a) filled_async_retry" where
  "async_block_of r c = (async_of r c)\<lparr>ac_op := async_block_op (rt_op r)\<rparr>"

lemma block_on_async_block: "block_on idle (async_block m) x = Some (run_state m x)"
proof -
  obtain v x' where m: "run_state m x = (v, x')" by fastforce
  have "run_state (fut_poll (async_block m)) x = ((Ready v, async_block m), x')"
    by (simp add: async_block_def run_future_of m)
  from block_on_ready [OF this, of idle] show ?thesis by (simp add: m)
qed

lemma blocking_async_block: "blocking idle (State_Monad.return (async_block m)) = m"
  by (cases m) (simp add: blocking_def block_on_async_block)

lemma blocking_async_block_op: "blocking_op idle (async_block_op oper) = oper"
  by (cases oper) (simp_all add: blocking_async_block)

lemma virtual_async_parity:
  "map_option (\<lambda>((res, _), x'). (res, x'))
     (async_block_on dbg idle (into_run (async_of r virtual_async_clock)) x) =
   map_option (\<lambda>(e, x'). (map_sum id fst e, x')) (run dbg (set_clock r virtual_sync_clock) x)"
proof -
  have "blocking_retry idle (async_of r virtual_async_clock) = set_clock r virtual_sync_clock"
    by (simp add: blocking_retry_def async_of_def set_clock_def blocking_async_op blocking_virtual_clock)
  moreover have "\<forall>st. completes idle (call_op (ac_op (async_of r virtual_async_clock)) st)"
    by (cases "rt_op r") (simp_all add: completes_def async_of_def run_map_state case_prod_beta)
  moreover have "\<forall>d. completes idle (ck_wait_async (ac_clock (async_of r virtual_async_clock)) d)"
    by (simp add: completes_def async_of_def virtual_wait_async_def block_on_virtual_wait)
  ultimately show ?thesis using async_parity [of idle "async_of r virtual_async_clock" dbg x] by simp
qed

lemma virtual_async_block_parity:
  "map_option (\<lambda>((res, _), x'). (res, x'))
     (async_block_on dbg idle (into_run (async_block_of r virtual_async_clock)) x) =
   map_option (\<lambda>(e, x'). (map_sum id fst e, x')) (run dbg (set_clock r virtual_sync_clock) x)"
proof -
  have "blocking_retry idle (async_block_of r virtual_async_clock) = set_clock r virtual_sync_clock"
    by (simp add: blocking_retry_def async_block_of_def async_of_def set_clock_def blocking_async_block_op
        blocking_virtual_clock)
  moreover have "\<forall>st. completes idle (call_op (ac_op (async_block_of r virtual_async_clock)) st)"
    by (cases "rt_op r") (simp_all add: completes_def async_block_of_def block_on_async_block)
  moreover have "\<forall>d. completes idle (ck_wait_async (ac_clock (async_block_of r virtual_async_clock)) d)"
    by (simp add: completes_def async_block_of_def async_of_def virtual_wait_async_def block_on_virtual_wait)
  ultimately show ?thesis using async_parity [of idle "async_block_of r virtual_async_clock" dbg x] by simp
qed

text \<open>
  C11: on the virtual clock an async retry, driven to completion, is the sync retry of the
  same configuration: result, statistics, the time that passed and the waits recorded, the
  captured variables, and whether it returns at all. It is whether the operation acts when it is
  called and returns a future that is ready, or is an \<open>async\<close> block that acts when it is first polled.
\<close>

theorem virtual_async_retry_is_sync_retry:
  "map_option (\<lambda>((res, _), x'). (res, x'))
     (async_block_on dbg idle (into_run (async_of r virtual_async_clock)) x) =
   map_option (\<lambda>(e, x'). (map_sum id fst e, x')) (run dbg (set_clock r virtual_sync_clock) x)
   \<and> map_option (\<lambda>((res, _), x'). (res, x'))
     (async_block_on dbg idle (into_run (async_block_of r virtual_async_clock)) x) =
   map_option (\<lambda>(e, x'). (map_sum id fst e, x')) (run dbg (set_clock r virtual_sync_clock) x)"
  by (rule conjI [OF virtual_async_parity virtual_async_block_parity])

end
