(* ===== verification/Async_Wake.thy ===== *)
theory Async_Wake
  imports Virtual_Async
begin

text \<open>
  When \<open>AsyncRun::poll\<close> gives control back. A future that answers \<open>Pending\<close> has to have left the
  waker with something that will wake it; the engine's future leaves that to the futures inside,
  so it must answer \<open>Pending\<close> only right after one of them did, with nothing run in between. And
  it does not answer \<open>Pending\<close> of its own accord: over futures that are ready at once the first
  poll is the whole retry.
\<close>

subsection \<open>Pending\<close>

text \<open>A machine after some polls, each of them in a world of its own.\<close>

inductive polled ::
    "('i \<Rightarrow> 'x \<Rightarrow> (((panic + 'u poll) \<times> 'i) \<times> 'x) option) \<Rightarrow> 'i \<Rightarrow> 'i \<Rightarrow> bool" for poll_it i where
  polled_here: "polled poll_it i i"
| polled_again: "polled poll_it i j \<Longrightarrow> poll_it j x = Some ((Inr Pending, j'), x') \<Longrightarrow> polled poll_it i j'"

text \<open>
  The contract of \<open>Future::poll\<close>: a poll that answers \<open>Pending\<close> has arranged for a wake-up. What that
  is belongs to the executor and is any predicate \<open>W\<close> of the world: ``the waker is registered''.
\<close>

coinductive arms :: "('x \<Rightarrow> bool) \<Rightarrow> ('x, 'a) future \<Rightarrow> bool" for W where
  armsI: "(\<And>x fut' x'. run_state (fut_poll fut) x = ((Pending, fut'), x') \<Longrightarrow> W x' \<and> arms W fut') \<Longrightarrow>
     arms W fut"

inductive_simps arms_iff: "arms W fut"

lemma arms_pending: "arms W fut \<Longrightarrow> run_state (fut_poll fut) x = ((Pending, fut'), x') \<Longrightarrow> W x' \<and> arms W fut'"
  unfolding arms_iff [of W fut] by blast

lemma future_of_arms:
  assumes "\<And>s x s' x'. run_state (poll_fn s) x = ((Pending, s'), x') \<Longrightarrow> W x'"
  shows "arms W (future_of poll_fn s)"
proof (coinduction arbitrary: s)
  case arms
  then show ?case using assms by (fastforce simp: run_future_of split: prod.splits)
qed

text \<open>A machine that makes only such futures, and the one it is waiting for.\<close>

definition makes_arming :: "('x \<Rightarrow> bool) \<Rightarrow> ('x, 'o, 'r, 'a) async_run \<Rightarrow> bool" where
  "makes_arming W this \<longleftrightarrow> (\<forall>st x. arms W (fst (run_state (call_op (ar_op this) st) x)))
     \<and> (\<forall>d x. arms W (fst (run_state (ck_wait_async (ar_clock this) d) x)))"

definition armed_phase :: "('x \<Rightarrow> bool) \<Rightarrow> ('x, 'o) phase \<Rightarrow> bool" where
  "armed_phase W ph \<longleftrightarrow>
     (case ph of Polling fut \<Rightarrow> arms W fut | Sleeping fut \<Rightarrow> arms W fut | _ \<Rightarrow> True)"

lemma armed_phase_simps [simp]:
  "armed_phase W ReadyToStart" "armed_phase W Phase_Done"
  "armed_phase W (Polling fut) = arms W fut" "armed_phase W (Sleeping sleep) = arms W sleep"
  by (simp_all add: armed_phase_def)

definition arming_run :: "('x \<Rightarrow> bool) \<Rightarrow> ('x, 'o, 'r, 'a) async_run \<Rightarrow> bool" where
  "arming_run W this \<longleftrightarrow> makes_arming W this \<and> armed_phase W (ar_phase this)"

lemma makes_arming_update [simp]:
  "makes_arming W (this\<lparr>ar_phase := ph\<rparr>) = makes_arming W this"
  "makes_arming W (this\<lparr>ar_attempt := n\<rparr>) = makes_arming W this"
  "makes_arming W (this\<lparr>ar_wait := w\<rparr>) = makes_arming W this"
  "makes_arming W (this\<lparr>ar_previous_delay := d\<rparr>) = makes_arming W this"
  "makes_arming W (this\<lparr>ar_total_wait := t\<rparr>) = makes_arming W this"
  "makes_arming W (this\<lparr>ar_origin := o'\<rparr>) = makes_arming W this"
  by (simp_all add: makes_arming_def)

lemma arming_runE:
  assumes "arming_run W this"
  shows "run_state (call_op (ar_op this) st) y = (fut, y') \<Longrightarrow> arms W fut"
    and "run_state (ck_wait_async (ar_clock this) d) z = (sleep, z') \<Longrightarrow> arms W sleep"
    and "makes_arming W this"
proof -
  show "run_state (call_op (ar_op this) st) y = (fut, y') \<Longrightarrow> arms W fut"
    using assms unfolding arming_run_def makes_arming_def by (metis fst_conv)
  show "run_state (ck_wait_async (ar_clock this) d) z = (sleep, z') \<Longrightarrow> arms W sleep"
    using assms unfolding arming_run_def makes_arming_def by (metis fst_conv)
qed (use assms in \<open>simp add: arming_run_def\<close>)

lemma poll_body_arms:
  assumes I: "arming_run W this" and body: "run_state (poll_body dbg origin this) x = (out, x')"
  shows "case out of
      Inl this' \<Rightarrow> arming_run W this'
    | Inr (answer, this') \<Rightarrow> answer = Inr Pending \<longrightarrow> W x' \<and> arming_run W this'"
proof -
  note made = arming_runE [OF I]
  have "armed_phase W (ar_phase this)" using I by (simp add: arming_run_def)
  then show ?thesis
    using body
    by (auto simp: poll_body_def arming_run_def made Let_def dest: made(1,2) arms_pending
        split: phase.splits sum.splits prod.splits poll.splits step_result.splits if_splits)
qed

lemma async_poll_arms:
  fixes this :: "('x, 'o, 'r, 'a) async_run"
  assumes I: "arming_run W this" and poll: "async_poll dbg this x = Some ((Inr Pending, this'), x')"
  shows "W x' \<and> arming_run W this'"
proof -
  obtain t0 origin x0 where loop: "state_loop (poll_body dbg origin) t0 x0 = Some ((Inr Pending, this'), x')"
    and t0: "arming_run W t0"
  proof (cases "ar_origin this")
    case None
    obtain origin x0 where "run_state (ck_now (ar_clock this)) x = (origin, x0)" by fastforce
    then show thesis
      using poll I None
      by (intro that [of origin "this\<lparr>ar_origin := Some origin\<rparr>" x0]) (simp_all add: async_poll_def arming_run_def)
  next
    case (Some origin)
    then show thesis using poll I by (intro that [of origin this x]) (simp_all add: async_poll_def)
  qed
  let ?Q = "\<lambda>(e :: (panic + ('r, 'a, 'o) run_output poll) \<times> ('x, 'o, 'r, 'a) async_run) (y :: 'x).
    fst e = Inr Pending \<longrightarrow> W y \<and> arming_run W (snd e)"
  have "?Q (Inr Pending, this') x'"
  proof (rule state_loop_invariant [where I = "\<lambda>t _. arming_run W t" and Q = ?Q, OF loop t0])
    fix t t' :: "('x, 'o, 'r, 'a) async_run" and y y'
    assume "arming_run W t" "run_state (poll_body dbg origin t) y = (Inl t', y')"
    then show "arming_run W t'" using poll_body_arms [of W t dbg origin y "Inl t'" y'] by simp
  next
    fix t :: "('x, 'o, 'r, 'a) async_run" and y e y'
    assume "arming_run W t" "run_state (poll_body dbg origin t) y = (Inr e, y')"
    then show "?Q e y'" using poll_body_arms [of W t dbg origin y "Inr e" y'] by (simp add: case_prod_beta)
  qed
  then show ?thesis by simp
qed

lemma polled_arms:
  assumes "makes_arming W (into_run a)" and "polled (async_poll dbg) (into_run a) this"
  shows "arming_run W this"
  using assms(2)
proof (induction rule: polled.induct)
  case polled_here
  show ?case using assms(1) by (simp add: arming_run_def into_run_def)
next
  case (polled_again j x j' x')
  then show ?case using async_poll_arms [of W j dbg x j' x'] by simp
qed

text \<open>
  C13: no wake-up is lost: if the operation's futures and the clock's sleeps keep the contract of
  \<open>Future::poll\<close>, so that whenever they answer \<open>Pending\<close> a wake-up is arranged (\<open>W\<close>, in a world that
  the hooks, the classifier, the strategies and everything that runs between the polls may change
  as they like), then so does the retry future: whenever one of its polls answers \<open>Pending\<close>, a
  wake-up is arranged in the world the executor gets back.
\<close>

theorem no_wakeup_is_lost:
  assumes "\<forall>st y. arms W (fst (run_state (call_op (ac_op a) st) y))"
    and "\<forall>d y. arms W (fst (run_state (ck_wait_async (ac_clock a) d) y))"
    and "polled (async_poll dbg) (into_run a) this"
    and "async_poll dbg this x = Some ((Inr Pending, this'), x')"
  shows "W x'"
proof -
  have "makes_arming W (into_run a)" using assms(1,2) by (simp add: makes_arming_def into_run_def)
  from async_poll_arms [OF polled_arms [OF this assms(3)] assms(4)] show ?thesis by blast
qed

text \<open>
  An instance: a runtime whose world is the flag ``the waker is registered'', which the futures
  set when they answer \<open>Pending\<close> and every hook clears. The second poll is pending in a sleep.
\<close>

definition registering :: "'a \<Rightarrow> (bool, 'a) future" where
  "registering v = future_of (\<lambda>polled. if polled then State_Monad.return (Ready v, True)
     else State (\<lambda>_. ((Pending, True), True))) False"

definition registering_retry :: "(bool, (nat, nat) result, nat, nat) filled_async_retry" where
  "registering_retry =
     async_after_attempt (async_set_clock (async_from_parts ()
       (OpFn (\<lambda>_. State_Monad.return (registering (Err 7))))
       (default_decide classify_result) (StopAfterAttempts 3) (fixed (from_millis 10)) None)
       \<lparr>ck_now = State_Monad.return duration_zero,
        ck_wait_async = \<lambda>_. State_Monad.return (registering ())\<rparr>)
     (\<lambda>_. State (\<lambda>_. ((), False)))"

lemma registering_arms: "arms (\<lambda>x. x) (registering v)"
  unfolding registering_def by (rule future_of_arms) (auto split: if_splits)

lemma registering_retry_parts [simp]:
  "ac_op registering_retry = OpFn (\<lambda>_. State_Monad.return (registering (Err 7)))"
  "ck_now (ac_clock registering_retry) = State_Monad.return duration_zero"
  "ck_wait_async (ac_clock registering_retry) = (\<lambda>_. State_Monad.return (registering ()))"
  "ac_stop registering_retry = StopAfterAttempts 3" "ac_wait registering_retry = fixed (from_millis 10)"
  "ac_classifier registering_retry = default_decide classify_result" "ac_timeout registering_retry = None"
  "hk_before_attempt (ac_hooks registering_retry) = HookUnit"
  "hook_world (hk_after_attempt (ac_hooks registering_retry)) st x = False"
  by (simp_all add: registering_retry_def async_builder_defs execution_hooks_new_def chain_after_attempt_def)

lemma run_registering:
  "\<exists>fut'. run_state (fut_poll (registering v)) x = ((Pending, fut'), True)
     \<and> (\<forall>y. \<exists>fut''. run_state (fut_poll fut') y = ((Ready v, fut''), y))"
  by (simp add: registering_def run_future_of)

lemma registering_polls:
  "\<exists>this this' x. async_poll True (into_run registering_retry) False = Some ((Inr Pending, this), x)
     \<and> async_poll True this False = Some ((Inr Pending, this'), True)"
proof -
  let ?b = "poll_body True duration_zero"
  define t where "t = (into_run registering_retry)\<lparr>ar_origin := Some duration_zero\<rparr>"
  note parts = t_def into_run_def elapsed_since_def Let_def
  obtain fut where pend: "run_state (fut_poll (registering (Err 7))) False = ((Pending, fut), True)"
    and ready: "\<And>y. \<exists>fut''. run_state (fut_poll fut) y = ((Ready (Err (7::nat) :: (nat, nat) result), fut''), y)"
    using run_registering by metis
  obtain sf where sleep: "run_state (fut_poll (registering ())) False = ((Pending, sf), True)"
    using run_registering by metis
  have b1: "run_state (?b t) False = (Inl (t\<lparr>ar_phase := Polling (registering (Err 7))\<rparr>), False)"
    by (simp add: poll_body_def parts)
  let ?t2 = "t\<lparr>ar_phase := Polling fut\<rparr>"
  have b2: "run_state (?b (t\<lparr>ar_phase := Polling (registering (Err 7))\<rparr>)) False = (Inr (Inr Pending, ?t2), True)"
    by (simp add: poll_body_def pend)
  obtain t3 where b3: "run_state (?b ?t2) False = (Inl t3, False)" and t3: "ar_phase t3 = Sleeping (registering ())"
  proof -
    have "\<not> (3 :: u32) \<le> 1" by (simp add: word_le_nat_alt)
    moreover obtain fut'' where "run_state (fut_poll fut) False = ((Ready (Err 7), fut''), False)"
      using ready by blast
    ultimately show thesis
      by (intro that) (auto simp: poll_body_def parts run_step fixed_def default_decide_def
          classify_result_def step_state_def timed_out_def clamp_delay_def dur_simps)
  qed
  obtain t4 where b4: "run_state (?b t3) False = (Inr (Inr Pending, t4), True)"
    by (simp add: poll_body_def t3 sleep)
  have o: "ar_origin (into_run registering_retry) = None"
      "ck_now (ar_clock (into_run registering_retry)) = State_Monad.return duration_zero"
    by (simp_all add: into_run_def)
  have "async_poll True (into_run registering_retry) False = state_loop ?b t False"
    by (simp add: async_poll_def o t_def)
  also have "\<dots> = Some ((Inr Pending, ?t2), True)"
    by (simp only: state_loop_step [where body = ?b, OF b1] state_loop_exit [where body = ?b, OF b2])
  finally have "async_poll True (into_run registering_retry) False = Some ((Inr Pending, ?t2), True)" .
  moreover have "ar_origin ?t2 = Some duration_zero" by (simp add: t_def)
  then have "async_poll True ?t2 False = Some ((Inr Pending, t4), True)"
    by (simp only: async_poll_def option.case state_loop_step [where body = ?b, OF b3]
        state_loop_exit [where body = ?b, OF b4])
  ultimately show ?thesis by blast
qed

theorem no_wakeup_is_lost_witness:
  "\<exists>this this' x x'. async_poll True (into_run registering_retry) False = Some ((Inr Pending, this), x)
     \<and> async_poll True this False = Some ((Inr Pending, this'), x') \<and> x \<and> x'"
proof -
  obtain this1 this2 x where p: "async_poll True (into_run registering_retry) False = Some ((Inr Pending, this1), x)"
      "async_poll True this1 False = Some ((Inr Pending, this2), True)"
    using registering_polls by blast
  have ok: "\<forall>st y. arms (\<lambda>x. x) (fst (run_state (call_op (ac_op registering_retry) st) y))"
      "\<forall>d y. arms (\<lambda>x. x) (fst (run_state (ck_wait_async (ac_clock registering_retry) d) y))"
    by (simp_all add: registering_arms)
  note lost = no_wakeup_is_lost [OF ok]
  have "polled (async_poll True) (into_run registering_retry) this1"
    using polled_here p(1) by (rule polled_again)
  from lost [OF polled_here p(1)] lost [OF this p(2)] p show ?thesis by blast
qed

subsection \<open>Ready at once\<close>

definition ready_at_once :: "('x, ('x, 'a) future) state \<Rightarrow> bool" where
  "ready_at_once m \<longleftrightarrow>
     (\<forall>y. \<exists>v fut' z. run_state (fut_poll (fst (run_state m y))) (snd (run_state m y)) = ((Ready v, fut'), z))"

lemma ready_at_once_completes: "ready_at_once m \<Longrightarrow> completes idle m"
  unfolding ready_at_once_def completes_def using block_on_ready by (metis option.distinct(1))

text \<open>The future inside the machine is ready in the world it will be polled in.\<close>

definition about_ready :: "('x, 'o) phase \<Rightarrow> 'x \<Rightarrow> bool" where
  "about_ready ph x \<longleftrightarrow>
     (case ph of
        Polling fut \<Rightarrow> \<exists>v fut' z. run_state (fut_poll fut) x = ((Ready v, fut'), z)
      | Sleeping fut \<Rightarrow> \<exists>v fut' z. run_state (fut_poll fut) x = ((Ready v, fut'), z)
      | _ \<Rightarrow> True)"

definition at_once :: "('x, 'o, 'r, 'a) async_run \<Rightarrow> bool" where
  "at_once this \<longleftrightarrow> (\<forall>st. ready_at_once (call_op (ar_op this) st))
     \<and> (\<forall>d. ready_at_once (ck_wait_async (ar_clock this) d))"

lemma ready_at_onceD:
  "ready_at_once m \<Longrightarrow> run_state m y = (fut, y') \<Longrightarrow> \<exists>v fut' z. run_state (fut_poll fut) y' = ((Ready v, fut'), z)"
  unfolding ready_at_once_def by (metis fst_conv snd_conv)

lemma at_once_update [simp]:
  "at_once (this\<lparr>ar_phase := ph\<rparr>) = at_once this" "at_once (this\<lparr>ar_attempt := n\<rparr>) = at_once this"
  "at_once (this\<lparr>ar_wait := w\<rparr>) = at_once this" "at_once (this\<lparr>ar_previous_delay := d\<rparr>) = at_once this"
  "at_once (this\<lparr>ar_total_wait := t\<rparr>) = at_once this" "at_once (this\<lparr>ar_origin := o'\<rparr>) = at_once this"
  by (simp_all add: at_once_def)

lemma poll_body_at_once:
  assumes "at_once this" and "about_ready (ar_phase this) x"
    and "run_state (poll_body dbg origin this) x = (out, x')"
  shows "case out of
      Inl this' \<Rightarrow> at_once this' \<and> about_ready (ar_phase this') x'
    | Inr (answer, _) \<Rightarrow> answer \<noteq> Inr Pending"
proof -
  have op: "run_state (call_op (ar_op this) st) y = (fut, y') \<Longrightarrow>
      \<exists>v fut' z. run_state (fut_poll fut) y' = ((Ready v, fut'), z)" for st y fut y'
    using assms(1) by (auto simp: at_once_def dest: ready_at_onceD)
  have sleep: "run_state (ck_wait_async (ar_clock this) d) y = (fut, y') \<Longrightarrow>
      \<exists>v fut' z. run_state (fut_poll fut) y' = ((Ready v, fut'), z)" for d y fut y'
    using assms(1) ready_at_onceD [of "ck_wait_async (ar_clock this) d" y fut y']
    by (simp add: at_once_def)
  show ?thesis
    using assms
    by (auto simp: poll_body_def about_ready_def Let_def dest: op sleep
        split: phase.splits sum.splits prod.splits poll.splits step_result.splits if_splits)
qed

lemma async_poll_at_once:
  fixes a :: "('x, 'o, 'r, 'a) filled_async_retry"
  assumes "at_once (into_run a)" and "async_poll dbg (into_run a) x = Some ((answer, this'), x')"
  shows "answer \<noteq> Inr Pending"
proof -
  obtain origin x0 where now: "run_state (ck_now (ac_clock a)) x = (origin, x0)" by fastforce
  let ?I = "\<lambda>t y. at_once t \<and> about_ready (ar_phase t) y"
  let ?Q = "\<lambda>(e :: (panic + ('r, 'a, 'o) run_output poll) \<times> ('x, 'o, 'r, 'a) async_run) (y :: 'x). fst e \<noteq> Inr Pending"
  have "state_loop (poll_body dbg origin) ((into_run a)\<lparr>ar_origin := Some origin\<rparr>) x0 = Some ((answer, this'), x')"
    using assms(2) now by (simp add: async_poll_def into_run_def)
  then have "?Q (answer, this') x'"
  proof (rule state_loop_invariant [where I = ?I and Q = ?Q])
    show "?I ((into_run a)\<lparr>ar_origin := Some origin\<rparr>) x0"
      using assms(1) by (simp add: at_once_def about_ready_def into_run_def)
  next
    fix t t' :: "('x, 'o, 'r, 'a) async_run" and y y'
    assume "?I t y" and b: "run_state (poll_body dbg origin t) y = (Inl t', y')"
    then show "?I t' y'" using poll_body_at_once [OF _ _ b] by simp
  next
    fix t :: "('x, 'o, 'r, 'a) async_run" and y e y'
    assume "?I t y" and b: "run_state (poll_body dbg origin t) y = (Inr e, y')"
    then show "?Q e y'" using poll_body_at_once [OF _ _ b] by (simp add: case_prod_beta)
  qed
  then show ?thesis by simp
qed

text \<open>What the caller of one poll sees of a run of the sync engine.\<close>

definition polled_once where
  "polled_once = map_option (\<lambda>(e, x'). (map_sum id (Ready \<circ> fst) e, x'))"

lemma block_on_after_one_poll:
  assumes "\<And>answer this' x'. async_poll dbg this x = Some ((answer, this'), x') \<Longrightarrow> answer \<noteq> Inr Pending"
  shows "map_option (\<lambda>((answer, _), x'). (answer, x')) (async_poll dbg this x) =
    map_option (\<lambda>((res, _), x'). (map_sum id Ready res, x')) (async_block_on dbg idle this x)"
proof (cases "async_poll dbg this x")
  case None
  then show ?thesis by (simp add: async_block_on_unfold [of dbg idle this x])
next
  case (Some q)
  obtain answer this' x' where q: "q = ((answer, this'), x')" by (metis surj_pair)
  have pending: "answer \<noteq> Inr Pending" by (rule assms [OF Some [unfolded q]])
  have "\<exists>res. after_poll idle q = Inr ((res, this'), x') \<and> map_sum id Ready res = answer"
  proof (cases answer)
    case (Inl p)
    then show ?thesis by (simp add: q after_poll_def)
  next
    case (Inr out)
    with pending obtain v where "out = Ready v" by (cases out) auto
    with Inr show ?thesis by (simp add: q after_poll_def)
  qed
  then obtain res where "after_poll idle q = Inr ((res, this'), x')" and "map_sum id Ready res = answer"
    by blast
  with q show ?thesis by (simp add: async_block_on_unfold [of dbg idle this x] Some)
qed

lemma one_poll:
  fixes a :: "('x, 'o, 'r, 'a) filled_async_retry"
  assumes "\<forall>st. ready_at_once (call_op (ac_op a) st)" and "\<forall>d. ready_at_once (ck_wait_async (ac_clock a) d)"
  shows "map_option (\<lambda>((answer, _), x'). (answer, x')) (async_poll dbg (into_run a) x) =
    polled_once (run dbg (blocking_retry idle a) x)"
proof -
  have once: "at_once (into_run a)" using assms by (simp add: at_once_def into_run_def)
  have "map_option (\<lambda>((answer, _), x'). (answer, x')) (async_poll dbg (into_run a) x) =
      map_option (\<lambda>((res, _), x'). (map_sum id Ready res, x')) (async_block_on dbg idle (into_run a) x)"
    by (rule block_on_after_one_poll) (rule async_poll_at_once [OF once])
  also have "\<dots> = map_option (map_prod (map_sum id Ready) id)
      (map_option (\<lambda>((res, _), x'). (res, x')) (async_block_on dbg idle (into_run a) x))"
    by (simp add: option.map_comp o_def case_prod_unfold map_prod_def)
  also have "\<dots> = map_option (map_prod (map_sum id Ready) id)
      (map_option (\<lambda>(e, x'). (map_sum id fst e, x')) (run dbg (blocking_retry idle a) x))"
    by (subst async_parity) (simp_all add: assms ready_at_once_completes)
  also have "\<dots> = polled_once (run dbg (blocking_retry idle a) x)"
    by (simp add: polled_once_def option.map_comp o_def case_prod_unfold map_prod_def sum.map_comp id_def)
  finally show ?thesis .
qed

text \<open>
  C25: the engine adds no suspension of its own: over futures that are ready at once the first poll
  is the whole retry. It returns what the sync engine would return, with the same effects, and
  returns exactly if the sync engine would: however many attempts there are, the executor does
  not get control in between.
\<close>

theorem ready_futures_run_in_one_poll:
  assumes "\<forall>st. ready_at_once (call_op (ac_op a) st)" and "\<forall>d. ready_at_once (ck_wait_async (ac_clock a) d)"
  shows "map_option (\<lambda>((answer, _), x'). (answer, x')) (async_poll dbg (into_run a) x) =
    polled_once (run dbg (blocking_retry idle a) x)"
  by (rule one_poll [OF assms])

text \<open>Any retry, on the virtual clock.\<close>

lemma virtual_async_ready:
  "\<forall>st. ready_at_once (call_op (ac_op (async_of r virtual_async_clock)) st)"
  "\<forall>d. ready_at_once (ck_wait_async (ac_clock (async_of r virtual_async_clock)) d)"
  by (cases "rt_op r")
    (simp_all add: ready_at_once_def async_of_def run_map_state case_prod_beta ready_future_def
      run_future_of virtual_wait_async_def virtual_wait_poll_def)

lemma blocking_async_of:
  "blocking_retry idle (async_of r virtual_async_clock) = set_clock r virtual_sync_clock"
  by (simp add: blocking_retry_def async_of_def set_clock_def blocking_async_op blocking_virtual_clock)

theorem ready_futures_run_in_one_poll_witness:
  "\<exists>res stats x'. map_option (\<lambda>((answer, _), x'). (answer, x')) (async_poll True
       (into_run (async_of (sample_retry Err (StopAfterAttempts 3)) virtual_async_clock)) virtual_clock_new) =
     Some (Inr (Ready (res, stats)), x') \<and> unat (rs_attempts stats) \<le> 3"
proof -
  let ?r = "sample_retry Err (StopAfterAttempts 3)"
  have limit: "stop_limit (rt_stop ?r) = Some 3" by simp
  have same: "blocking_retry (State_Monad.return ()) (async_of ?r virtual_async_clock) = ?r"
    unfolding blocking_async_of by (simp add: sample_retry_def set_clock_def)
  from run_stop_limit [OF limit, of True virtual_clock_new] obtain res stats w x' where
    r: "run True ?r virtual_clock_new = Some (Inr ((res, stats), w), x')"
    and n: "unat (rs_attempts stats) \<le> max 1 (unat (3 :: u32))" by blast
  with r ready_futures_run_in_one_poll [OF virtual_async_ready, of True ?r virtual_clock_new "State_Monad.return ()"]
  have "\<exists>this'. async_poll True (into_run (async_of ?r virtual_async_clock)) virtual_clock_new =
      Some ((Inr (Ready (res, stats)), this'), x')"
    by (simp add: same polled_once_def)
  with n show ?thesis by fastforce
qed

text \<open>
  The other side of it: a retry that nothing ends and that never has to wait keeps the executor
  for ever in one poll.
\<close>

lemma poll_never_returns:
  assumes "\<forall>st. ready_at_once (call_op (ac_op a) st)" and "\<forall>d. ready_at_once (ck_wait_async (ac_clock a) d)"
    and "run_state (ck_now (ac_clock a)) x = (origin, x0)"
    and "\<not> can_expire (blocking_retry idle a) origin"
    and "\<forall>st y z. is_Retry (fst (run_state (ac_classifier a
           (fst (run_state (call_op (blocking_op idle (ac_op a)) st) y))) z))"
  shows "async_poll dbg (into_run a) x = None"
proof -
  have "run dbg (blocking_retry idle a) x = None"
    by (rule nothing_ends_run) (use assms in \<open>simp_all add: blocking_retry_def blocking_clock_def\<close>)
  with one_poll [OF assms(1,2), of dbg x idle] show ?thesis by (simp add: polled_once_def)
qed

end
