(* ===== verification/Async_Cancel.thy ===== *)
theory Async_Cancel
  imports Async_Parity Engine_Time
begin

text \<open>
  Cancelling an async retry is dropping its future between two polls, which is all that
  \<open>tokio::time::timeout\<close> and \<open>tokio::select!\<close> do in \<open>src/examples/async-cancel.rs\<close>. What has
  happened by then is what the polls did, and \<open>on_exit\<close> is not among it.
\<close>

subsection \<open>Futures that keep a relation\<close>

text \<open>Every poll there will ever be keeps \<open>R\<close>.\<close>

coinductive fut_keeps :: "('x \<Rightarrow> 'x \<Rightarrow> bool) \<Rightarrow> ('x, 'a) future \<Rightarrow> bool" for R where
  fut_keepsI: "(\<And>x. R x (snd (run_state (fut_poll fut) x))) \<Longrightarrow>
     (\<And>x. fut_keeps R (snd (fst (run_state (fut_poll fut) x)))) \<Longrightarrow> fut_keeps R fut"

inductive_simps fut_keeps_iff: "fut_keeps R fut"

lemma fut_keeps_poll:
  assumes "fut_keeps R fut" and "run_state (fut_poll fut) x = ((p, fut'), x')"
  shows "R x x'" and "fut_keeps R fut'"
  using assms fut_keeps_iff [of R fut] by (metis fst_conv snd_conv)+

text \<open>A computation that keeps \<open>R\<close> and makes a future that does.\<close>

definition makes_keeping :: "('x \<Rightarrow> 'x \<Rightarrow> bool) \<Rightarrow> ('x, ('x, 'a) future) state \<Rightarrow> bool" where
  "makes_keeping R m \<longleftrightarrow> keeps R m \<and> (\<forall>x. fut_keeps R (fst (run_state m x)))"

lemma makes_keepingD:
  "makes_keeping R m \<Longrightarrow> run_state m x = (fut, x') \<Longrightarrow> R x x' \<and> fut_keeps R fut"
  unfolding makes_keeping_def by (metis keepsD fst_conv)

subsection \<open>The machine\<close>

definition phase_keeps :: "('x \<Rightarrow> 'x \<Rightarrow> bool) \<Rightarrow> ('x, 'o) phase \<Rightarrow> bool" where
  "phase_keeps R ph = (case ph of Polling fut \<Rightarrow> fut_keeps R fut | Sleeping fut \<Rightarrow> fut_keeps R fut | _ \<Rightarrow> True)"

text \<open>Everything the machine runs but \<open>on_exit\<close> keeps \<open>R\<close>.\<close>

definition machine_keeps :: "('x \<Rightarrow> 'x \<Rightarrow> bool) \<Rightarrow> ('x, 'o, 'r, 'a) async_run \<Rightarrow> bool" where
  "machine_keeps R this \<longleftrightarrow> reflp R \<and> transp R \<and> keeps R (ck_now (ar_clock this))
     \<and> (\<forall>d. makes_keeping R (ck_wait_async (ar_clock this) d))
     \<and> (\<forall>st. makes_keeping R (call_op (ar_op this) st))
     \<and> (\<forall>oc. keeps R (ar_classifier this oc)) \<and> stop_keeps R (ar_stop this) \<and> wait_keeps R (ar_wait this)
     \<and> (\<forall>b x. R x (hook_world (hk_before_attempt (ar_hooks this)) b x))
     \<and> (\<forall>a x. R x (hook_world (hk_after_attempt (ar_hooks this)) a x))
     \<and> phase_keeps R (ar_phase this) \<and> ar_attempt this \<noteq> 0"

lemma elapsed_since_keeps: "transp R \<Longrightarrow> reflp R \<Longrightarrow> keeps R (ck_now c) \<Longrightarrow> keeps R (elapsed_since c origin)"
  unfolding elapsed_since_def by (intro keeps_bind keeps_return)

text \<open>One turn that does not end the run, from each phase.\<close>

lemma poll_body_start_keeps:
  assumes k: "machine_keeps R this" and ph: "ar_phase this = ReadyToStart"
    and body: "run_state (poll_body dbg origin this) x = (out, x')"
  shows "\<exists>fut. out = Inl (this\<lparr>ar_phase := Polling fut\<rparr>) \<and> R x x' \<and> fut_keeps R fut"
proof -
  have R: "transp R" "reflp R" "keeps R (ck_now (ar_clock this))" "ar_attempt this \<noteq> 0"
    using k by (simp_all add: machine_keeps_def)
  obtain st0 where st0: "for_attempt dbg (ar_attempt this) = Inr st0"
    using R(4) for_attempt_ok by blast
  obtain e x1 where e: "run_state (elapsed_since (ar_clock this) origin) x = (e, x1)" by fastforce
  let ?b = "with_previous_delay (with_elapsed st0 e) (ar_previous_delay this)"
  let ?x2 = "hook_world (hk_before_attempt (ar_hooks this)) ?b x1"
  obtain fut x3 where f: "run_state (call_op (ar_op this) ?b) ?x2 = (fut, x3)" by fastforce
  have "R x x1" using elapsed_since_keeps [OF R(1-3)] e by (rule keepsD)
  moreover have "R x1 ?x2" using k by (simp add: machine_keeps_def)
  moreover have "R ?x2 x3 \<and> fut_keeps R fut"
    using k f by (intro makes_keepingD [where m = "call_op (ar_op this) ?b"]) (simp_all add: machine_keeps_def)
  ultimately have "R x x3" "fut_keeps R fut" using R(1) by (blast dest: transpD)+
  moreover have "out = Inl (this\<lparr>ar_phase := Polling fut\<rparr>)" "x' = x3"
    using body by (simp_all add: poll_body_def ph st0 e Let_def run_hook_call f)
  ultimately show ?thesis by blast
qed

lemma step_continue_keeps:
  assumes s: "run_state (step dbg p oc classifier stop wait timeout hooks) x = (Inr (Continue d t, w), x')"
    and "pg_attempt p \<noteq> 0" and R: "reflp R" "transp R" "keeps R (classifier oc)" "stop_keeps R stop"
      "wait_keeps R wait" and after: "\<And>a y. R y (hook_world (hk_after_attempt hooks) a y)"
  shows "R x x' \<and> wait_config w = wait_config wait"
  by (rule step_cases [OF s assms(2) R]) (use after R(2) in \<open>auto dest: transpD\<close>)

lemma poll_body_polling:
  assumes "ar_phase this = Polling fut" and "run_state (fut_poll fut) x = ((Ready oc, fut'), x1)"
    and "run_state (elapsed_since (ar_clock this) origin) x1 = (e, x2)"
    and "run_state (step dbg \<lparr>pg_attempt = ar_attempt this, pg_elapsed = e,
        pg_previous_delay = ar_previous_delay this, pg_total_wait = ar_total_wait this\<rparr> oc
        (ar_classifier this) (ar_stop this) (ar_wait this) (ar_timeout this) (ar_hooks this)) x2 = (s, x3)"
  shows "run_state (poll_body dbg origin this) x =
    (case s of
       Inl q \<Rightarrow> (Inr (Inl q, this), x3)
     | Inr (Done res stats, w) \<Rightarrow> (Inr (Inr (Ready (res, stats)), this\<lparr>ar_wait := w, ar_phase := Phase_Done\<rparr>), x3)
     | Inr (Continue d t, w) \<Rightarrow>
         (let this' = this\<lparr>ar_wait := w, ar_previous_delay := Some d, ar_total_wait := t\<rparr>
          in if d = duration_zero
             then (Inl (this'\<lparr>ar_phase := ReadyToStart, ar_attempt := u32_saturating_add (ar_attempt this) 1\<rparr>), x3)
             else (case run_state (ck_wait_async (ar_clock this) d) x3 of (sf, x4) \<Rightarrow>
                     (Inl (this'\<lparr>ar_phase := Sleeping sf\<rparr>), x4))))"
  using assms by (simp add: poll_body_def Let_def split: sum.split step_result.split prod.split)

text \<open>What a turn changes of the machine leaves it keeping \<open>R\<close>.\<close>

lemma machine_keeps_update:
  assumes "machine_keeps R this" and "wait_config w = wait_config (ar_wait this)" and "phase_keeps R ph" and "a \<noteq> 0"
  shows "machine_keeps R (this\<lparr>ar_wait := w, ar_previous_delay := pd, ar_total_wait := t, ar_phase := ph,
    ar_attempt := a\<rparr>)"
  using assms wait_keeps_config [OF assms(2)] by (simp add: machine_keeps_def)

lemma poll_body_outcome_keeps:
  assumes k: "machine_keeps R this" and ph: "ar_phase this = Polling fut"
    and body: "run_state (poll_body dbg origin this) x = (out, x')"
    and answer: "out = Inl this' \<or> out = Inr (Inr Pending, this')"
  shows "R x x' \<and> machine_keeps R this'"
proof -
  have R: "transp R" "reflp R" "keeps R (ck_now (ar_clock this))" "ar_attempt this \<noteq> 0" "fut_keeps R fut"
    using k ph by (simp_all add: machine_keeps_def phase_keeps_def)
  obtain p fut' x1 where f: "run_state (fut_poll fut) x = ((p, fut'), x1)" by (metis surj_pair)
  note f' = fut_keeps_poll [OF R(5) f]
  show ?thesis
  proof (cases p)
    case Pending
    then show ?thesis using answer body f' k ph by (auto simp: poll_body_def f machine_keeps_def phase_keeps_def)
  next
    case (Ready oc)
    obtain e x2 where e: "run_state (elapsed_since (ar_clock this) origin) x1 = (e, x2)" by fastforce
    have R12: "R x1 x2" using elapsed_since_keeps [OF R(1-3)] e by (rule keepsD)
    obtain s x3 where s: "run_state (step dbg \<lparr>pg_attempt = ar_attempt this, pg_elapsed = e,
        pg_previous_delay = ar_previous_delay this, pg_total_wait = ar_total_wait this\<rparr> oc (ar_classifier this)
        (ar_stop this) (ar_wait this) (ar_timeout this) (ar_hooks this)) x2 = (s, x3)" by fastforce
    note body' = body [unfolded poll_body_polling [OF ph f [unfolded Ready] e s]]
    obtain d t w where c: "s = Inr (Continue d t, w)"
      using body' answer by (auto split: sum.splits prod.splits step_result.splits)
    have Rs: "R x2 x3" "wait_config w = wait_config (ar_wait this)"
      using step_continue_keeps [OF s [unfolded c] _ R(2,1)] k by (auto simp: machine_keeps_def)
    have R03: "R x x3" using f'(1) R12 Rs(1) R(1) by (meson transpD)
    obtain sf x4 where sf: "run_state (ck_wait_async (ar_clock this) d) x3 = (sf, x4)" by fastforce
    have "R x3 x4 \<and> fut_keeps R sf"
      using k sf by (intro makes_keepingD [where m = "ck_wait_async (ar_clock this) d"]) (simp_all add: machine_keeps_def)
    then show ?thesis
      using body' answer R03 R(1,4)
        machine_keeps_update [OF k Rs(2), where ph = ReadyToStart and a = "u32_saturating_add (ar_attempt this) 1"
          and pd = "Some d" and t = t]
        machine_keeps_update [OF k Rs(2), where ph = "Sleeping sf" and a = "ar_attempt this" and pd = "Some d" and t = t]
      by (auto simp: c sf Let_def phase_keeps_def u32_saturating_add_one_nonzero
          split: if_splits dest: transpD)
  qed
qed

lemma poll_body_keeps:
  assumes k: "machine_keeps R this" and body: "run_state (poll_body dbg origin this) x = (out, x')"
    and answer: "out = Inl this' \<or> out = Inr (Inr Pending, this')"
  shows "R x x' \<and> machine_keeps R this'"
proof (cases "ar_phase this")
  case ReadyToStart
  obtain fut where "out = Inl (this\<lparr>ar_phase := Polling fut\<rparr>)" "R x x'" "fut_keeps R fut"
    using poll_body_start_keeps [OF k ReadyToStart body] by blast
  then show ?thesis using answer k by (auto simp: machine_keeps_def phase_keeps_def)
next
  case (Polling fut)
  then show ?thesis by (rule poll_body_outcome_keeps [OF k _ body answer])
next
  case (Sleeping fut)
  obtain p fut' x1 where f: "run_state (fut_poll fut) x = ((p, fut'), x1)" by (metis surj_pair)
  have "fut_keeps R fut" using k Sleeping by (simp add: machine_keeps_def phase_keeps_def)
  note f' = fut_keeps_poll [OF this f]
  show ?thesis
    using answer body f' k u32_saturating_add_one_nonzero
    by (cases p) (auto simp: poll_body_def Sleeping f machine_keeps_def phase_keeps_def)
next
  case Phase_Done
  then show ?thesis using answer body by (auto simp: poll_body_def)
qed

text \<open>A poll that answers \<open>Pending\<close>, and any number of them.\<close>

lemma async_poll_keeps:
  assumes k: "machine_keeps R this" and poll: "async_poll dbg this x = Some ((Inr Pending, this'), x')"
  shows "R x x' \<and> machine_keeps R this'"
proof -
  have R: "reflp R" "transp R" using k by (simp_all add: machine_keeps_def)
  have loop: "\<forall>t. e = (Inr Pending, t) \<longrightarrow> R y z \<and> machine_keeps R t"
    if "state_loop (poll_body dbg origin) that y = Some (e, z)" and k: "machine_keeps R that" for origin "that" y e z
  proof (rule state_loop_invariant [where I = "\<lambda>t z. R y z \<and> machine_keeps R t", OF that(1)])
    show "R y y \<and> machine_keeps R that" using k R(1) by (simp add: reflp_def)
  next
    fix t1 z1 t2 z2
    assume "R y z1 \<and> machine_keeps R t1" "run_state (poll_body dbg origin t1) z1 = (Inl t2, z2)"
    then show "R y z2 \<and> machine_keeps R t2"
      using poll_body_keeps [of R t1 dbg origin z1 "Inl t2" z2 t2] transpD [OF R(2), of y z1 z2] by simp
  next
    fix t1 z1 e z2
    assume "R y z1 \<and> machine_keeps R t1" "run_state (poll_body dbg origin t1) z1 = (Inr e, z2)"
    then show "\<forall>t. e = (Inr Pending, t) \<longrightarrow> R y z2 \<and> machine_keeps R t"
      using poll_body_keeps [of R t1 dbg origin z1 "Inr e" z2] transpD [OF R(2), of y z1 z2] by auto
  qed
  show ?thesis
  proof (cases "ar_origin this")
    case (Some origin)
    then show ?thesis
      using poll loop [of origin this x "(Inr Pending, this')" x'] k by (simp add: async_poll_def)
  next
    case None
    obtain origin x0 where now: "run_state (ck_now (ar_clock this)) x = (origin, x0)" by fastforce
    have "R x x0" using k now by (auto simp: machine_keeps_def dest: keepsD)
    moreover have "machine_keeps R (this\<lparr>ar_origin := Some origin\<rparr>)" using k by (simp add: machine_keeps_def)
    ultimately show ?thesis
      using poll None now loop [of origin "this\<lparr>ar_origin := Some origin\<rparr>" x0 "(Inr Pending, this')" x']
        transpD [OF R(2), of x x0 x'] by (simp add: async_poll_def)
  qed
qed

subsection \<open>Dropping the future\<close>

text \<open>
  A race that the retry loses after \<open>n\<close> polls, other tasks running in between: the future is
  dropped (\<^const>\<open>Inl\<close>), unless it was ready before.
\<close>

primrec poll_for ::
    "bool \<Rightarrow> ('x, unit) state \<Rightarrow> nat \<Rightarrow> ('x, 'o, 'r, 'a) async_run \<Rightarrow> 'x \<Rightarrow>
     ((('x, 'o, 'r, 'a) async_run + (panic + ('r, 'a, 'o) run_output)) \<times> 'x) option" where
  "poll_for dbg idle 0 this x = Some (Inl this, x)"
| "poll_for dbg idle (Suc n) this x =
     (case async_poll dbg this x of
        None \<Rightarrow> None
      | Some ((Inl p, _), x') \<Rightarrow> Some (Inr (Inl p), x')
      | Some ((Inr (Ready out), _), x') \<Rightarrow> Some (Inr (Inr out), x')
      | Some ((Inr Pending, this'), x') \<Rightarrow> poll_for dbg idle n this' (snd (run_state idle x')))"

lemma poll_for_keeps:
  assumes "machine_keeps R this" and "keeps R idle" and "poll_for dbg idle n this x = Some (Inl this', x')"
  shows "R x x'"
  using assms
proof (induction n arbitrary: this x)
  case 0
  then show ?case by (auto simp: machine_keeps_def reflp_def)
next
  case (Suc n)
  obtain this1 x1 where poll: "async_poll dbg this x = Some ((Inr Pending, this1), x1)"
    and rest: "poll_for dbg idle n this1 (snd (run_state idle x1)) = Some (Inl this', x')"
    using Suc.prems(3) by (auto split: option.splits prod.splits sum.splits poll.splits)
  note k1 = async_poll_keeps [OF Suc.prems(1) poll]
  have "R x1 (snd (run_state idle x1))" using Suc.prems(2) by (simp add: keeps_def)
  moreover have "R (snd (run_state idle x1)) x'" by (rule Suc.IH [OF conjunct2 [OF k1] Suc.prems(2) rest])
  ultimately show ?case
    using k1 Suc.prems(1) transpD [of R x x1] transpD [of R x "snd (run_state idle x1)" x']
    by (simp add: machine_keeps_def)
qed

text \<open>
  C24: a retry that is dropped while it is pending, after any number of polls, whether in the
  middle of the operation or of a sleep, has not run \<open>on_exit\<close>: what only \<open>on_exit\<close> writes is
  as it was before the first poll.
\<close>

theorem dropping_skips_on_exit:
  fixes mark :: "'x \<Rightarrow> 'm"
  assumes "machine_keeps (\<lambda>x y. mark y = mark x) (into_run a)"
    and "keeps (\<lambda>x y. mark y = mark x) idle"
    and "poll_for dbg idle n (into_run a) x = Some (Inl this', x')"
  shows "mark x' = mark x"
  by (rule poll_for_keeps [OF assms])

text \<open>A retry that is pending once in every attempt, and whose \<open>on_exit\<close> sets a flag.\<close>

definition flagging_retry :: "(bool virtual_clock_scheme, (nat, nat) result, nat, nat) filled_async_retry" where
  "flagging_retry =
     async_on_exit (async_set_clock (async_from_parts ()
       (OpFn (\<lambda>_. State_Monad.return (yielding (Ok 7))))
       (default_decide classify_result) (StopAfterAttempts 3) (fixed (from_millis 10)) None) virtual_async_clock)
     (\<lambda>_. State (\<lambda>x. ((), virtual_clock.more_update (\<lambda>_. True) x)))"

lemma future_of_keeps:
  assumes "\<And>s x. R x (snd (run_state (poll_fn s) x))"
  shows "fut_keeps R (future_of poll_fn s)"
proof (coinduction arbitrary: s)
  case fut_keeps
  then show ?case
    using assms by (auto simp: run_future_of split: prod.split) (metis snd_conv)
qed

theorem dropping_skips_on_exit_witness:
  "\<exists>this' x'. poll_for True (State_Monad.return ()) 1 (into_run flagging_retry) (virtual_world False) =
       Some (Inl this', x') \<and> \<not> virtual_clock.more x'"
proof -
  let ?mark = "virtual_clock.more :: bool virtual_clock_scheme \<Rightarrow> bool"
  let ?R = "\<lambda>x y. ?mark y = ?mark x"
  have fut: "fut_keeps ?R (yielding (Ok 7))" "fut_keeps ?R (future_of virtual_wait_poll vw)" for vw
    unfolding yielding_def by (rule future_of_keeps, simp add: virtual_wait_poll_def)+
  have keeps: "machine_keeps ?R (into_run flagging_retry)"
    using fut
    by (simp add: machine_keeps_def into_run_def flagging_retry_def async_builder_defs makes_keeping_def
        phase_keeps_def virtual_wait_async_def default_decide_def stop_keeps_def wait_keeps_def fixed_def
        keeps_def reflp_def transp_def execution_hooks_new_def chain_on_exit_def)
  let ?x = "virtual_world False"
  define t0 where "t0 = (into_run flagging_retry)\<lparr>ar_origin := Some duration_zero\<rparr>"
  have t0: "ar_phase t0 = ReadyToStart" "ar_attempt t0 = 1" "ar_clock t0 = virtual_async_clock"
      "ar_op t0 = OpFn (\<lambda>_. State_Monad.return (yielding (Ok 7)))"
      "hk_before_attempt (ar_hooks t0) = HookUnit"
    by (simp_all add: t0_def into_run_def flagging_retry_def async_builder_defs chain_on_exit_def
        execution_hooks_new_def)
  have b1: "run_state (poll_body True duration_zero t0) ?x = (Inl (t0\<lparr>ar_phase := Polling (yielding (Ok 7))\<rparr>), ?x)"
    by (simp add: poll_body_def t0 elapsed_since_def Let_def)
  obtain t2 where b2: "run_state (poll_body True duration_zero (t0\<lparr>ar_phase := Polling (yielding (Ok 7))\<rparr>)) ?x =
      (Inr (Inr Pending, t2), ?x)"
    by (simp add: poll_body_def yielding_def run_future_of)
  have "ar_origin (into_run flagging_retry) = None" "ar_clock (into_run flagging_retry) = virtual_async_clock"
    by (simp_all add: into_run_def flagging_retry_def async_builder_defs)
  then have "async_poll True (into_run flagging_retry) ?x = state_loop (poll_body True duration_zero) t0 ?x"
    by (simp add: async_poll_def t0_def)
  also have "\<dots> = Some ((Inr Pending, t2), ?x)"
    by (simp only: state_loop_step [where body = "poll_body True duration_zero", OF b1]
        state_loop_exit [where body = "poll_body True duration_zero", OF b2])
  finally have h: "poll_for True (State_Monad.return ()) (Suc 0) (into_run flagging_retry) ?x = Some (Inl t2, ?x)"
    by simp
  have "keeps ?R (State_Monad.return ())" by (simp add: keeps_def)
  from dropping_skips_on_exit [OF keeps this h] h show ?thesis by (auto simp: virtual_world_def)
qed

end
