(* ===== verification/Async_Race.thy ===== *)
theory Async_Race
  imports Async_Wake Async_Cancel
begin

text \<open>
  The retry future in a program that does anything it likes between two polls: other tasks, other
  futures of the same \<open>select!\<close>, the branch of a race it loses. Nothing is assumed of the world a
  poll finds; what the machine itself carries from poll to poll is enough.
\<close>

subsection \<open>Futures by their answers\<close>

text \<open>Whatever happens between the polls, the future is ready only with a value in \<open>P\<close>.\<close>

coinductive answers_only :: "('a \<Rightarrow> bool) \<Rightarrow> ('x, 'a) future \<Rightarrow> bool" for P where
  answers_onlyI: "(\<And>x v fut' x'. run_state (fut_poll fut) x = ((Ready v, fut'), x') \<Longrightarrow> P v) \<Longrightarrow>
     (\<And>x fut' x'. run_state (fut_poll fut) x = ((Pending, fut'), x') \<Longrightarrow> answers_only P fut') \<Longrightarrow>
     answers_only P fut"

inductive_simps answers_only_iff: "answers_only P fut"

lemma answers_only_ready: "answers_only P fut \<Longrightarrow> run_state (fut_poll fut) x = ((Ready v, fut'), x') \<Longrightarrow> P v"
  unfolding answers_only_iff [of P fut] by blast

lemma answers_only_pending:
  "answers_only P fut \<Longrightarrow> run_state (fut_poll fut) x = ((Pending, fut'), x') \<Longrightarrow> answers_only P fut'"
  unfolding answers_only_iff [of P fut] by blast

lemma future_of_answers_only:
  assumes "\<And>s x v s' x'. run_state (poll_fn s) x = ((Ready v, s'), x') \<Longrightarrow> P v"
  shows "answers_only P (future_of poll_fn s)"
proof (coinduction arbitrary: s)
  case answers_only
  then show ?case using assms by (fastforce simp: run_future_of split: prod.splits)
qed

subsection \<open>What a step decides\<close>

text \<open>
  An attempt is passed over if its outcome is one to retry and the stop strategy, asked about it,
  lets the retry go on. The result is the verdict on an outcome of the last attempt, all others
  were passed over, and the retry gave up only because the timeout was over or the stop strategy
  asked for it.
\<close>

definition passed_over ::
    "('x, 'o, 'r, 'a) classifier \<Rightarrow> 'x stop_strategy \<Rightarrow> (u32 \<Rightarrow> 'o \<Rightarrow> bool) \<Rightarrow> u32 \<Rightarrow> bool" where
  "passed_over classifier stop P n \<longleftrightarrow>
     (\<exists>oc y st z. P n oc \<and> is_Retry (fst (run_state (classifier oc) y)) \<and> st_attempt st = n
        \<and> \<not> fst (run_state (should_stop stop st) z))"

definition decided ::
    "('x, 'o, 'r, 'a) classifier \<Rightarrow> 'x stop_strategy \<Rightarrow> duration option \<Rightarrow> (u32 \<Rightarrow> 'o \<Rightarrow> bool) \<Rightarrow>
     ('r, ('a, 'o) retry_error) result \<Rightarrow> retry_stats \<Rightarrow> bool" where
  "decided classifier stop timeout P res stats \<longleftrightarrow>
     (\<forall>m. 0 < m \<and> m < rs_attempts stats \<longrightarrow> passed_over classifier stop P m) \<and>
     (\<exists>oc y v. P (rs_attempts stats) oc \<and> v = fst (run_state (classifier oc) y) \<and> res = verdict_result v
      \<and> (is_Retry v \<longrightarrow> timed_out timeout (rs_total_elapsed stats)
          \<or> (\<exists>st z. st_attempt st = rs_attempts stats \<and> st_elapsed st = rs_total_elapsed stats
               \<and> fst (run_state (should_stop stop st) z))))"

lemma step_decided:
  assumes s: "run_state (step dbg p oc classifier stop wait timeout hooks) x = (res, x')"
    and "pg_attempt p \<noteq> 0" and "P (pg_attempt p) oc"
    and earlier: "\<forall>m. 0 < m \<and> m < pg_attempt p \<longrightarrow> passed_over classifier stop P m"
  shows "(\<exists>d t w. res = Inr (Continue d t, w)) \<and> passed_over classifier stop P (pg_attempt p)
    \<or> (\<exists>r stats. res = Inr (Done r stats, wait) \<and> decided classifier stop timeout P r stats)"
proof -
  let ?x1 = "hook_world (hk_after_attempt hooks)
      \<lparr>as_attempt = pg_attempt p, as_elapsed = pg_elapsed p, as_outcome = oc\<rparr> x"
  obtain v x2 where v: "run_state (classifier oc) ?x1 = (v, x2)" by fastforce
  obtain b x3 where b: "run_state (should_stop stop (step_state p)) x2 = (b, x3)" by fastforce
  obtain d w x4 where w: "run_state (next_wait wait (step_state p)) x3 = (Inr (d, w), x4)"
    by (rule next_wait_total)
  have dec: "decided classifier stop timeout P (verdict_result v) (stats_for p reason)"
    if "is_Retry v \<longrightarrow> b \<or> timed_out timeout (pg_elapsed p)" for reason
    unfolding decided_def
    by (rule conjI, simp add: earlier stats_for_def, rule exI [of _ oc], rule exI [of _ ?x1], rule exI [of _ v])
      (use that assms(3) v in \<open>auto simp: stats_for_def step_state_def
        simp: b [unfolded step_state_def]
        intro!: exI [of _ "step_state p"] exI [of _ x2]\<close>)
  note s' = s [unfolded run_step [OF assms(2)] Let_def v prod.case]
  show ?thesis
  proof (cases v)
    case (Retry f)
    then have over: "passed_over classifier stop P (pg_attempt p)" if "\<not> b"
      using that assms(3) v b unfolding passed_over_def
      by (intro exI [of _ oc] exI [of _ ?x1] exI [of _ "step_state p"] exI [of _ x2])
        (simp add: is_Retry_def step_state_def)
    show ?thesis
      using s' dec Retry over by (auto simp: b w is_Retry_def verdict_result_def split: if_splits)
  qed (use s' dec in \<open>auto simp: is_Retry_def verdict_result_def\<close>)
qed

subsection \<open>The machine between polls\<close>

definition open_run ::
    "('x, 'o, 'r, 'a) filled_async_retry \<Rightarrow> (u32 \<Rightarrow> 'o \<Rightarrow> bool) \<Rightarrow> ('x, 'o, 'r, 'a) async_run \<Rightarrow> bool" where
  "open_run a P this \<longleftrightarrow> ar_op this = ac_op a \<and> ar_classifier this = ac_classifier a \<and> ar_stop this = ac_stop a
     \<and> ar_timeout this = ac_timeout a \<and> ar_attempt this \<noteq> 0
     \<and> (\<forall>m. 0 < m \<and> m < ar_attempt this \<longrightarrow> passed_over (ac_classifier a) (ac_stop a) P m)
     \<and> (case ar_phase this of
          ReadyToStart \<Rightarrow> True
        | Polling fut \<Rightarrow> answers_only (P (ar_attempt this)) fut
        | Sleeping fut \<Rightarrow> passed_over (ac_classifier a) (ac_stop a) P (ar_attempt this)
        | Phase_Done \<Rightarrow> False)"

lemma less_saturating_succ: "m < u32_saturating_add n 1 \<Longrightarrow> m < n \<or> m = n"
  by (auto simp: word_less_nat_alt unat_u32_saturating_add word_unat_eq_iff)

lemma open_run_origin [simp]: "open_run a P (this\<lparr>ar_origin := origin\<rparr>) = open_run a P this"
  by (cases "ar_phase this") (simp_all add: open_run_def)

text \<open>The operation's futures answer as \<open>P\<close> says of the attempt, in whatever world they are made.\<close>

definition op_answers :: "('x, ('x, 'o) future) retry_op \<Rightarrow> (u32 \<Rightarrow> 'o \<Rightarrow> bool) \<Rightarrow> bool" where
  "op_answers oper P \<longleftrightarrow> (\<forall>st x. answers_only (P (st_attempt st)) (fst (run_state (call_op oper st) x)))"

text \<open>An answer other than \<open>Pending\<close>: no panic, and a decided result.\<close>

definition decided_answer ::
    "('x, 'o, 'r, 'a) filled_async_retry \<Rightarrow> (u32 \<Rightarrow> 'o \<Rightarrow> bool) \<Rightarrow> panic + ('r, 'a, 'o) run_output poll \<Rightarrow> bool" where
  "decided_answer a P answer \<longleftrightarrow> (\<exists>res stats. answer = Inr (Ready (res, stats))
     \<and> decided (ac_classifier a) (ac_stop a) (ac_timeout a) P res stats)"

lemma poll_body_open:
  assumes op: "op_answers (ac_op a) P" and I: "open_run a P this"
    and body: "run_state (poll_body dbg origin this) x = (out, x')"
  shows "case out of
      Inl this' \<Rightarrow> open_run a P this'
    | Inr (answer, this') \<Rightarrow> if answer = Inr Pending then open_run a P this' else decided_answer a P answer"
proof (cases "ar_phase this")
  case ReadyToStart
  obtain e x1 where e: "run_state (elapsed_since (ar_clock this) origin) x = (e, x1)" by fastforce
  let ?b = "\<lparr>st_attempt = ar_attempt this, st_elapsed = e, st_previous_delay = ar_previous_delay this\<rparr>"
  obtain fut x3 where f: "run_state (call_op (ac_op a) ?b) (hook_world (hk_before_attempt (ar_hooks this)) ?b x1) = (fut, x3)"
    by fastforce
  have "answers_only (P (ar_attempt this)) fut"
    using op f unfolding op_answers_def by (metis fst_conv retry_state.select_convs(1))
  moreover have "out = Inl (this\<lparr>ar_phase := Polling fut\<rparr>)"
    using body I f by (simp add: poll_body_def ReadyToStart e Let_def run_hook_call open_run_def
        with_previous_delay_def with_elapsed_def)
  ultimately show ?thesis using I by (simp add: open_run_def)
next
  case (Polling fut)
  obtain p fut' x1 where f: "run_state (fut_poll fut) x = ((p, fut'), x1)" by (metis surj_pair)
  have ans: "answers_only (P (ar_attempt this)) fut" using I Polling by (simp add: open_run_def)
  show ?thesis
  proof (cases p)
    case Pending
    then show ?thesis
      using body I answers_only_pending [OF ans, of x fut' x1] f
      by (auto simp: poll_body_def Polling open_run_def)
  next
    case (Ready oc)
    have P: "P (ar_attempt this) oc" using answers_only_ready [OF ans f [unfolded Ready]] .
    obtain e x2 where e: "run_state (elapsed_since (ar_clock this) origin) x1 = (e, x2)" by fastforce
    let ?p = "\<lparr>pg_attempt = ar_attempt this, pg_elapsed = e, pg_previous_delay = ar_previous_delay this,
      pg_total_wait = ar_total_wait this\<rparr>"
    obtain s x3 where s: "run_state (step dbg ?p oc (ar_classifier this) (ar_stop this) (ar_wait this)
        (ar_timeout this) (ar_hooks this)) x2 = (s, x3)" by fastforce
    have "(\<exists>d t w. s = Inr (Continue d t, w)) \<and> passed_over (ac_classifier a) (ac_stop a) P (ar_attempt this) \<or> (\<exists>r stats. s = Inr (Done r stats, ar_wait this)
        \<and> decided (ac_classifier a) (ac_stop a) (ac_timeout a) P r stats)"
      using step_decided [OF s, of P] I P by (simp add: open_run_def)
    then show ?thesis
      using poll_body_polling [OF Polling f [unfolded Ready] e s] body I
      by (auto simp: open_run_def decided_answer_def Let_def u32_saturating_add_one_nonzero
          split: if_splits prod.splits dest!: less_saturating_succ)
  qed
next
  case (Sleeping fut)
  obtain p fut' x1 where f: "run_state (fut_poll fut) x = ((p, fut'), x1)" by (metis surj_pair)
  then show ?thesis
    using body I by (cases p) (auto simp: poll_body_def Sleeping open_run_def
        u32_saturating_add_one_nonzero dest!: less_saturating_succ)
next
  case Phase_Done
  then show ?thesis using I by (simp add: open_run_def)
qed

lemma async_poll_open:
  fixes this :: "('x, 'o, 'r, 'a) async_run"
  assumes op: "op_answers (ac_op a) P" and I: "open_run a P this"
    and poll: "async_poll dbg this x = Some ((answer, this'), x')"
  shows "if answer = Inr Pending then open_run a P this' else decided_answer a P answer"
proof -
  obtain t0 origin x0 where loop: "state_loop (poll_body dbg origin) t0 x0 = Some ((answer, this'), x')"
    and t0: "open_run a P t0"
  proof (cases "ar_origin this")
    case None
    obtain origin x0 where "run_state (ck_now (ar_clock this)) x = (origin, x0)" by fastforce
    then show thesis
      using poll I None
      by (intro that [of origin "this\<lparr>ar_origin := Some origin\<rparr>" x0]) (simp_all add: async_poll_def)
  next
    case (Some origin)
    then show thesis using poll I by (intro that [of origin this x]) (simp_all add: async_poll_def)
  qed
  let ?Q = "\<lambda>(e :: (panic + ('r, 'a, 'o) run_output poll) \<times> ('x, 'o, 'r, 'a) async_run) (y :: 'x).
    if fst e = Inr Pending then open_run a P (snd e) else decided_answer a P (fst e)"
  have "?Q (answer, this') x'"
  proof (rule state_loop_invariant [where I = "\<lambda>t _. open_run a P t" and Q = ?Q, OF loop t0])
    fix t t' :: "('x, 'o, 'r, 'a) async_run" and y y'
    assume "open_run a P t" "run_state (poll_body dbg origin t) y = (Inl t', y')"
    then show "open_run a P t'" using poll_body_open [OF op, of t dbg origin y "Inl t'" y'] by simp
  next
    fix t :: "('x, 'o, 'r, 'a) async_run" and y e y'
    assume "open_run a P t" "run_state (poll_body dbg origin t) y = (Inr e, y')"
    then show "?Q e y'"
      using poll_body_open [OF op, of t dbg origin y "Inr e" y'] by (simp add: case_prod_beta)
  qed
  then show ?thesis by (simp split: if_splits)
qed

lemma polled_open:
  assumes op: "op_answers (ac_op a) P" and "polled (async_poll dbg) (into_run a) this"
  shows "open_run a P this"
  using assms(2)
proof (induction rule: polled.induct)
  case polled_here
  show ?case by (auto simp: open_run_def into_run_def word_less_nat_alt)
next
  case (polled_again j x j' x')
  then show ?case using async_poll_open [OF op, of j dbg x "Inr Pending" j' x'] by simp
qed

text \<open>
  C12: the retry future in any program: whatever runs between its polls and whatever that does to
  the world, the answer that ends it is no panic, in debug and release builds; it is the verdict
  on an outcome that the operation's future gave for the attempt the statistics name, all earlier
  attempts having been passed over by the classifier and the stop strategy; and an outcome that
  the classifier wanted to retry is given back only because at the reported elapsed time the
  timeout was over or the stop strategy asked to stop.
\<close>

theorem answer_under_any_interference:
  assumes "op_answers (ac_op a) P" and "polled (async_poll dbg) (into_run a) this"
    and "async_poll dbg this x = Some ((answer, this'), x')" and "answer \<noteq> Inr Pending"
  shows "\<exists>res stats. answer = Inr (Ready (res, stats))
    \<and> decided (ac_classifier a) (ac_stop a) (ac_timeout a) P res stats"
  using async_poll_open [OF assms(1) polled_open [OF assms(1,2)] assms(3)] assms(4)
  by (simp add: decided_answer_def)

theorem answer_under_any_interference_witness:
  "\<exists>res stats this' x'. async_poll True (into_run (async_of (sample_retry Err (StopAfterAttempts 3)) virtual_async_clock))
       virtual_clock_new = Some ((Inr (Ready (res, stats)), this'), x')
     \<and> decided (default_decide classify_result) (StopAfterAttempts 3 :: virtual_clock stop_strategy) None
         (\<lambda>n oc. oc = Err (unat n)) res stats"
proof -
  let ?r = "sample_retry Err (StopAfterAttempts 3)"
  let ?a = "async_of ?r virtual_async_clock"
  have limit: "stop_limit (rt_stop ?r) = Some 3" by simp
  have same: "blocking_retry (State_Monad.return ()) ?a = ?r"
    unfolding blocking_async_of by (simp add: sample_retry_def set_clock_def)
  from run_stop_limit [OF limit, of True virtual_clock_new] obtain res stats w x' where
    r: "run True ?r virtual_clock_new = Some (Inr ((res, stats), w), x')" by blast
  with one_poll [OF virtual_async_ready, of True ?r virtual_clock_new "State_Monad.return ()"] obtain this' where
    p: "async_poll True (into_run ?a) virtual_clock_new = Some ((Inr (Ready (res, stats)), this'), x')"
    by (auto simp: same polled_once_def)
  have op: "op_answers (ac_op ?a) (\<lambda>n oc. oc = Err (unat n))"
    by (auto simp: op_answers_def async_of_def run_map_state ready_future_def intro!: future_of_answers_only)
  from answer_under_any_interference [OF op polled_here p] p show ?thesis
    by (auto simp: async_of_def)
qed

subsection \<open>What a race returns\<close>

text \<open>
  The documented contract of \<open>timeout\<close> and \<open>select!\<close> as far as it concerns the raced future: a race
  that gives the future's value polled the future until it was ready with that value, and one
  that unwinds does so because a poll of the future did.
\<close>

locale lawful_race =
  fixes poll_it :: "'i \<Rightarrow> 'x \<Rightarrow> (((panic + 'u poll) \<times> 'i) \<times> 'x) option"
    and race :: "'i \<Rightarrow> 'x \<Rightarrow> ((panic + 'u option) \<times> 'x) option"
  assumes answered: "race i x = Some (Inr (Some v), x') \<Longrightarrow>
      \<exists>j y j' y'. polled poll_it i j \<and> poll_it j y = Some ((Inr (Ready v), j'), y')"
    and unwound: "race i x = Some (Inl p, x') \<Longrightarrow>
      \<exists>j y j' y'. polled poll_it i j \<and> poll_it j y = Some ((Inl p, j'), y')"
begin

lemma race_gives:
  assumes "race i x = Some (out, x')"
    and ends: "\<And>j y answer j' y'. polled poll_it i j \<Longrightarrow> poll_it j y = Some ((answer, j'), y') \<Longrightarrow>
      answer \<noteq> Inr Pending \<Longrightarrow> answer = Inr (Ready v)"
  shows "out = Inr None \<or> out = Inr (Some v)"
proof (cases out)
  case (Inl p)
  then show ?thesis using unwound [of i x p x'] assms(1) ends by fastforce
next
  case (Inr u)
  then show ?thesis using answered [of i x _ x'] assms(1) ends by (cases u) fastforce+
qed

end

text \<open>
  A race as these primitives run it: poll the future, then see whether the other side is done, and
  else let the rest of the program run.
\<close>

partial_function (option) poll_race ::
    "('i \<Rightarrow> 'x \<Rightarrow> (((panic + 'u poll) \<times> 'i) \<times> 'x) option) \<Rightarrow> ('x \<Rightarrow> bool) \<Rightarrow> ('x, unit) state \<Rightarrow>
     'i \<Rightarrow> 'x \<Rightarrow> (('i + (panic + 'u)) \<times> 'x) option" where
  "poll_race poll_it lost idle i x =
     (case poll_it i x of
        None \<Rightarrow> None
      | Some ((answer, i'), x') \<Rightarrow>
          (case answer of
             Inl p \<Rightarrow> Some (Inr (Inl p), x')
           | Inr v \<Rightarrow>
               (case v of
                  Ready out \<Rightarrow> Some (Inr (Inr out), x')
                | Pending \<Rightarrow>
                    if lost x' then Some (Inl i', x')
                    else poll_race poll_it lost idle i' (snd (run_state idle x')))))"

definition race_end :: "'i + (panic + 'u) \<Rightarrow> panic + 'u option" where
  "race_end r = (case r of Inl _ \<Rightarrow> Inr None | Inr (Inl p) \<Rightarrow> Inl p | Inr (Inr v) \<Rightarrow> Inr (Some v))"

definition ref_race ::
    "('i \<Rightarrow> 'x \<Rightarrow> (((panic + 'u poll) \<times> 'i) \<times> 'x) option) \<Rightarrow> ('x \<Rightarrow> bool) \<Rightarrow> ('x, unit) state \<Rightarrow>
     'i \<Rightarrow> 'x \<Rightarrow> ((panic + 'u option) \<times> 'x) option" where
  "ref_race poll_it lost idle i x = map_option (\<lambda>(r, x'). (race_end r, x')) (poll_race poll_it lost idle i x)"

lemma poll_race_ends:
  assumes "poll_race poll_it lost idle i x = Some q" and "polled poll_it i0 i"
  shows "case fst q of
      Inl j \<Rightarrow> polled poll_it i0 j
    | Inr (Inl p) \<Rightarrow> \<exists>j y j' y'. polled poll_it i0 j \<and> poll_it j y = Some ((Inl p, j'), y')
    | Inr (Inr v) \<Rightarrow> \<exists>j y j' y'. polled poll_it i0 j \<and> poll_it j y = Some ((Inr (Ready v), j'), y')"
proof -
  let ?Q = "\<lambda>poll_it q. case fst q of
      Inl j \<Rightarrow> polled poll_it i0 j
    | Inr (Inl p) \<Rightarrow> \<exists>j y j' y'. polled poll_it i0 j \<and> poll_it j y = Some ((Inl p, j'), y')
    | Inr (Inr v) \<Rightarrow> \<exists>j y j' y'. polled poll_it i0 j \<and> poll_it j y = Some ((Inr (Ready v), j'), y')"
  have "polled poll_it i0 i \<longrightarrow> ?Q poll_it q"
  proof (rule poll_race.raw_induct
      [where P = "\<lambda>poll_it lost idle i x q. polled poll_it i0 i \<longrightarrow> ?Q poll_it q"
        and xa = "((((poll_it, lost), idle), i), x)" and y = q, unfolded prod.case, OF _ assms(1)],
      intro impI, goal_cases)
    case (1 again poll_it lost idle i x q)
    note IH = 1(1) and eq = 1(2) and here = 1(3)
    obtain answer i' x' where p: "poll_it i x = Some ((answer, i'), x')"
      using eq by (auto split: option.splits)
    show ?case
    proof (cases "answer = Inr Pending")
      case True
      then have "polled poll_it i0 i'" using polled_again [OF here] p by simp
      then show ?thesis using eq p True IH by (auto split: if_splits)
    next
      case False
      then show ?thesis
        using eq p here by (auto split: sum.splits poll.splits; blast)
    qed
  qed
  then show ?thesis using assms(2) by simp
qed

lemma race_end_iff [simp]:
  "race_end r = Inr (Some v) \<longleftrightarrow> r = Inr (Inr v)" "race_end r = Inl p \<longleftrightarrow> r = Inr (Inl p)"
  "race_end r = Inr None \<longleftrightarrow> (\<exists>j. r = Inl j)"
  by (auto simp: race_end_def split: sum.splits)

lemma ref_race_iff:
  "ref_race poll_it lost idle i x = Some (out, x') \<longleftrightarrow>
     (\<exists>r. poll_race poll_it lost idle i x = Some (r, x') \<and> race_end r = out)"
  by (auto simp: ref_race_def)

interpretation ref_race: lawful_race poll_it "ref_race poll_it lost idle"
proof
  fix i x v x'
  assume "ref_race poll_it lost idle i x = Some (Inr (Some v), x')"
  then have "poll_race poll_it lost idle i x = Some (Inr (Inr v), x')" by (auto simp: ref_race_iff)
  from poll_race_ends [OF this polled_here]
  show "\<exists>j y j' y'. polled poll_it i j \<and> poll_it j y = Some ((Inr (Ready v), j'), y')" by simp
next
  fix i x p x'
  assume "ref_race poll_it lost idle i x = Some (Inl p, x')"
  then have "poll_race poll_it lost idle i x = Some (Inr (Inl p), x')" by (auto simp: ref_race_iff)
  from poll_race_ends [OF this polled_here]
  show "\<exists>j y j' y'. polled poll_it i j \<and> poll_it j y = Some ((Inl p, j'), y')" by simp
qed

end
