(* ===== verification/Jitter_Threads.thy ===== *)
theory Jitter_Threads
  imports Wait_Jitter "HOL-Library.Multiset"
begin

text \<open>
  The generator of a jittered strategy that several threads share, on targets with 64-bit
  atomics: \<open>advance\<close> is one \<open>fetch_add\<close>, and the mixing of \<open>next_u64\<close> is local to the
  thread. Read-modify-writes of one atomic are totally ordered even when relaxed, so a run is
  a sequence of such steps in any interleaving.
\<close>

text \<open>A thread has nothing to do, or holds the state it drew.\<close>

datatype drawing = Idle | Drawn u64

record shared_rng =
  sr_state :: splitmix64
  sr_threads :: "drawing list"
  sr_delivered :: "(nat \<times> u64) list"

inductive rng_step :: "shared_rng \<Rightarrow> shared_rng \<Rightarrow> bool" where
  fetch: "t < length (sr_threads s) \<Longrightarrow> sr_threads s ! t = Idle \<Longrightarrow> advance (sr_state s) = (z, g) \<Longrightarrow>
     rng_step s (s\<lparr>sr_state := g, sr_threads := (sr_threads s)[t := Drawn z]\<rparr>)"
| deliver: "t < length (sr_threads s) \<Longrightarrow> sr_threads s ! t = Drawn z \<Longrightarrow>
     rng_step s (s\<lparr>sr_threads := (sr_threads s)[t := Idle],
                   sr_delivered := sr_delivered s @ [(t, splitmix_mix z)]\<rparr>)"

inductive_cases rng_stepE: "rng_step s s'"

definition rng_start :: "splitmix64 \<Rightarrow> nat \<Rightarrow> shared_rng" where
  "rng_start g threads = \<lparr>sr_state = g, sr_threads = replicate threads Idle, sr_delivered = []\<rparr>"

text \<open>The numbers drawn and not yet delivered.\<close>

primrec pending_number :: "drawing \<Rightarrow> u64 multiset" where
  "pending_number Idle = {#}"
| "pending_number (Drawn z) = {#splitmix_mix z#}"

definition pending_numbers :: "drawing list \<Rightarrow> u64 multiset" where
  "pending_numbers ts = sum_list (map pending_number ts)"

lemma pending_numbers_update:
  "t < length ts \<Longrightarrow> pending_numbers (ts[t := d]) + pending_number (ts ! t) = pending_numbers ts + pending_number d"
  unfolding pending_numbers_def
  by (induction ts arbitrary: t) (auto simp: nth_Cons ac_simps split: nat.splits)

lemma pending_numbers_replicate [simp]: "pending_numbers (replicate n Idle) = {#}"
  by (induction n) (simp_all add: pending_numbers_def)

text \<open>What has been drawn, in all threads together, is what one thread would have drawn.\<close>

definition rng_inv :: "splitmix64 \<Rightarrow> nat \<Rightarrow> shared_rng \<Rightarrow> bool" where
  "rng_inv g n s \<longleftrightarrow> rng_state (sr_state s) = rng_state g + of_nat n * GAMMA
     \<and> mset (map snd (sr_delivered s)) + pending_numbers (sr_threads s) = mset (draws n g)"

lemma draws_snoc: "draws (Suc n) g = draws n g @ [splitmix_mix (rng_state g + of_nat (Suc n) * GAMMA)]"
  by (simp add: draws_eq)

lemma rng_inv_step:
  assumes "rng_step s s'" and "rng_inv g n s"
  shows "rng_inv g n s' \<or> rng_inv g (Suc n) s'"
proof (rule rng_stepE [OF assms(1)])
  fix t z h
  assume s': "s' = s\<lparr>sr_state := h, sr_threads := (sr_threads s)[t := Drawn z]\<rparr>"
    and t: "t < length (sr_threads s)" "sr_threads s ! t = Idle" and h: "advance (sr_state s) = (z, h)"
  have z: "z = rng_state g + of_nat (Suc n) * GAMMA" "rng_state h = z"
    using h assms(2) by (auto simp: rng_inv_def advance_def Let_def algebra_simps)
  have "pending_numbers ((sr_threads s)[t := Drawn z]) = pending_numbers (sr_threads s) + {#splitmix_mix z#}"
    using pending_numbers_update [OF t(1), of "Drawn z"] t(2) by simp
  then have "rng_inv g (Suc n) s'"
    using assms(2) z unfolding rng_inv_def draws_snoc s' by (simp add: ac_simps)
  then show ?thesis ..
next
  fix t z
  assume s': "s' = s\<lparr>sr_threads := (sr_threads s)[t := Idle],
      sr_delivered := sr_delivered s @ [(t, splitmix_mix z)]\<rparr>"
    and t: "t < length (sr_threads s)" "sr_threads s ! t = Drawn z"
  have "pending_numbers (sr_threads s) = pending_numbers ((sr_threads s)[t := Idle]) + {#splitmix_mix z#}"
    using pending_numbers_update [OF t(1), of Idle] t(2) by simp
  then have "rng_inv g n s'"
    using assms(2) unfolding rng_inv_def s' by (simp add: ac_simps)
  then show ?thesis ..
qed

lemma rng_inv_reachable:
  assumes "rng_step\<^sup>*\<^sup>* (rng_start g threads) s"
  shows "\<exists>n. rng_inv g n s"
  using assms
proof (induction rule: rtranclp_induct)
  case base
  have "rng_inv g 0 (rng_start g threads)"
    by (simp add: rng_inv_def rng_start_def pending_numbers_replicate)
  then show ?case ..
next
  case (step s s')
  then show ?case using rng_inv_step by blast
qed

text \<open>
  C32: whatever the interleaving, threads that share a generator get no number twice within
  \<open>2 ^ 64\<close> draws; and when none of them is in the middle of a draw, the numbers delivered so
  far are exactly those one thread would have drawn, in some order.
\<close>

theorem shared_generator_is_one_stream:
  assumes "rng_step\<^sup>*\<^sup>* (rng_start g threads) s"
  shows "(length (sr_delivered s) + size (pending_numbers (sr_threads s)) \<le> 2 ^ 64 \<longrightarrow>
            distinct (map snd (sr_delivered s)))
    \<and> (pending_numbers (sr_threads s) = {#} \<longrightarrow>
            mset (map snd (sr_delivered s)) = mset (draws (length (sr_delivered s)) g))"
proof -
  obtain n where n: "mset (map snd (sr_delivered s)) + pending_numbers (sr_threads s) = mset (draws n g)"
    using rng_inv_reachable [OF assms] by (auto simp: rng_inv_def)
  from arg_cong [OF n, of size] have len: "length (sr_delivered s) + size (pending_numbers (sr_threads s)) = n"
    by (simp add: draws_eq)
  have "distinct (map snd (sr_delivered s))" if "n \<le> 2 ^ 64"
  proof -
    obtain ps where "pending_numbers (sr_threads s) = mset ps" using ex_mset by metis
    with n have "mset (map snd (sr_delivered s) @ ps) = mset (draws n g)" by simp
    then have "distinct (map snd (sr_delivered s) @ ps)"
      using draws_distinct [OF that, of g] mset_eq_imp_distinct_iff by blast
    then show ?thesis by simp
  qed
  then show ?thesis using n len by auto
qed

text \<open>Two threads; the second draws between the first one's two steps and delivers first.\<close>

theorem shared_generator_is_one_stream_witness:
  "\<exists>s. rng_step\<^sup>*\<^sup>* (rng_start (SplitMix64 7) 2) s
     \<and> sr_delivered s = [(1, draws 2 (SplitMix64 7) ! 1), (0, draws 2 (SplitMix64 7) ! 0)]
     \<and> mset (map snd (sr_delivered s)) = mset (draws 2 (SplitMix64 7))"
proof -
  let ?g = "SplitMix64 7"
  let ?z1 = "7 + GAMMA" and ?z2 = "7 + GAMMA + GAMMA"
  define s1 where "s1 = \<lparr>sr_state = SplitMix64 ?z1, sr_threads = [Drawn ?z1, Idle], sr_delivered = []\<rparr>"
  define s2 where "s2 = \<lparr>sr_state = SplitMix64 ?z2, sr_threads = [Drawn ?z1, Drawn ?z2], sr_delivered = []\<rparr>"
  define s3 where "s3 = \<lparr>sr_state = SplitMix64 ?z2, sr_threads = [Drawn ?z1, Idle],
    sr_delivered = [(1, splitmix_mix ?z2)]\<rparr>"
  define s4 where "s4 = \<lparr>sr_state = SplitMix64 ?z2, sr_threads = [Idle, Idle],
    sr_delivered = [(1, splitmix_mix ?z2), (0, splitmix_mix ?z1)]\<rparr>"
  have "rng_step (rng_start ?g 2) s1"
    using rng_step.fetch [of 0 "rng_start ?g 2" ?z1 "SplitMix64 ?z1"]
    by (simp add: rng_start_def s1_def advance_def Let_def numeral_2_eq_2)
  moreover have "rng_step s1 s2"
    using rng_step.fetch [of 1 s1 ?z2 "SplitMix64 ?z2"] by (simp add: s1_def s2_def advance_def Let_def)
  moreover have "rng_step s2 s3" using rng_step.deliver [of 1 s2 ?z2] by (simp add: s2_def s3_def)
  moreover have "rng_step s3 s4" using rng_step.deliver [of 0 s3 ?z1] by (simp add: s3_def s4_def)
  ultimately have r: "rng_step\<^sup>*\<^sup>* (rng_start ?g 2) s4"
    by (meson rtranclp.rtrancl_into_rtrancl rtranclp.rtrancl_refl)
  have "pending_numbers (sr_threads s4) = {#}" by (simp add: s4_def pending_numbers_def)
  moreover have "length (sr_delivered s4) = 2" by (simp add: s4_def)
  ultimately have "mset (map snd (sr_delivered s4)) = mset (draws 2 ?g)"
    using shared_generator_is_one_stream [OF r] by metis
  moreover have "sr_delivered s4 = [(1, draws 2 ?g ! 1), (0, draws 2 ?g ! 0)]"
    by (simp add: s4_def draws_eq numeral_2_eq_2 algebra_simps)
  ultimately show ?thesis using r by blast
qed

end
