(* ===== verification/Jitter_Uniform.thy ===== *)
theory Jitter_Uniform
  imports Wait_Jitter
begin

text \<open>
  How uniform a draw below a bound is. \<open>SplitMix64::next_bounded\<close> in \<open>src/src/wait/jitter.rs\<close>
  takes a remainder and calls the bias negligible; here it is counted. Over the states of
  the generator, that is over one full period, no value of the range is drawn more than once
  more often than another.
\<close>

lemma card_residue:
  fixes R :: nat
  assumes "V < R"
  shows "card {n. n < N \<and> n mod R = V} = N div R + (if V < N mod R then 1 else 0)"
proof -
  let ?K = "{..< N div R + (if V < N mod R then 1 else 0)}"
  have below: "k * R + V < N \<longleftrightarrow> k \<in> ?K" for k
  proof -
    have N: "N div R * R + N mod R = N" by simp
    have "N mod R < R" using assms by simp
    consider "k < N div R" | "k = N div R" | "N div R < k" by linarith
    then show ?thesis
    proof cases
      case 1
      then have "Suc k * R \<le> N div R * R" by (intro mult_le_mono1) simp
      then have "k * R + V < N" using assms N unfolding mult_Suc by linarith
      then show ?thesis using 1 by simp
    next
      case 2
      have "N div R * R + V < N \<longleftrightarrow> V < N mod R" using N by linarith
      then show ?thesis using 2 by simp
    next
      case 3
      then have "Suc (N div R) * R \<le> k * R" by (intro mult_le_mono1) simp
      then have "\<not> k * R + V < N" using \<open>N mod R < R\<close> N unfolding mult_Suc by linarith
      then show ?thesis using 3 by simp
    qed
  qed
  have "{n. n < N \<and> n mod R = V} = (\<lambda>k. k * R + V) ` ?K"
  proof (intro equalityI subsetI)
    fix n assume n: "n \<in> {n. n < N \<and> n mod R = V}"
    then have "n < N" "n mod R = V" by simp_all
    then have e: "n = n div R * R + V" using div_mult_mod_eq [of n R] by linarith
    then have "n div R \<in> ?K" using below [of "n div R"] \<open>n < N\<close> by argo
    then show "n \<in> (\<lambda>k. k * R + V) ` ?K" 
      by (rule image_eqI [where x = "n div R", rotated]) (rule e)
  next
    fix n assume "n \<in> (\<lambda>k. k * R + V) ` ?K"
    then obtain k where n: "n = k * R + V" and "k \<in> ?K" by (rule imageE)
    then have "n < N" using iffD2 [OF below] by (simp only: n)
    moreover have "n mod R = V" unfolding n using assms by simp
    ultimately show "n \<in> {n. n < N \<and> n mod R = V}" by simp
  qed
  moreover have "inj_on (\<lambda>k. k * R + V) ?K" using assms by (auto simp: inj_on_def)
  ultimately show ?thesis by (simp add: card_image)
qed

lemma unat_less_u64: "unat (z :: u64) < 2 ^ 64"
  using unsigned_less [of z] by simp

lemma bij_next_u64: "bij (\<lambda>s. fst (next_u64 (SplitMix64 s)))"
proof -
  have "inj (\<lambda>s :: u64. s + GAMMA)" by (simp add: inj_def)
  then have "inj (splitmix_mix \<circ> (\<lambda>s. s + GAMMA))" by (intro inj_compose splitmix_mix_inj)
  then have "inj (\<lambda>s. fst (next_u64 (SplitMix64 s)))"
    by (simp add: o_def next_u64_def advance_def Let_def)
  then show ?thesis unfolding bij_def using finite_UNIV_inj_surj finite by blast
qed

lemma next_bounded_residue:
  "unat (fst (next_bounded g bound)) = unat (fst (next_u64 g)) mod (unat bound + 1)"
proof (cases "bound = - 1")
  case True
  then show ?thesis
    using unat_less_u64 [of "fst (next_u64 g)"] by (simp add: next_bounded_def unsigned_minus_1_eq_mask mask_eq_exp_minus_1)
next
  case False
  then have "1 + bound \<noteq> 0" by (metis add_eq_0_iff)
  then have "unat (bound + 1) = unat bound + 1" using unatSuc [of bound] by (simp add: add.commute)
  then show ?thesis
    using False by (simp add: next_bounded_def Let_def unat_mod split: prod.splits)
qed

lemma card_draws:
  "card {s. P (unat (fst (next_u64 (SplitMix64 s))))} = card {n. n < 2 ^ 64 \<and> P n}"
proof -
  let ?f = "\<lambda>s. unat (fst (next_u64 (SplitMix64 s)))"
  have f: "bij_betw ?f UNIV {..< 2 ^ 64}"
  proof -
    have "bij_betw (unat :: u64 \<Rightarrow> nat) UNIV {..< 2 ^ 64}"
    proof (intro bij_betw_imageI equalityI subsetI)
      show "inj (unat :: u64 \<Rightarrow> nat)" by (auto simp: inj_def word_unat_eq_iff)
    next
      fix n :: nat assume "n \<in> {..< 2 ^ 64}"
      then have "n = unat (of_nat n :: u64)" by (simp add: unat_of_nat take_bit_nat_eq_self)
      then show "n \<in> range (unat :: u64 \<Rightarrow> nat)" by (rule range_eqI)
    qed (use unat_less_u64 in auto)
    then show ?thesis using bij_betw_trans [OF bij_next_u64] by (simp add: o_def)
  qed
  have "?f ` {s. P (?f s)} = {n. n < 2 ^ 64 \<and> P n}"
  proof (intro equalityI subsetI)
    fix n assume n: "n \<in> {n. n < 2 ^ 64 \<and> P n}"
    then have "n \<in> range ?f" using f by (simp add: bij_betw_def)
    then show "n \<in> ?f ` {s. P (?f s)}" using n by auto
  qed (use unat_less_u64 in auto)
  moreover have "inj_on ?f {s. P (?f s)}" using f by (auto simp: bij_betw_def intro: inj_on_subset)
  ultimately show ?thesis by (simp only: card_image [symmetric])
qed

text \<open>
  C29: The comment in \<open>SplitMix64::next_bounded\<close> says the bias of the remainder is negligible;
  it is at most one draw. Of the \<open>2 ^ 64\<close> states the generator can be in, a value of the range
  \<open>[0, bound]\<close> is drawn from exactly \<open>2 ^ 64 div (bound + 1)\<close> of them, with one more for the
  values below the remainder of that division, and a value above the bound from none. (With
  \<open>bound\<close> the largest \<open>u64\<close> every value is drawn from exactly one state.)
\<close>

theorem bounded_draw_is_nearly_uniform:
  "card {s. fst (next_bounded (SplitMix64 s) bound) = v} =
     (if v \<le> bound
      then 2 ^ 64 div (unat bound + 1) + (if unat v < 2 ^ 64 mod (unat bound + 1) then 1 else 0)
      else 0)"
proof (cases "v \<le> bound")
  case True
  then have "unat v < unat bound + 1" by (simp add: word_le_nat_alt)
  moreover have "{s. fst (next_bounded (SplitMix64 s) bound) = v} =
      {s. unat (fst (next_u64 (SplitMix64 s))) mod (unat bound + 1) = unat v}"
    by (metis next_bounded_residue word_unat_eq_iff)
  ultimately show ?thesis
    using card_residue card_draws [of "\<lambda>n. n mod (unat bound + 1) = unat v"] True by simp
next
  case False
  then have "{s. fst (next_bounded (SplitMix64 s) bound) = v} = {}"
    using next_bounded_le by auto
  then show ?thesis using False by simp
qed

end
