(* ===== verification/Cloning.thy ===== *)
theory Cloning
  imports Policy Jitter_Uniform
begin

text \<open>
  \<open>Clone\<close> of wait strategies and policies: derived, field by field, for every strategy of
  \<open>src/src/wait/\<close> but \<open>Jittered\<close>, whose own \<open>clone\<close> takes a fresh nonce, and for \<open>RetryPolicy\<close>.
  Stop strategies, classifiers and a user's own strategies are copied; a borrowed strategy is
  borrowed again. Where a nonce comes from is a computation \<open>fresh\<close> of its own state: the
  process-wide counter, and with \<open>std\<close> the wall clock.
\<close>

primrec wait_clone :: "('s, u64) state \<Rightarrow> 'x wait_strategy \<Rightarrow> ('s, 'x wait_strategy) state" where
  "wait_clone fresh (WaitFixed dur) = State_Monad.return (WaitFixed dur)"
| "wait_clone fresh (WaitLinear initial increment) = State_Monad.return (WaitLinear initial increment)"
| "wait_clone fresh (WaitExponential initial base) = State_Monad.return (WaitExponential initial base)"
| "wait_clone fresh (WaitCapped inner bound) = do {
     inner' \<leftarrow> wait_clone fresh inner;
     State_Monad.return (WaitCapped inner' bound) }"
| "wait_clone fresh (WaitCombine left right) = do {
     left' \<leftarrow> wait_clone fresh left;
     right' \<leftarrow> wait_clone fresh right;
     State_Monad.return (WaitCombine left' right') }"
| "wait_clone fresh (WaitChain first second after) = do {
     first' \<leftarrow> wait_clone fresh first;
     second' \<leftarrow> wait_clone fresh second;
     State_Monad.return (WaitChain first' second' after) }"
| "wait_clone fresh (Jittered inner j) = do {
     inner' \<leftarrow> wait_clone fresh inner;
     nonce \<leftarrow> fresh;
     State_Monad.return (Jittered inner' (jitter_clone j nonce)) }"
| "wait_clone fresh (WaitRef w) = State_Monad.return (WaitRef w)"
| "wait_clone fresh (WaitCustom f) = State_Monad.return (WaitCustom f)"

definition policy_clone ::
    "('s, u64) state \<Rightarrow> ('t, 'x wait_strategy, 'c) retry_policy \<Rightarrow>
     ('s, ('t, 'x wait_strategy, 'c) retry_policy) state" where
  "policy_clone fresh p = do {
     wait \<leftarrow> wait_clone fresh (rp_wait p);
     State_Monad.return \<lparr>rp_stop = rp_stop p, rp_wait = wait, rp_classifier = rp_classifier p,
       rp_timeout = rp_timeout p\<rparr> }"

text \<open>Without \<open>std\<close> a nonce is the counter.\<close>

definition counter_nonce :: "('w::len word, u64) state" where
  "counter_nonce = State (next_jitter_nonce True False (Ok duration_zero :: (duration, unit) result))"

lemma run_counter_nonce: "run_state counter_nonce c = (ucast c, c + 1)"
  by (simp add: counter_nonce_def next_jitter_nonce_def)

subsection \<open>The generators of a clone\<close>

text \<open>The jitters a strategy owns, in the order in which a clone renews them.\<close>

primrec owned_jitters :: "'x wait_strategy \<Rightarrow> jitter list" where
  "owned_jitters (WaitFixed dur) = []"
| "owned_jitters (WaitLinear initial increment) = []"
| "owned_jitters (WaitExponential initial base) = []"
| "owned_jitters (WaitCapped inner bound) = owned_jitters inner"
| "owned_jitters (WaitCombine left right) = owned_jitters left @ owned_jitters right"
| "owned_jitters (WaitChain first second after) = owned_jitters first @ owned_jitters second"
| "owned_jitters (Jittered inner j) = owned_jitters inner @ [j]"
| "owned_jitters (WaitRef w) = []"
| "owned_jitters (WaitCustom f) = []"

primrec nonces :: "('s, u64) state \<Rightarrow> nat \<Rightarrow> ('s, u64 list) state" where
  "nonces fresh 0 = State_Monad.return []"
| "nonces fresh (Suc n) = do {
     a \<leftarrow> fresh;
     as \<leftarrow> nonces fresh n;
     State_Monad.return (a # as) }"

lemma run_nonces_add:
  "run_state (nonces fresh (m + n)) s =
     (let (as, s1) = run_state (nonces fresh m) s; (bs, s2) = run_state (nonces fresh n) s1 in (as @ bs, s2))"
  by (induction m arbitrary: s) (auto simp: case_prod_beta)

lemma length_nonces: "run_state (nonces fresh n) s = (as, s') \<Longrightarrow> length as = n"
  by (induction n arbitrary: s as) (auto split: prod.splits)

lemma counter_nonces:
  "run_state (nonces counter_nonce n) c = (map (\<lambda>i. ucast (c + of_nat i)) [0..<n], c + of_nat n)"
proof (induction n arbitrary: c)
  case (Suc n)
  show ?case
    unfolding upt_conv_Cons [OF zero_less_Suc] map_Suc_upt [symmetric]
    by (simp add: run_counter_nonce Suc.IH algebra_simps)
qed simp

lemma jitter_clone_simps [simp]:
  "jt_kind (jitter_clone j a) = jt_kind j" "jt_seed (jitter_clone j a) = jt_seed j"
  "jt_rng (jitter_clone j a) = seeded_rng (jt_seed j) a"
  by (simp_all add: jitter_clone_def)

text \<open>
  A clone has the configuration of the original, and each of its jitters the next nonce: \<open>renews\<close>
  relates the jitters before and after.
\<close>

definition renews :: "('s, u64) state \<Rightarrow> 's \<Rightarrow> 's \<Rightarrow> jitter list \<Rightarrow> jitter list \<Rightarrow> bool" where
  "renews fresh s s' js js' \<longleftrightarrow>
     (\<exists>as. run_state (nonces fresh (length js)) s = (as, s') \<and> js' = map2 jitter_clone js as)"

lemma renews_Nil [simp]: "renews fresh s s' [] js' \<longleftrightarrow> s' = s \<and> js' = []"
  by (auto simp: renews_def)

lemma renews_append:
  assumes "renews fresh s s1 xs xs'" and "renews fresh s1 s2 ys ys'"
  shows "renews fresh s s2 (xs @ ys) (xs' @ ys')"
proof -
  obtain as bs where "run_state (nonces fresh (length xs)) s = (as, s1)" "xs' = map2 jitter_clone xs as"
      "run_state (nonces fresh (length ys)) s1 = (bs, s2)" "ys' = map2 jitter_clone ys bs"
    using assms unfolding renews_def by blast
  moreover from this have "length as = length xs" by (simp add: length_nonces)
  ultimately show ?thesis
    unfolding renews_def by (intro exI [of _ "as @ bs"]) (simp add: run_nonces_add zip_append)
qed

lemma renews_one: "run_state fresh s = (a, s') \<Longrightarrow> renews fresh s s' [j] [jitter_clone j a]"
  by (simp add: renews_def)

lemma wait_clone_spec:
  "run_state (wait_clone fresh w) s = (w', s') \<Longrightarrow>
     wait_config w' = wait_config w \<and> renews fresh s s' (owned_jitters w) (owned_jitters w')"
proof (induction w arbitrary: s w' s')
  case (WaitCapped inner bound)
  then show ?case by (auto split: prod.splits)
next
  case (WaitCombine left right)
  then show ?case by (auto split: prod.splits) (blast intro: renews_append)
next
  case (WaitChain first second after)
  then show ?case by (auto split: prod.splits) (blast intro: renews_append)
next
  case (Jittered inner j)
  then show ?case
    by (auto simp: jitter_config_eq [of "jitter_clone j _" j] split: prod.splits
        intro!: renews_append renews_one) blast
qed auto

lemma wait_clone_plain: "owned_jitters w = [] \<Longrightarrow> wait_clone fresh w = State_Monad.return w"
  by (induction w) simp_all

text \<open>
  What a clone is: the configuration is kept, so every bound on the delays of the original is one
  on those of the clone, and a policy without jitter is its own clone.
\<close>

lemma policy_clone_keeps:
  assumes "run_state (policy_clone fresh p) s = (p', s')"
  shows "wait_config (rp_wait p') = wait_config (rp_wait p)"
    and "wait_lower (rp_wait p') st = wait_lower (rp_wait p) st" "wait_upper (rp_wait p') st = wait_upper (rp_wait p) st"
    and "owned_jitters (rp_wait p) = [] \<Longrightarrow> p' = p \<and> s' = s"
proof -
  obtain w s1 where w: "run_state (wait_clone fresh (rp_wait p)) s = (w, s1)" by fastforce
  with assms have p': "p' = p\<lparr>rp_wait := w\<rparr>" "s' = s1" by (auto simp: policy_clone_def)
  show config: "wait_config (rp_wait p') = wait_config (rp_wait p)" using wait_clone_spec [OF w] p' by simp
  show "wait_lower (rp_wait p') st = wait_lower (rp_wait p) st" "wait_upper (rp_wait p') st = wait_upper (rp_wait p) st"
    using same_config_range [OF config] by simp_all
  show "p' = p \<and> s' = s" if "owned_jitters (rp_wait p) = []"
    using w p' by (simp add: wait_clone_plain [OF that])
qed

subsection \<open>Clones diverge\<close>

primrec wait_clones :: "('s, u64) state \<Rightarrow> nat \<Rightarrow> 'x wait_strategy \<Rightarrow> ('s, 'x wait_strategy list) state" where
  "wait_clones fresh 0 w = State_Monad.return []"
| "wait_clones fresh (Suc n) w = do {
     c \<leftarrow> wait_clone fresh w;
     cs \<leftarrow> wait_clones fresh n w;
     State_Monad.return (c # cs) }"

lemma wait_clones_renew:
  "run_state (wait_clones fresh n w) s = (cs, s') \<Longrightarrow>
     renews fresh s s' (concat (replicate n (owned_jitters w))) (concat (map owned_jitters cs))"
proof (induction n arbitrary: s cs)
  case (Suc n)
  then show ?case by (auto split: prod.splits dest!: wait_clone_spec intro!: renews_append)
qed simp

lemma counter_clone_rng:
  assumes "renews counter_nonce c c' js js'" and "i < length js'"
  shows "jt_rng (js' ! i) = seeded_rng (jt_seed (js' ! i)) (ucast (c + of_nat i))" and "length js' = length js"
  using assms by (auto simp: renews_def counter_nonces)

lemma ucast_u64_inject:
  fixes a b :: "'w::len word"
  assumes "LENGTH('w) \<le> 64" and "(ucast a :: u64) = ucast b"
  shows "a = b"
proof -
  have "unat (ucast w :: u64) = unat w" for w :: "'w word"
  proof -
    have "unat w < 2 ^ LENGTH('w)" by simp
    also have "\<dots> \<le> 2 ^ 64" using assms(1) by (intro power_increasing) simp_all
    finally show ?thesis by (simp add: unsigned_ucast_eq take_bit_nat_eq_self)
  qed
  with assms(2) show ?thesis by (metis word_unat_eq_iff)
qed

text \<open>
  C30: without \<open>std\<close>, on a target with atomics and a \<open>usize\<close> of \<open>'w\<close> bits, the clones made of a
  strategy, however it is composed, do not share a stream: any two jitters in them that have the
  same seed draw different numbers, at every single draw, as long as the process has handed out at
  most \<open>2 ^ LENGTH('w)\<close> nonces.
\<close>

theorem clones_diverge:
  fixes c :: "'w::len word"
  assumes "LENGTH('w) \<le> 64" and "run_state (wait_clones counter_nonce n w) c = (cs, c')"
    and "n * length (owned_jitters w) \<le> 2 ^ LENGTH('w)"
    and "js = concat (map owned_jitters cs)" and "i < k" "k < length js"
    and "jt_seed (js ! i) = jt_seed (js ! k)" and "m < d"
  shows "draws d (jt_rng (js ! i)) ! m \<noteq> draws d (jt_rng (js ! k)) ! m"
proof -
  note renews = wait_clones_renew [OF assms(2), folded assms(4)]
  have len: "length js = n * length (owned_jitters w)"
    using counter_clone_rng(2) [OF renews assms(6)] by (simp add: length_concat sum_list_replicate)
  have "(of_nat i :: 'w word) \<noteq> of_nat k"
  proof
    assume "(of_nat i :: 'w word) = of_nat k"
    then have "unat (of_nat i :: 'w word) = unat (of_nat k :: 'w word)" by simp
    then show False using assms(3,5,6) len by (simp add: unat_of_nat)
  qed
  then have "(ucast (c + of_nat i) :: u64) \<noteq> ucast (c + of_nat k)"
    using ucast_u64_inject [OF assms(1), of "c + of_nat i" "c + of_nat k"] by auto
  from nonce_decorrelates [OF this assms(8)] show ?thesis
    using counter_clone_rng(1) [OF renews] assms(5-7) by simp
qed

theorem clones_diverge_witness:
  "\<exists>cs c' js. run_state (wait_clones counter_nonce 2 (Jittered (fixed (from_millis 50) :: unit wait_strategy)
       (jittered_new Full 1))) (2 :: 32 word) = (cs, c')
     \<and> js = concat (map owned_jitters cs) \<and> length js = 2
     \<and> draws 1 (jt_rng (js ! 0)) ! 0 \<noteq> draws 1 (jt_rng (js ! 1)) ! 0"
proof -
  let ?w = "Jittered (fixed (from_millis 50) :: unit wait_strategy) (jittered_new Full 1)"
  obtain cs c' where cs: "run_state (wait_clones counter_nonce 2 ?w) (2 :: 32 word) = (cs, c')" by fastforce
  let ?js = "concat (map owned_jitters cs)"
  have js: "length ?js = 2" "jt_seed (?js ! 0) = jt_seed (?js ! 1)"
    using cs by (auto simp: numeral_2_eq_2 fixed_def split: prod.splits)
  have "LENGTH(32) \<le> 64" "2 * length (owned_jitters ?w) \<le> 2 ^ LENGTH(32)" by (simp_all add: fixed_def)
  from clones_diverge [OF this(1) cs this(2) refl, of 0 1 0 1] js cs show ?thesis by auto
qed

text \<open>
  C31: without \<open>std\<close>, on a target with atomics, a clone need not diverge from its original, although
  the documentation says so. Where the jitter's inner strategy owns no jitter itself: if the
  original's nonce was set to the number the counter then stands at, the clone is the original,
  with the same stream. So is, for every value of the counter, the clone of a strategy with one
  particular seed.
\<close>

theorem clone_can_repeat_its_original:
  fixes c :: "'w::len word"
  assumes "owned_jitters inner = []"
  shows "run_state (wait_clone counter_nonce (Jittered inner (with_nonce j (ucast c)))) c =
         (Jittered inner (with_nonce j (ucast c)), c + 1)
    \<and> (\<exists>!seed. run_state (wait_clone counter_nonce (Jittered inner (with_seed j seed))) c =
         (Jittered inner (with_seed j seed), c + 1))"
proof -
  have clone: "run_state (wait_clone counter_nonce (Jittered inner j')) c = (Jittered inner (jitter_clone j' (ucast c)), c + 1)"
    for j' by (simp add: wait_clone_plain [OF assms] run_counter_nonce)
  have "jitter_clone (with_seed j seed) (ucast c) = with_seed j seed \<longleftrightarrow> derive_nonce seed = ucast c" for seed
  proof -
    have "a = b" if "seed XOR a = seed XOR b" for a b :: u64
    proof -
      have "a = seed XOR (seed XOR a)" "b = seed XOR (seed XOR b)" by (simp_all add: xor.assoc [symmetric])
      with that show ?thesis by simp
    qed
    then show ?thesis
      by (cases j) (auto simp: jitter_clone_def with_seed_def seeded_rng_def splitmix64_new_def)
  qed
  moreover have "\<exists>!seed. derive_nonce seed = ucast c"
    using bij_next_u64 unfolding derive_nonce_def splitmix64_new_def bij_iff by blast
  moreover have "jitter_clone (with_nonce j (ucast c)) (ucast c) = with_nonce j (ucast c)"
    by (simp add: jitter_clone_def with_nonce_def)
  ultimately show ?thesis unfolding clone by simp
qed

theorem clone_can_repeat_its_original_witness:
  "run_state (wait_clone counter_nonce (Jittered (fixed (from_millis 50) :: unit wait_strategy)
      (with_nonce (jittered_new Full 1) 2))) (2 :: 32 word) =
     (Jittered (fixed (from_millis 50)) (with_nonce (jittered_new Full 1) 2), 3)"
proof -
  have "owned_jitters (fixed (from_millis 50) :: unit wait_strategy) = []" by (simp add: fixed_def)
  from clone_can_repeat_its_original [OF this, of "jittered_new Full 1" "2 :: 32 word"] show ?thesis by simp
qed

end
