(* ===== verification/Call_Order.thy ===== *)
theory Call_Order
  imports Observers
begin

text \<open>
  Every call an engine makes, in order. A builder is given a recorder next to each of its parts:
  one more hook, a wait strategy that adds zero, a stop strategy that never fires, and wrappers
  around the operation, the classifier and the clock. The recorded run is the run, and what it
  records is the order of operations of the SPEC, section 7.
\<close>

datatype call =
    CallBefore | CallOp | CallAfter | CallDecide | CallStop | CallWait | CallSleep duration | CallExit

text \<open>An attempt that is retried after the delay \<open>d\<close>, and the attempt that ends the loop.\<close>

definition round_calls :: "duration \<Rightarrow> call list" where
  "round_calls d = [CallBefore, CallOp, CallAfter, CallDecide, CallStop, CallWait]
     @ (if d = duration_zero then [] else [CallSleep d])"

definition last_calls :: "stop_reason \<Rightarrow> call list" where
  "last_calls reason = [CallBefore, CallOp, CallAfter, CallDecide]
     @ (if reason = Exhausted then [CallStop] else []) @ [CallExit]"

subsection \<open>The interface: parts that record their calls\<close>

abbreviation adds :: "('x \<Rightarrow> call list) \<Rightarrow> call list \<Rightarrow> ('x, 'b) state \<Rightarrow> bool" where
  "adds calls cs m \<equiv> keeps (\<lambda>x y. calls y = calls x @ cs) m"

locale call_log =
  fixes r :: "('x, 'o, 'r, 'a) sync_retry" and calls :: "'x \<Rightarrow> call list"
  assumes before: "calls (hook_world (hk_before_attempt (rt_hooks r)) b x) = calls x @ [CallBefore]"
    and after: "calls (hook_world (hk_after_attempt (rt_hooks r)) att x) = calls x @ [CallAfter]"
    and exit: "calls (hook_world (hk_on_exit (rt_hooks r)) ev x) = calls x @ [CallExit]"
    and oper: "adds calls [CallOp] (call_op (rt_op r) st)"
    and decide: "adds calls [CallDecide] (rt_classifier r oc)"
    and stop: "adds calls [CallStop] (should_stop (rt_stop r) st)"
    and wait: "wait_config w = wait_config (rt_wait r) \<Longrightarrow> adds calls [CallWait] (next_wait w st)"
    and now: "adds calls [] (ck_now (rt_clock r))"
    and sleep: "adds calls [CallSleep d] (ck_wait (rt_clock r) d)"
begin

text \<open>What one step records, and what it decides.\<close>

lemma step_calls:
  assumes s: "run_state (step dbg (progress_of v e) oc (rt_classifier r) (rt_stop r) (lv_wait v)
      (rt_timeout r) (rt_hooks r)) x = (out, x')"
    and ok: "vars_ok r v"
  obtains
      d w where "out = Inr (Continue d (saturating_add (lv_total_wait v) d), w)"
        and "calls x' = calls x @ [CallAfter, CallDecide, CallStop, CallWait]"
    | res stats where "out = Inr (Done res stats, lv_wait v)" and "rs_attempts stats = lv_attempt v"
        and "rs_total_wait stats = lv_total_wait v"
        and "calls x' = calls x @ [CallAfter, CallDecide]
               @ (if rs_stop_reason stats = Exhausted then [CallStop] else []) @ [CallExit]"
proof -
  have ok': "pg_attempt (progress_of v e) \<noteq> 0" "wait_config (lv_wait v) = wait_config (rt_wait r)"
    using ok by (simp_all add: vars_ok_def)
  let ?a = "\<lparr>as_attempt = lv_attempt v, as_elapsed = e, as_outcome = oc\<rparr>"
  let ?x1 = "hook_world (hk_after_attempt (rt_hooks r)) ?a x"
  obtain vd x2 where vd: "run_state (rt_classifier r oc) ?x1 = (vd, x2)" by fastforce
  obtain b x3 where b: "run_state (should_stop (rt_stop r) (attempt_state_of v e)) x2 = (b, x3)"
    by fastforce
  obtain d w x4 where w: "run_state (next_wait (lv_wait v) (attempt_state_of v e)) x3 = (Inr (d, w), x4)"
    using next_wait_no_panic [of "lv_wait v"] by blast
  have l2: "calls x2 = calls x @ [CallAfter, CallDecide]" using keepsD [OF decide vd] by (simp add: after)
  have l3: "calls x3 = calls x2 @ [CallStop]" by (rule keepsD [OF stop b])
  have l4: "calls x4 = calls x3 @ [CallWait]" by (rule keepsD [OF wait [OF ok'(2)] w])
  note s' = s [unfolded run_step [OF ok'(1)] Let_def progress_of_simps, unfolded vd]
  show thesis
  proof (cases "is_Retry vd \<and> \<not> b \<and> \<not> timed_out (rt_timeout r) e")
    case True
    then have "out = Inr (Continue (clamp_delay (rt_timeout r) e d)
        (saturating_add (lv_total_wait v) (clamp_delay (rt_timeout r) e d)), w)" "x' = x4"
      using s' by (auto simp: is_Retry_def b w)
    then show thesis using l2 l3 l4 by (intro that(1)) auto
  next
    case False
    let ?reason = "result_stop_reason (verdict_result vd)"
    have "out = Inr (Done (verdict_result vd) (stats_for (progress_of v e) ?reason), lv_wait v)
        \<and> calls x' = calls x @ [CallAfter, CallDecide]
               @ (if ?reason = Exhausted then [CallStop] else []) @ [CallExit]"
      using False s' l2 l3
      by (cases vd)
        (auto simp: b exit is_Retry_def verdict_result_def result_stop_reason_def split: if_splits)
    then show thesis by (auto intro!: that(2) simp: stats_for_def)
  qed
qed

lemma body_calls:
  assumes body: "run_state (run_body dbg r origin v) x = (out, x')" and ok: "vars_ok r v"
  obtains
      d w where "out = Inl (loop_next v d w)" and "calls x' = calls x @ round_calls d"
    | res stats where "out = Inr (Inr ((res, stats), lv_wait v))" and "rs_attempts stats = lv_attempt v"
        and "rs_total_wait stats = lv_total_wait v"
        and "calls x' = calls x @ last_calls (rs_stop_reason stats)"
proof -
  have attempt: "lv_attempt v \<noteq> 0" using ok by (simp add: vars_ok_def)
  obtain t1 x1 where t1: "run_state (ck_now (rt_clock r)) x = (t1, x1)" by fastforce
  let ?bs = "attempt_state_of v (saturating_sub t1 origin)"
  obtain oc x3 where oc: "run_state (call_op (rt_op r) ?bs)
      (hook_world (hk_before_attempt (rt_hooks r)) ?bs x1) = (oc, x3)" by fastforce
  obtain t2 x4 where t2: "run_state (ck_now (rt_clock r)) x3 = (t2, x4)" by fastforce
  obtain s x5 where s: "run_state (step dbg (progress_of v (saturating_sub t2 origin)) oc
      (rt_classifier r) (rt_stop r) (lv_wait v) (rt_timeout r) (rt_hooks r)) x4 = (s, x5)" by fastforce
  note body' = body [unfolded run_body_step [OF attempt t1 oc t2 s]]
  have l4: "calls x4 = calls x @ [CallBefore, CallOp]"
    using keepsD [OF now t1] keepsD [OF oper oc] keepsD [OF now t2] by (simp add: before)
  have sl: "calls (sleep_world (rt_clock r) d y) = calls y @ (if d = duration_zero then [] else [CallSleep d])"
    for d y using sleep [of d] by (auto simp: sleep_world_def keeps_def)
  show thesis
  proof (rule step_calls [OF s ok])
    fix d w
    assume "s = Inr (Continue d (saturating_add (lv_total_wait v) d), w)"
      "calls x5 = calls x4 @ [CallAfter, CallDecide, CallStop, CallWait]"
    then show thesis
      using body' l4 by (intro that(1) [of d w]) (auto simp: sl round_calls_def loop_next_def)
  next
    fix res stats
    assume "s = Inr (Done res stats, lv_wait v)" "rs_attempts stats = lv_attempt v"
      "rs_total_wait stats = lv_total_wait v"
      "calls x5 = calls x4 @ [CallAfter, CallDecide]
               @ (if rs_stop_reason stats = Exhausted then [CallStop] else []) @ [CallExit]"
    then show thesis using body' l4 by (intro that(2) [of res stats]) (auto simp: last_calls_def)
  qed
qed

text \<open>The records of the rounds so far, and their delays.\<close>

definition call_inv where
  "call_inv L v y \<longleftrightarrow> (\<exists>ds. calls y = L @ concat (map round_calls ds)
     \<and> unat (lv_attempt v) = min (Suc (length ds)) 4294967295
     \<and> lv_total_wait v = foldl saturating_add duration_zero ds)"

definition call_post where
  "call_post L e y \<longleftrightarrow> (\<exists>res stats w ds. e = Inr ((res, stats), w)
     \<and> calls y = L @ concat (map round_calls ds) @ last_calls (rs_stop_reason stats)
     \<and> unat (rs_attempts stats) = min (Suc (length ds)) 4294967295
     \<and> rs_total_wait stats = foldl saturating_add duration_zero ds)"

lemma run_calls:
  assumes run: "run dbg r x = Some (e, x')"
  shows "call_post (calls x) e x'"
proof -
  obtain origin x0 where now': "run_state (ck_now (rt_clock r)) x = (origin, x0)" by fastforce
  show ?thesis
  proof (rule run_rule [OF run now', where I = "call_inv (calls x)"])
    show "call_inv (calls x) (loop_start r) x0"
      unfolding call_inv_def using keepsD [OF now now'] by (intro exI [of _ "[]"]) simp
  next
    fix v y v' y'
    assume I: "call_inv (calls x) v y" and ok: "vars_ok r v"
      and body: "run_state (run_body dbg r origin v) y = (Inl v', y')"
    from I obtain ds where "calls y = calls x @ concat (map round_calls ds)"
      "unat (lv_attempt v) = min (Suc (length ds)) 4294967295"
      "lv_total_wait v = foldl saturating_add duration_zero ds" by (auto simp: call_inv_def)
    then show "call_inv (calls x) v' y'"
      by (rule_tac body_calls [OF body ok])
        (auto simp: call_inv_def unat_u32_saturating_add intro!: exI [of _ "ds @ [d]" for d])
  next
    fix v y e y'
    assume I: "call_inv (calls x) v y" and ok: "vars_ok r v"
      and body: "run_state (run_body dbg r origin v) y = (Inr e, y')"
    then show "call_post (calls x) e y'"
      by (rule_tac body_calls [OF body ok]) (auto simp: call_inv_def call_post_def)
  qed
qed

end

subsection \<open>A recorder next to every part of any builder\<close>

definition noting :: "call \<Rightarrow> ('y \<times> call list, 'b) state \<Rightarrow> ('y \<times> call list, 'b) state" where
  "noting c m = do { _ \<leftarrow> log_event c; m }"

definition recorded_stop :: "'y stop_strategy \<Rightarrow> ('y \<times> call list) stop_strategy" where
  "recorded_stop s =
     stop_or (lift_stop fst put_fst s) (StopCustom (\<lambda>_. noting CallStop (State_Monad.return False)))"

definition recorded_wait :: "'y wait_strategy \<Rightarrow> ('y \<times> call list) wait_strategy" where
  "recorded_wait w =
     wait_add (lift_wait fst put_fst w) (WaitCustom (\<lambda>_. noting CallWait (State_Monad.return duration_zero)))"

definition recorded :: "('y, 'o, 'r, 'a) sync_retry \<Rightarrow> ('y \<times> call list, 'o, 'r, 'a) sync_retry" where
  "recorded r =
     (let l = on_exit (after_attempt (before_attempt (lift_retry fst put_fst r)
            (\<lambda>_. log_event CallBefore)) (\<lambda>_. log_event CallAfter)) (\<lambda>_. log_event CallExit)
      in l\<lparr>rt_op := OpFn (\<lambda>st. noting CallOp (call_op (rt_op l) st)),
           rt_classifier := (\<lambda>oc. noting CallDecide (rt_classifier l oc)),
           rt_stop := recorded_stop (rt_stop r), rt_wait := recorded_wait (rt_wait r),
           rt_clock := \<lparr>ck_now = ck_now (rt_clock l),
             ck_wait = (\<lambda>d. noting (CallSleep d) (ck_wait (rt_clock l) d))\<rparr>\<rparr>)"

lemma recorded_simps [simp]:
  "rt_op (recorded r) = OpFn (\<lambda>st. noting CallOp (call_op (lift_op fst put_fst (rt_op r)) st))"
  "rt_classifier (recorded r) oc = noting CallDecide (lift_state fst put_fst (rt_classifier r oc))"
  "rt_stop (recorded r) = recorded_stop (rt_stop r)"
  "rt_wait (recorded r) = recorded_wait (rt_wait r)"
  "ck_now (rt_clock (recorded r)) = lift_state fst put_fst (ck_now (rt_clock r))"
  "ck_wait (rt_clock (recorded r)) d = noting (CallSleep d) (lift_state fst put_fst (ck_wait (rt_clock r) d))"
  "hk_before_attempt (rt_hooks (recorded r)) =
     HookChain (lift_hook fst put_fst (hk_before_attempt (rt_hooks r))) (HookFn (\<lambda>_. log_event CallBefore))"
  "hk_after_attempt (rt_hooks (recorded r)) =
     HookChain (lift_hook fst put_fst (hk_after_attempt (rt_hooks r))) (HookFn (\<lambda>_. log_event CallAfter))"
  "hk_on_exit (rt_hooks (recorded r)) =
     HookChain (lift_hook fst put_fst (hk_on_exit (rt_hooks r))) (HookFn (\<lambda>_. log_event CallExit))"
  "rt_timeout (recorded r) = rt_timeout r"
  by (simp_all add: recorded_def Let_def builder_defs)

lemma run_noting: "run_state (noting c m) x = run_state m (fst x, snd x @ [c])"
  by (simp add: noting_def log_event_def case_prod_beta)

lemma tracks_noting: "tracks fst R m' m \<Longrightarrow> tracks fst R (noting c m') m"
  by (simp add: tracks_def run_noting)

lemma snd_lift: "snd (snd (run_state (lift_state fst put_fst m) x)) = snd x"
  by (simp add: run_lift_state)

lemma same_snd: "reflp (\<lambda>x y. snd y = snd x)" "transp (\<lambda>x y. snd y = snd x)"
  by (auto simp: reflp_def transp_def)

lemma snd_lift_op: "snd (snd (run_state (call_op (lift_op fst put_fst oper) st) x)) = snd x"
  by (cases oper) (simp_all add: snd_lift)

lemma snd_lift_stop: "snd (snd (run_state (should_stop (lift_stop fst put_fst s) st) x)) = snd x"
proof -
  have "keeps (\<lambda>x y. snd y = snd x) (should_stop (lift_stop fst put_fst s) st)"
    by (intro keeps_should_stop same_snd lift_stop_keeps) simp
  then show ?thesis unfolding keeps_def by blast
qed

lemma snd_next_wait:
  assumes "wait_config w = wait_config (lift_wait fst put_fst w0)"
  shows "snd (snd (run_state (next_wait w st) x)) = snd x"
proof -
  have "wait_keeps (\<lambda>x y. snd y = snd x) w"
    unfolding wait_keeps_config [OF assms] by (rule lift_wait_keeps) simp
  then have "keeps (\<lambda>x y. snd y = snd x) (next_wait w st)" by (rule keeps_next_wait [OF same_snd])
  then show ?thesis unfolding keeps_def by blast
qed

lemma wait_config_recorded:
  assumes "wait_config w = wait_config (recorded_wait w0)"
  obtains l where "wait_config l = wait_config (lift_wait fst put_fst w0)"
    and "w = WaitCombine l (WaitCustom (\<lambda>_. noting CallWait (State_Monad.return duration_zero)))"
proof (cases w)
  case (WaitCombine l c)
  then show thesis
    using assms by (cases c) (auto simp: recorded_wait_def wait_add_def intro: that)
qed (use assms in \<open>simp_all add: recorded_wait_def wait_add_def\<close>)

lemma recorded_wait_calls:
  assumes "wait_config w = wait_config (recorded_wait w0)"
  shows "adds snd [CallWait] (next_wait w st)"
proof (rule wait_config_recorded [OF assms], rule keepsI)
  fix l x
  assume l: "wait_config l = wait_config (lift_wait fst put_fst w0)"
    and w: "w = WaitCombine l (WaitCustom (\<lambda>_. noting CallWait (State_Monad.return duration_zero)))"
  obtain d l' x1 where "run_state (next_wait l st) x = (Inr (d, l'), x1)"
    using next_wait_no_panic [of l] by blast
  then show "snd (snd (run_state (next_wait w st) x)) = snd x @ [CallWait]"
    using snd_next_wait [OF l, of st x] by (simp add: w run_noting)
qed

lemma recorded_stop_calls: "adds snd [CallStop] (should_stop (recorded_stop s) st)"
  by (rule keepsI)
    (simp add: recorded_stop_def stop_or_def run_noting case_prod_beta snd_lift_stop)

interpretation recorded: call_log "recorded r" snd for r
  by unfold_locales
    (auto simp: run_noting snd_lift snd_lift_op recorded_stop_calls recorded_wait_calls)

lemma tracks_recorded_stop:
  "tracks fst (=) (should_stop (recorded_stop s) st) (should_stop s st)"
  using pair_view.tracks_stop [of s st]
  by (simp add: recorded_stop_def stop_or_def tracks_def rel_prod_sel case_prod_beta run_noting)

lemma tracks_recorded_wait:
  "tracks fst (lifted_answer recorded_wait) (next_wait (recorded_wait w) st) (next_wait w st)"
  unfolding tracks_def
proof
  fix x :: "'a \<times> call list"
  obtain d w' y' where w: "run_state (next_wait w st) (fst x) = (Inr (d, w'), y')"
    using next_wait_no_panic [of w] by blast
  moreover obtain l where "run_state (next_wait (lift_wait fst put_fst w) st) x =
      (Inr (d, lift_wait fst put_fst w'), (y', l))"
    using pair_view.tracks_wait [of w st, unfolded tracks_def, rule_format, of x] w
    by (auto simp: rel_prod_sel prod_eq_iff lifted_answer_def elim!: rel_sum.cases)
  ultimately show "rel_prod (lifted_answer recorded_wait) (\<lambda>x' y. fst x' = y)
      (run_state (next_wait (recorded_wait w) st) x) (run_state (next_wait w st) (fst x))"
    by (simp add: recorded_wait_def wait_add_def run_noting lifted_answer_def)
qed

interpretation recorder: tracking fst recorded_wait "recorded r" r for r
proof (intro tracking.intro)
  show "tracks fst (=) (hook_call (hk_before_attempt (rt_hooks (recorded r))) b)
      (hook_call (hk_before_attempt (rt_hooks r)) b)" for b
    unfolding recorded_simps by (intro tracks_extra_hook pair_view.tracks_hook) (simp add: log_event_def case_prod_beta)
  show "tracks fst (=) (hook_call (hk_after_attempt (rt_hooks (recorded r))) att)
      (hook_call (hk_after_attempt (rt_hooks r)) att)" for att
    unfolding recorded_simps by (intro tracks_extra_hook pair_view.tracks_hook) (simp add: log_event_def case_prod_beta)
  show "tracks fst (=) (hook_call (hk_on_exit (rt_hooks (recorded r))) ev)
      (hook_call (hk_on_exit (rt_hooks r)) ev)" for ev
    unfolding recorded_simps by (intro tracks_extra_hook pair_view.tracks_hook) (simp add: log_event_def case_prod_beta)
qed (simp_all add: tracks_noting pair_view.tracks_lift pair_view.tracks_op tracks_recorded_stop tracks_recorded_wait)

text \<open>
  C5: the order of operations. With a recorder next to each of its parts a run is the run without
  them: same result, same statistics, same world of the user. And what they record is, for every
  builder: per retried attempt \<open>before_attempt\<close>, the operation, \<open>after_attempt\<close>, the classifier,
  the stop strategy, the wait strategy, and the sleep if it is not zero; and for the last
  attempt the same up to the classifier, the stop strategy only if the loop ends exhausted, then
  \<open>on_exit\<close>. Each part is called that many times and never otherwise; the attempts reported are
  the rounds recorded, and the total wait is the sum of the delays slept.
\<close>

theorem calls_in_order:
  assumes "run dbg r y = Some (e, y')"
  shows "\<exists>res stats w w' ds. e = Inr ((res, stats), w)
     \<and> run dbg (recorded r) (y, []) = Some (Inr ((res, stats), w'),
         (y', concat (map round_calls ds) @ last_calls (rs_stop_reason stats)))
     \<and> unat (rs_attempts stats) = min (Suc (length ds)) 4294967295
     \<and> rs_total_wait stats = foldl saturating_add duration_zero ds"
proof -
  obtain e' x' where r': "run dbg (recorded r) (y, []) = Some (e', x')"
    and e': "lifted_answer recorded_wait e' e" and x': "fst x' = y'"
    using recorder.run_tracks [of dbg r "(y, [])"] assms by (auto simp: rel_prod_sel elim!: option.rel_cases)
  from recorded.run_calls [OF r'] obtain res stats w' ds where e'': "e' = Inr ((res, stats), w')"
    "snd x' = concat (map round_calls ds) @ last_calls (rs_stop_reason stats)"
    "unat (rs_attempts stats) = min (Suc (length ds)) 4294967295"
    "rs_total_wait stats = foldl saturating_add duration_zero ds"
    by (auto simp: recorded.call_post_def)
  moreover have "x' = (y', snd x')" using x' by auto
  moreover obtain w where "e = Inr ((res, stats), w)" using e' e''(1) by auto
  ultimately show ?thesis using r' by metis
qed

theorem calls_in_order_witness:
  "\<exists>res stats w w' y' ds. run True (sample_retry Err (StopAfterAttempts 3)) virtual_clock_new =
       Some (Inr ((res, stats), w), y')
     \<and> run True (recorded (sample_retry Err (StopAfterAttempts 3))) (virtual_clock_new, []) =
         Some (Inr ((res, stats), w'),
           (y', concat (map round_calls ds) @ last_calls (rs_stop_reason stats)))"
proof -
  have "stop_limit (rt_stop (sample_retry Err (StopAfterAttempts 3))) = Some 3" by simp
  from run_stop_limit [OF this, of True virtual_clock_new] obtain e y' where
    h: "run True (sample_retry Err (StopAfterAttempts 3)) virtual_clock_new = Some (e, y')" by blast
  from calls_in_order [OF h] h show ?thesis by blast
qed

end
