(* ===== verification/Quiet_Run.thy ===== *)
theory Quiet_Run
  imports Virtual_Run
begin

text \<open>
  Runs whose classifier and strategies compute without touching the world, which is how they
  are mostly configured: built-in strategies without jitter, and a classifier that only looks
  at the outcome. Then an iteration of the loop is an equation, and a run is followed by
  rewriting.
\<close>

subsection \<open>Strategies without jitter\<close>

primrec wait_plain :: "'x wait_strategy \<Rightarrow> bool" where
  "wait_plain (WaitFixed d) \<longleftrightarrow> True"
| "wait_plain (WaitLinear i k) \<longleftrightarrow> True"
| "wait_plain (WaitExponential i b) \<longleftrightarrow> True"
| "wait_plain (WaitCapped w b) \<longleftrightarrow> wait_plain w"
| "wait_plain (WaitCombine l r) \<longleftrightarrow> wait_plain l \<and> wait_plain r"
| "wait_plain (WaitChain l r n) \<longleftrightarrow> wait_plain l \<and> wait_plain r"
| "wait_plain (Jittered w j) \<longleftrightarrow> False"
| "wait_plain (WaitRef w) \<longleftrightarrow> wait_plain w"
| "wait_plain (WaitCustom f) \<longleftrightarrow> False"

text \<open>Such a strategy is a function of the state: the range of its delays is one value.\<close>

lemma next_wait_plain:
  "wait_plain w \<Longrightarrow> run_state (next_wait w st) x = (Inr (wait_lower w st, w), x)"
  by (induction w arbitrary: x)
    (auto simp: Let_def linear_step saturating_duration_mul_f64_eq split: sum.split)

subsection \<open>The interface: observers that only compute\<close>

text \<open>What \<open>on_exit\<close> is told of a verdict that ends the loop.\<close>

definition verdict_exit :: "('r, 'a, 'o) verdict \<Rightarrow> u32 \<Rightarrow> duration \<Rightarrow> ('r, 'a, 'o) exit" where
  "verdict_exit v n e =
     (case v of
        Return a \<Rightarrow> Exit_Returned n e a | Abort a \<Rightarrow> Exit_Aborted n e a | Retry oc \<Rightarrow> Exit_Exhausted n e oc)"

locale quiet_observers =
  fixes r :: "('x, 'o, 'r, 'a) sync_retry" and vf :: "'o \<Rightarrow> ('r, 'a, 'o) verdict"
    and sb :: "retry_state \<Rightarrow> bool" and wd :: "retry_state \<Rightarrow> duration"
  assumes classifier: "run_state (rt_classifier r oc) x = (vf oc, x)"
    and stop: "run_state (should_stop (rt_stop r) st) x = (sb st, x)"
    and wait: "run_state (next_wait (rt_wait r) st) x = (Inr (wd st, rt_wait r), x)"
begin

lemma step_quiet:
  assumes "lv_attempt v \<noteq> 0" and "lv_wait v = rt_wait r"
  shows "run_state (step dbg (progress_of v e) oc (rt_classifier r) (rt_stop r) (lv_wait v)
      (rt_timeout r) (rt_hooks r)) x =
    (let x1 = hook_world (hk_after_attempt (rt_hooks r))
           \<lparr>as_attempt = lv_attempt v, as_elapsed = e, as_outcome = oc\<rparr> x;
         d = clamp_delay (rt_timeout r) e (wd (attempt_state_of v e))
     in if is_Retry (vf oc) \<and> \<not> sb (attempt_state_of v e) \<and> \<not> timed_out (rt_timeout r) e
        then (Inr (Continue d (saturating_add (lv_total_wait v) d), rt_wait r), x1)
        else (Inr (Done (verdict_result (vf oc)) (stats_for (progress_of v e)
                (result_stop_reason (verdict_result (vf oc)))), rt_wait r),
              hook_world (hk_on_exit (rt_hooks r)) (verdict_exit (vf oc) (lv_attempt v) e) x1))"
proof -
  have p: "pg_attempt (progress_of v e) \<noteq> 0" using assms(1) by simp
  show ?thesis
    using assms(2)
    by (cases "vf oc")
      (simp_all add: run_step [OF p] Let_def classifier stop wait verdict_result_def verdict_exit_def
        result_stop_reason_def)
qed

lemma run_body_quiet:
  assumes ok: "lv_attempt v \<noteq> 0" "lv_wait v = rt_wait r"
    and t1: "run_state (ck_now (rt_clock r)) x = (t1, x1)"
    and bs: "bs = attempt_state_of v (saturating_sub t1 origin)"
    and oc: "run_state (call_op (rt_op r) bs) (hook_world (hk_before_attempt (rt_hooks r)) bs x1) = (oc, x3)"
    and t2: "run_state (ck_now (rt_clock r)) x3 = (t2, x4)"
    and e: "e = saturating_sub t2 origin"
    and x5: "x5 = hook_world (hk_after_attempt (rt_hooks r))
      \<lparr>as_attempt = lv_attempt v, as_elapsed = e, as_outcome = oc\<rparr> x4"
  shows "run_state (run_body dbg r origin v) x =
    (let d = clamp_delay (rt_timeout r) e (wd (attempt_state_of v e))
     in if is_Retry (vf oc) \<and> \<not> sb (attempt_state_of v e) \<and> \<not> timed_out (rt_timeout r) e
        then (Inl (loop_next v d (rt_wait r)), sleep_world (rt_clock r) d x5)
        else (Inr (Inr ((verdict_result (vf oc), stats_for (progress_of v e)
                (result_stop_reason (verdict_result (vf oc)))), rt_wait r)),
              hook_world (hk_on_exit (rt_hooks r)) (verdict_exit (vf oc) (lv_attempt v) e) x5))"
proof -
  obtain st y where st: "run_state (step dbg (progress_of v e) oc (rt_classifier r) (rt_stop r)
      (lv_wait v) (rt_timeout r) (rt_hooks r)) x4 = (st, y)" by fastforce
  show ?thesis
    using step_quiet [OF ok, of dbg e oc x4]
    unfolding run_body_step [OF ok(1) t1 oc [unfolded bs] t2 st [unfolded e]] st Let_def
    by (auto simp: x5 loop_next_def split: if_splits)
qed

end

subsection \<open>The interface: scripted operations\<close>

text \<open>
  An operation whose outcomes follow a script \<open>f\<close>, and hooks whose effects are known: \<open>before n\<close>
  holds of the world when attempt \<open>n\<close> is next, \<open>ready n\<close> once its hooks have run, and
  \<open>answered n\<close> once the operation has. The clock leaves these pages as they are. \<open>R\<close> is a
  preorder on worlds that everything but the sleeps keeps.
\<close>

locale quiet_script = quiet_observers r vf sb wd
  for r :: "('x, 'o, 'r, 'a) sync_retry" and vf :: "'o \<Rightarrow> ('r, 'a, 'o) verdict"
    and sb :: "retry_state \<Rightarrow> bool" and wd :: "retry_state \<Rightarrow> duration" +
  fixes f :: "nat \<Rightarrow> 'o" and before ready answered :: "nat \<Rightarrow> 'x \<Rightarrow> bool"
    and R :: "'x \<Rightarrow> 'x \<Rightarrow> bool"
  assumes R: "reflp R" "transp R"
    and turns: "ready n x \<Longrightarrow> unat (st_attempt st) = n \<Longrightarrow>
      \<exists>x'. run_state (call_op (rt_op r) st) x = (f n, x') \<and> answered n x' \<and> R x x'"
    and clock_keeps: "before n x \<Longrightarrow> run_state (ck_now (rt_clock r)) x = (t, x') \<Longrightarrow> before n x' \<and> R x x'"
      "answered n x \<Longrightarrow> run_state (ck_now (rt_clock r)) x = (t, x') \<Longrightarrow> answered n x' \<and> R x x'"
    and sleep_keeps: "before n x \<Longrightarrow> before n (sleep_world (rt_clock r) d x)"
    and hooks_turn: "before n x \<Longrightarrow> unat (st_attempt b) = n \<Longrightarrow>
        ready n (hook_world (hk_before_attempt (rt_hooks r)) b x)
        \<and> R x (hook_world (hk_before_attempt (rt_hooks r)) b x)"
      "answered n x \<Longrightarrow> unat (as_attempt a) = n \<Longrightarrow> as_outcome a = f n \<Longrightarrow>
        before (Suc n) (hook_world (hk_after_attempt (rt_hooks r)) a x)
        \<and> R x (hook_world (hk_after_attempt (rt_hooks r)) a x)"
      "before n x \<Longrightarrow> R x (hook_world (hk_on_exit (rt_hooks r)) ev x)"
begin

text \<open>One turn from the page of attempt \<open>n\<close>: what decides, and what happens either way.\<close>

lemma run_body_script:
  assumes ok: "lv_attempt v \<noteq> 0" "lv_wait v = rt_wait r"
    and n: "unat (lv_attempt v) = n" and page: "before n x"
  obtains x3 e y where "R x x3" and "answered n x3"
    and "e = saturating_sub (fst (run_state (ck_now (rt_clock r)) x3)) origin"
    and "R x y" and "before (Suc n) y"
    and "R y (hook_world (hk_on_exit (rt_hooks r)) (verdict_exit (vf (f n)) (lv_attempt v) e) y)"
    and "run_state (run_body dbg r origin v) x =
      (let d = clamp_delay (rt_timeout r) e (wd (attempt_state_of v e))
       in if is_Retry (vf (f n)) \<and> \<not> sb (attempt_state_of v e) \<and> \<not> timed_out (rt_timeout r) e
          then (Inl (loop_next v d (rt_wait r)), sleep_world (rt_clock r) d y)
          else (Inr (Inr ((verdict_result (vf (f n)), stats_for (progress_of v e)
                  (result_stop_reason (verdict_result (vf (f n))))), rt_wait r)),
                hook_world (hk_on_exit (rt_hooks r)) (verdict_exit (vf (f n)) (lv_attempt v) e) y))"
proof -
  obtain t1 x1 where t1: "run_state (ck_now (rt_clock r)) x = (t1, x1)" by fastforce
  note x1 = clock_keeps(1) [OF page t1]
  define bs where "bs = attempt_state_of v (saturating_sub t1 origin)"
  have bs: "unat (st_attempt bs) = n" using n by (simp add: bs_def)
  note x2 = hooks_turn(1) [OF conjunct1 [OF x1] bs]
  obtain x3 where oc: "run_state (call_op (rt_op r) bs)
      (hook_world (hk_before_attempt (rt_hooks r)) bs x1) = (f n, x3)"
    and x3: "answered n x3" "R (hook_world (hk_before_attempt (rt_hooks r)) bs x1) x3"
    using turns [OF conjunct1 [OF x2] bs] by auto
  obtain t2 x4 where t2: "run_state (ck_now (rt_clock r)) x3 = (t2, x4)" by fastforce
  note x4 = clock_keeps(2) [OF x3(1) t2]
  let ?e = "saturating_sub t2 origin"
  let ?a = "\<lparr>as_attempt = lv_attempt v, as_elapsed = ?e, as_outcome = f n\<rparr>"
  let ?y = "hook_world (hk_after_attempt (rt_hooks r)) ?a x4"
  have y: "before (Suc n) ?y" "R x4 ?y" using hooks_turn(2) [OF conjunct1 [OF x4], of ?a] n by simp_all
  have "R x x3" using x1 x2 x3(2) R(2) by (blast dest: transpD)
  moreover from this have "R x ?y" using x4 y(2) R(2) by (blast dest: transpD)
  ultimately show thesis
    using x3(1) t2 hooks_turn(3) [OF y(1)] y(1) run_body_quiet [OF ok t1 bs_def oc t2 refl refl]
    by (intro that) (auto simp: Let_def)
qed

text \<open>The loop before attempt \<open>n\<close>, as the specification's loop sees it.\<close>

definition script_inv :: "u32 \<Rightarrow> 'x loop_vars \<Rightarrow> 'x \<Rightarrow> bool" where
  "script_inv m v y \<longleftrightarrow> spec_inv m (vf \<circ> f) v \<and> lv_wait v = rt_wait r \<and> before (unat (lv_attempt v)) y"

lemma script_body:
  assumes limit: "\<And>st. sb st \<longleftrightarrow> m \<le> st_attempt st" and timeout: "rt_timeout r = None"
    and I: "script_inv m v y" and ok: "vars_ok r v"
  obtains
    (next_attempt) v' y' where "run_state (run_body dbg r origin v) y = (Inl v', y')"
      and "script_inv m v' y'" and "unat m - unat (lv_attempt v') < unat m - unat (lv_attempt v)"
  | (exit) stats y' where "run_state (run_body dbg r origin v) y =
        (Inr (Inr ((fst (spec_run (unat m) (vf \<circ> f)), stats), rt_wait r)), y')"
      and "unat (rs_attempts stats) = snd (spec_run (unat m) (vf \<circ> f))"
proof -
  let ?n = "unat (lv_attempt v)"
  have v: "lv_attempt v \<noteq> 0" "lv_wait v = rt_wait r" "before ?n y" "spec_inv m (vf \<circ> f) v"
    using I ok by (simp_all add: script_inv_def vars_ok_def)
  obtain e z x3 where z: "before (Suc ?n) z" and body: "run_state (run_body dbg r origin v) y =
      (let d = clamp_delay (rt_timeout r) e (wd (attempt_state_of v e))
       in if is_Retry (vf (f ?n)) \<and> \<not> sb (attempt_state_of v e) \<and> \<not> timed_out (rt_timeout r) e
          then (Inl (loop_next v d (rt_wait r)), sleep_world (rt_clock r) d z)
          else (Inr (Inr ((verdict_result (vf (f ?n)), stats_for (progress_of v e)
                  (result_stop_reason (verdict_result (vf (f ?n))))), rt_wait r)),
                hook_world (hk_on_exit (rt_hooks r)) (verdict_exit (vf (f ?n)) (lv_attempt v) e) z))"
    by (rule run_body_script [OF v(1,2) refl v(3)])
  show thesis
  proof (cases "is_Retry (vf (f ?n)) \<and> lv_attempt v < m")
    case True
    define d where "d = clamp_delay None e (wd (attempt_state_of v e))"
    have nx: "unat (lv_attempt (loop_next v d (rt_wait r))) = Suc ?n"
      using unat_next_attempt [of "lv_attempt v" m] True by simp
    have "?n < unat m" using True by (simp add: word_less_nat_alt)
    then show thesis
      using True v(4) z body sleep_keeps [OF z, of d] nx
      by (intro next_attempt [of "loop_next v d (rt_wait r)" "sleep_world (rt_clock r) d z"])
        (auto simp: Let_def limit timeout timed_out_def not_le d_def script_inv_def spec_inv_def less_Suc_eq)
  next
    case False
    have "1 \<le> ?n" using v(1) by (simp add: unat_gt_0 Suc_le_eq)
    moreover have "?n = unat m \<or> \<not> is_Retry (vf (f ?n))"
      using False v(4) by (auto simp: spec_inv_def word_less_nat_alt)
    ultimately have "spec_run (unat m) (vf \<circ> f) = (verdict_result (vf (f ?n)), ?n)"
      using v(4) by (subst spec_run_eq [of ?n]) (auto simp: spec_inv_def)
    then show thesis
      using False body by (intro exit) (auto simp: limit timeout timed_out_def stats_for_def not_le)
  qed
qed

text \<open>
  The specification of a bounded retry holds of a scripted operation too, where the outcome
  depends on the world and not on the attempt number the operation is told.
\<close>

lemma run_script_spec:
  assumes limit: "\<And>st. sb st \<longleftrightarrow> m \<le> st_attempt st" and m: "m \<noteq> 0"
    and timeout: "rt_timeout r = None" and start: "before 1 x"
  shows "\<exists>stats x'. run dbg r x =
      Some (Inr ((fst (spec_run (unat m) (vf \<circ> f)), stats), rt_wait r), x')
    \<and> unat (rs_attempts stats) = snd (spec_run (unat m) (vf \<circ> f))"
proof -
  let ?Q = "\<lambda>e. \<exists>stats. e = Inr ((fst (spec_run (unat m) (vf \<circ> f)), stats), rt_wait r)
    \<and> unat (rs_attempts stats) = snd (spec_run (unat m) (vf \<circ> f))"
  obtain origin x0 where now: "run_state (ck_now (rt_clock r)) x = (origin, x0)" by fastforce
  have "\<exists>e x'. run dbg r x = Some (e, x') \<and> ?Q e"
  proof (rule run_total_rule [OF now, where I = "script_inv m" and m = "\<lambda>v _. unat m - unat (lv_attempt v)"])
    show "script_inv m (loop_start r) x0"
      using m clock_keeps(1) [OF start now] by (simp add: script_inv_def spec_inv_def unat_gt_0 Suc_le_eq)
  next
    fix v y v' y'
    assume I: "script_inv m v y" and ok: "vars_ok r v"
      and body: "run_state (run_body dbg r origin v) y = (Inl v', y')"
    show "script_inv m v' y' \<and> unat m - unat (lv_attempt v') < unat m - unat (lv_attempt v)"
      by (rule script_body [OF limit timeout I ok, of dbg origin]) (use body in auto)
  next
    fix v y e y'
    assume I: "script_inv m v y" and ok: "vars_ok r v"
      and body: "run_state (run_body dbg r origin v) y = (Inr e, y')"
    show "?Q e" by (rule script_body [OF limit timeout I ok, of dbg origin]) (use body in auto)
  qed
  then show ?thesis by blast
qed

end

end
