(* ===== verification/Virtual_Schedule.thy ===== *)
theory Virtual_Schedule
  imports Quiet_Run
begin

text \<open>
  The backoff schedule of a run on \<open>VirtualClock\<close> as a reference function: from the wait
  strategy, the timeout and the starting time it computes the delays of a run one after the
  other, and a scripted run with built-in strategies is shown to sleep exactly these, to stop
  exactly where the schedule says, and to answer what the script says. The crate's own tests
  and examples are instances.
\<close>

subsection \<open>The reference\<close>

text \<open>What the strategies are told when \<open>ds\<close> are the delays so far, and the next delay.\<close>

definition schedule_state :: "duration \<Rightarrow> duration list \<Rightarrow> retry_state" where
  "schedule_state t0 ds =
     \<lparr>st_attempt = of_nat (Suc (length ds)),
      st_elapsed = saturating_sub (saturating_add t0 (foldl saturating_add duration_zero ds)) t0,
      st_previous_delay = (if ds = [] then None else Some (List.last ds))\<rparr>"

definition schedule_next ::
    "(retry_state \<Rightarrow> duration) \<Rightarrow> duration option \<Rightarrow> duration \<Rightarrow> duration list \<Rightarrow> duration list" where
  "schedule_next wd timeout t0 ds =
     ds @ [clamp_delay timeout (st_elapsed (schedule_state t0 ds)) (wd (schedule_state t0 ds))]"

primrec schedule ::
    "(retry_state \<Rightarrow> duration) \<Rightarrow> duration option \<Rightarrow> duration \<Rightarrow> nat \<Rightarrow> duration list" where
  "schedule wd timeout t0 0 = []"
| "schedule wd timeout t0 (Suc n) =
     schedule_next wd timeout t0 (schedule wd timeout t0 n)"

lemma schedule_numeral:
  "schedule wd timeout t0 (numeral k) = schedule_next wd timeout t0 (schedule wd timeout t0 (pred_numeral k))"
  "schedule wd timeout t0 1 = schedule_next wd timeout t0 []"
  by (simp_all add: numeral_eq_Suc)

lemma length_schedule [simp]: "length (schedule wd timeout t0 n) = n"
  by (induction n) (simp_all add: schedule_next_def)

text \<open>Whether a run ends with the attempt the schedule has reached.\<close>

definition run_ends ::
    "('o \<Rightarrow> ('r, 'a, 'o) verdict) \<Rightarrow> (retry_state \<Rightarrow> bool) \<Rightarrow> duration option \<Rightarrow> 'o \<Rightarrow> retry_state \<Rightarrow> bool" where
  "run_ends vf sb timeout oc st \<longleftrightarrow> \<not> is_Retry (vf oc) \<or> sb st \<or> timed_out timeout (st_elapsed st)"

lemma all_less_numeral:
  "(\<forall>k < numeral n. P k) \<longleftrightarrow> P (pred_numeral n) \<and> (\<forall>k < pred_numeral n. P k)"
  by (auto simp: numeral_eq_Suc less_Suc_eq)

text \<open>What evaluates the schedule and its end on concrete values.\<close>

lemmas schedule_eval = schedule_numeral schedule_next_def schedule_state_def clamp_delay_def
  run_ends_def timed_out_def all_less_numeral slept_def dur_eval

subsection \<open>Runs on the virtual clock follow it\<close>

lemma unat_of_nat_u32: "k \<le> 4294967295 \<Longrightarrow> unat (of_nat k :: u32) = k"
  by (simp add: unat_of_nat)

locale virtual_script = quiet_script r vf sb wd f before ready answered same_time
  for r :: "('m virtual_clock_scheme, 'o, 'r, 'a) sync_retry" and vf :: "'o \<Rightarrow> ('r, 'a, 'o) verdict"
    and sb :: "retry_state \<Rightarrow> bool" and wd :: "retry_state \<Rightarrow> duration" and f :: "nat \<Rightarrow> 'o"
    and before ready answered :: "nat \<Rightarrow> 'm virtual_clock_scheme \<Rightarrow> bool" +
  assumes on_virtual: "rt_clock r = virtual_sync_clock"
begin

abbreviation delays :: "duration \<Rightarrow> nat \<Rightarrow> duration list" where
  "delays t0 k \<equiv> schedule wd (rt_timeout r) t0 k"

abbreviation ends :: "duration \<Rightarrow> nat \<Rightarrow> bool" where
  "ends t0 k \<equiv> run_ends vf sb (rt_timeout r) (f (Suc k)) (schedule_state t0 (delays t0 k))"

text \<open>The world that a run of \<open>k\<close> delays leaves: the page after its last attempt, and \<open>on_exit\<close>.\<close>

definition at_exit :: "duration \<Rightarrow> nat \<Rightarrow> 'm virtual_clock_scheme \<Rightarrow> bool" where
  "at_exit t0 k x' \<longleftrightarrow> (\<exists>y. before (Suc (Suc k)) y
     \<and> x' = hook_world (hk_on_exit (rt_hooks r)) (verdict_exit (vf (f (Suc k))) (of_nat (Suc k))
              (st_elapsed (schedule_state t0 (delays t0 k)))) y)"

text \<open>The loop after \<open>k\<close> delays.\<close>

definition schedule_inv :: "'m virtual_clock_scheme \<Rightarrow> nat \<Rightarrow> 'm virtual_clock_scheme loop_vars \<Rightarrow>
    'm virtual_clock_scheme \<Rightarrow> bool" where
  "schedule_inv x k v y \<longleftrightarrow>
     v = \<lparr>lv_attempt = of_nat (Suc k),
          lv_previous_delay = st_previous_delay (schedule_state (vc_now x) (delays (vc_now x) k)),
          lv_total_wait = foldl saturating_add duration_zero (delays (vc_now x) k), lv_wait = rt_wait r\<rparr>
     \<and> vc_now y = saturating_add (vc_now x) (lv_total_wait v)
     \<and> vc_waits y = vc_waits x @ slept (delays (vc_now x) k) \<and> before (Suc k) y"

lemma schedule_body:
  assumes I: "schedule_inv x k v y" and k: "Suc k \<le> 4294967295"
    and k': "\<not> ends (vc_now x) k \<Longrightarrow> Suc (Suc k) \<le> 4294967295"
  obtains
    (next_attempt) v' y' where "\<not> ends (vc_now x) k"
      and "run_state (run_body dbg r (vc_now x) v) y = (Inl v', y')" and "schedule_inv x (Suc k) v' y'"
  | (exit) y' where "ends (vc_now x) k"
      and "run_state (run_body dbg r (vc_now x) v) y =
        (Inr (Inr ((verdict_result (vf (f (Suc k))),
           \<lparr>rs_attempts = of_nat (Suc k),
            rs_total_elapsed = st_elapsed (schedule_state (vc_now x) (delays (vc_now x) k)),
            rs_total_wait = foldl saturating_add duration_zero (delays (vc_now x) k),
            rs_stop_reason = result_stop_reason (verdict_result (vf (f (Suc k))))\<rparr>), rt_wait r)), y')"
      and "same_time y y'" and "at_exit (vc_now x) k y'"
proof -
  let ?ds = "delays (vc_now x) k"
  let ?st = "schedule_state (vc_now x) ?ds"
  have v: "v = \<lparr>lv_attempt = of_nat (Suc k), lv_previous_delay = st_previous_delay ?st,
          lv_total_wait = foldl saturating_add duration_zero ?ds, lv_wait = rt_wait r\<rparr>"
    and y: "vc_now y = saturating_add (vc_now x) (foldl saturating_add duration_zero ?ds)"
      "vc_waits y = vc_waits x @ slept ?ds" "before (Suc k) y"
    using I by (auto simp: schedule_inv_def)
  have n: "unat (lv_attempt v) = Suc k" using k by (simp add: v unat_of_nat_u32 del: of_nat_Suc)
  then have ok: "lv_attempt v \<noteq> 0" "lv_wait v = rt_wait r" by (auto simp: v)
  obtain x3 e z where x3: "same_time y x3"
    and e: "e = saturating_sub (fst (run_state (ck_now (rt_clock r)) x3)) (vc_now x)"
    and z: "same_time y z" "before (Suc (Suc k)) z"
      "same_time z (hook_world (hk_on_exit (rt_hooks r)) (verdict_exit (vf (f (Suc k))) (lv_attempt v) e) z)"
    and body: "run_state (run_body dbg r (vc_now x) v) y =
      (let d = clamp_delay (rt_timeout r) e (wd (attempt_state_of v e))
       in if is_Retry (vf (f (Suc k))) \<and> \<not> sb (attempt_state_of v e) \<and> \<not> timed_out (rt_timeout r) e
          then (Inl (loop_next v d (rt_wait r)), sleep_world (rt_clock r) d z)
          else (Inr (Inr ((verdict_result (vf (f (Suc k))), stats_for (progress_of v e)
                  (result_stop_reason (verdict_result (vf (f (Suc k)))))), rt_wait r)),
                hook_world (hk_on_exit (rt_hooks r)) (verdict_exit (vf (f (Suc k))) (lv_attempt v) e) z))"
    by (rule run_body_script [OF ok n y(3)]) blast
  have e': "e = st_elapsed ?st"
    using x3 by (simp add: e on_virtual same_time_def y schedule_state_def)
  have st: "attempt_state_of v e = ?st"
    unfolding attempt_state_of_def by (simp add: e' v schedule_state_def)
  show thesis
  proof (cases "ends (vc_now x) k")
    case False
    define d where "d = clamp_delay (rt_timeout r) e (wd ?st)"
    have ds: "delays (vc_now x) (Suc k) = ?ds @ [d]" by (simp add: d_def e' schedule_next_def)
    have a: "u32_saturating_add (of_nat (Suc k)) 1 = of_nat (Suc (Suc k))"
      using k' [OF False] by (simp add: word_unat_eq_iff unat_u32_saturating_add unat_of_nat_u32 del: of_nat_Suc)
    have "schedule_inv x (Suc k) (loop_next v d (rt_wait r)) (sleep_world (rt_clock r) d z)"
      using z(1) y sleep_keeps [OF z(2)] unfolding schedule_inv_def ds
      by (simp add: loop_next_def v schedule_state_def on_virtual sleep_world_virtual same_time_def
          saturating_add_assoc slept_def a del: of_nat_Suc)
    then show thesis using False body by (intro next_attempt) (auto simp: run_ends_def st d_def e' [symmetric] Let_def)
  next
    case True
    have "progress_of v e = \<lparr>pg_attempt = of_nat (Suc k), pg_elapsed = e,
        pg_previous_delay = st_previous_delay ?st,
        pg_total_wait = foldl saturating_add duration_zero ?ds\<rparr>"
      by (simp add: progress_of_def v)
    moreover have "same_time y (hook_world (hk_on_exit (rt_hooks r)) (verdict_exit (vf (f (Suc k))) (lv_attempt v) e) z)"
      by (rule transpD [OF same_time_preorder(2) z(1,3)])
    moreover have "at_exit (vc_now x) k
        (hook_world (hk_on_exit (rt_hooks r)) (verdict_exit (vf (f (Suc k))) (lv_attempt v) e) z)"
      using z(2) unfolding at_exit_def e' v by (auto simp del: of_nat_Suc)
    ultimately show thesis
      using True body
      by (intro exit [of "hook_world (hk_on_exit (rt_hooks r)) (verdict_exit (vf (f (Suc k))) (lv_attempt v) e) z"])
        (auto simp: run_ends_def st e' [symmetric] Let_def stats_for_def)
  qed
qed

lemma run_follows_schedule:
  assumes start: "before 1 x" and n: "n < 4294967295"
    and ends: "ends (vc_now x) n" and goes_on: "\<And>k. k < n \<Longrightarrow> \<not> ends (vc_now x) k"
  shows "\<exists>x'. run dbg r x = Some (Inr ((verdict_result (vf (f (Suc n))),
           \<lparr>rs_attempts = of_nat (Suc n),
            rs_total_elapsed = st_elapsed (schedule_state (vc_now x) (delays (vc_now x) n)),
            rs_total_wait = foldl saturating_add duration_zero (delays (vc_now x) n),
            rs_stop_reason = result_stop_reason (verdict_result (vf (f (Suc n))))\<rparr>), rt_wait r), x')
    \<and> vc_now x' = saturating_add (vc_now x) (foldl saturating_add duration_zero (delays (vc_now x) n))
    \<and> vc_waits x' = vc_waits x @ slept (delays (vc_now x) n) \<and> at_exit (vc_now x) n x'"
proof -
  have now: "run_state (ck_now (rt_clock r)) x = (vc_now x, x)" by (simp add: on_virtual)
  let ?out = "(verdict_result (vf (f (Suc n))),
    \<lparr>rs_attempts = of_nat (Suc n),
     rs_total_elapsed = st_elapsed (schedule_state (vc_now x) (delays (vc_now x) n)),
     rs_total_wait = foldl saturating_add duration_zero (delays (vc_now x) n),
     rs_stop_reason = result_stop_reason (verdict_result (vf (f (Suc n))))\<rparr>)"
  let ?at_end = "\<lambda>x'. vc_now x' =
      saturating_add (vc_now x) (foldl saturating_add duration_zero (delays (vc_now x) n))
    \<and> vc_waits x' = vc_waits x @ slept (delays (vc_now x) n) \<and> at_exit (vc_now x) n x'"
  let ?body = "run_body dbg r (vc_now x)"
  have "schedule_inv x k v y \<Longrightarrow>
      \<exists>x'. state_loop ?body v y = Some (Inr (?out, rt_wait r), x') \<and> ?at_end x'" if "k \<le> n" for k v y
    using that
  proof (induction arbitrary: v y rule: inc_induct)
    case base
    obtain y' where "run_state (?body v) y = (Inr (Inr (?out, rt_wait r)), y')" "same_time y y'"
        "at_exit (vc_now x) n y'"
      using n ends by (rule_tac schedule_body [OF base, of dbg]) auto
    then show ?case
      using base by (auto simp: same_time_def schedule_inv_def state_loop_exit [where body = ?body])
  next
    case (step k)
    have "Suc (Suc k) \<le> 4294967295" using step n by simp
    then obtain v' y' where "run_state (?body v) y = (Inl v', y')" "schedule_inv x (Suc k) v' y'"
      using goes_on [OF step(2)] by (rule_tac schedule_body [OF step(4), of dbg]) auto
    then show ?case using step.IH by (simp add: state_loop_step [where body = ?body])
  qed
  moreover have "schedule_inv x 0 (loop_start r) x"
    using start by (simp add: schedule_inv_def loop_start_def schedule_state_def slept_def)
  ultimately show ?thesis unfolding run_eq [OF now] by blast
qed

end

end
