(* ===== verification/Scripts.thy ===== *)
theory Scripts
  imports Virtual_Schedule World_View
begin

text \<open>
  Scripted operations beside the crate's clocks: the operation and the hooks work on a part of
  the world the clock does not touch, as a closure's captured variables are. Whatever a
  builder does on such a part it does under any clock, so the results of the previous theories
  apply to it on \<open>VirtualClock\<close> and on \<open>SystemClock\<close>.
\<close>

text \<open>Built-in strategies without jitter and a classifier that only looks at the outcome.\<close>

definition plain_observers ::
    "('y, 'o, 'r, 'a) sync_retry \<Rightarrow> ('o \<Rightarrow> ('r, 'a, 'o) verdict) \<Rightarrow> bool" where
  "plain_observers r vf \<longleftrightarrow> stop_customs (rt_stop r) = [] \<and> wait_plain (rt_wait r)
     \<and> (\<forall>oc y. run_state (rt_classifier r oc) y = (vf oc, y))"

text \<open>Attempt \<open>n\<close> finds page \<open>n\<close> of the script and turns it; the hooks do not.\<close>

definition follows_script ::
    "('y, 'o, 'r, 'a) sync_retry \<Rightarrow> (nat \<Rightarrow> 'o) \<Rightarrow> (nat \<Rightarrow> 'y \<Rightarrow> bool) \<Rightarrow> bool" where
  "follows_script r f before \<longleftrightarrow>
     (\<forall>n st y. before n y \<longrightarrow> unat (st_attempt st) = n \<longrightarrow> fst (run_state (call_op (rt_op r) st) y) = f n
        \<and> before (Suc n) (snd (run_state (call_op (rt_op r) st) y)))
     \<and> (\<forall>n b y. before n y \<longrightarrow> before n (hook_world (hk_before_attempt (rt_hooks r)) b y))
     \<and> (\<forall>n a y. before n y \<longrightarrow> before n (hook_world (hk_after_attempt (rt_hooks r)) a y))"

text \<open>
  The same with hooks that do turn pages: \<open>ready\<close> holds once \<open>before_attempt\<close> has run, and
  \<open>answered\<close> between the operation and \<open>after_attempt\<close>.
\<close>

definition follows_pages ::
    "('y, 'o, 'r, 'a) sync_retry \<Rightarrow> (nat \<Rightarrow> 'o) \<Rightarrow> (nat \<Rightarrow> 'y \<Rightarrow> bool) \<Rightarrow> (nat \<Rightarrow> 'y \<Rightarrow> bool) \<Rightarrow>
     (nat \<Rightarrow> 'y \<Rightarrow> bool) \<Rightarrow> bool" where
  "follows_pages r f before ready answered \<longleftrightarrow>
     (\<forall>n b y. before n y \<longrightarrow> unat (st_attempt b) = n \<longrightarrow> ready n (hook_world (hk_before_attempt (rt_hooks r)) b y))
     \<and> (\<forall>n st y. ready n y \<longrightarrow> unat (st_attempt st) = n \<longrightarrow> fst (run_state (call_op (rt_op r) st) y) = f n
        \<and> answered n (snd (run_state (call_op (rt_op r) st) y)))
     \<and> (\<forall>n a y. answered n y \<longrightarrow> unat (as_attempt a) = n \<longrightarrow> as_outcome a = f n \<longrightarrow>
          before (Suc n) (hook_world (hk_after_attempt (rt_hooks r)) a y))"

lemma follows_script_pages:
  "follows_script r f before \<Longrightarrow> follows_pages r f before before (\<lambda>n. before (Suc n))"
  by (simp add: follows_script_def follows_pages_def)

definition stop_test :: "'x stop_strategy \<Rightarrow> retry_state \<Rightarrow> bool" where
  "stop_test s st = stop_cond s (st_attempt st) (st_elapsed st)"

lemma wait_plain_lift [simp]: "wait_plain (lift_wait get put w) = wait_plain w"
  by (induction w) simp_all

lemma stop_cond_lift: 
  "stop_customs s = [] \<Longrightarrow> stop_cond (lift_stop get put s) a e = stop_cond s a e"
  by (induction s) simp_all

locale clocked_view = world_view get put
  for get :: "'x \<Rightarrow> 'y" and put :: "'y \<Rightarrow> 'x \<Rightarrow> 'x" +
  fixes c :: "'x sync_clock" and R :: "'x \<Rightarrow> 'x \<Rightarrow> bool"
  assumes put_get: "put (get x) x = x"
    and R: "reflp R" "transp R" "R x (put y x)"
    and now_keeps: "get (snd (run_state (ck_now c) x)) = get x" "R x (snd (run_state (ck_now c) x))"
    and wait_keeps: "get (snd (run_state (ck_wait c d) x)) = get x"
begin

lemma get_op:
  "fst (run_state (call_op (lift_op get put oper) st) x) = fst (run_state (call_op oper st) (get x))"
  "get (snd (run_state (call_op (lift_op get put oper) st) x)) = snd (run_state (call_op oper st) (get x))"
  using tracks_op [of oper st] by (auto simp: tracks_def rel_prod_sel)

lemma get_hook: "get (hook_world (lift_hook get put h) v x) = hook_world h v (get x)"
  using tracks_hook [of h v] by (auto simp: tracks_def rel_prod_sel run_hook_call)

lemma hook_R: "R x (hook_world (lift_hook get put h) v x)"
  by (rule lift_hook_keeps [OF R(1,2)]) (rule R)

lemma op_R: "R x (snd (run_state (call_op (lift_op get put oper) st) x))"
  using lift_op_keeps [of R put get oper st] R(3) by (simp add: keeps_def)

lemma get_sleep: "get (sleep_world c d x) = get x"
  by (simp add: sleep_world_def wait_keeps)

lemma lifted_script:
  assumes plain: "plain_observers r vf" and script: "follows_pages r f before ready answered"
  shows "quiet_script (set_clock (lift_retry get put r) c) vf (stop_test (rt_stop r))
    (wait_lower (rt_wait r)) f (\<lambda>n x. before n (get x)) (\<lambda>n x. ready n (get x))
    (\<lambda>n x. answered n (get x)) R"
proof unfold_locales
  note sel = set_clock_def plain_observers_def
  show "run_state (rt_classifier (set_clock (lift_retry get put r) c) oc) x = (vf oc, x)" for oc x
    using plain by (simp add: sel run_lift_state put_get)
  show "run_state (should_stop (rt_stop (set_clock (lift_retry get put r) c)) st) x =
      (stop_test (rt_stop r) st, x)" for st x
    using plain by (simp add: sel should_stop_builtin lift_stop_customs stop_cond_lift stop_test_def)
  show "run_state (next_wait (rt_wait (set_clock (lift_retry get put r) c)) st) x =
      (Inr (wait_lower (rt_wait r) st, rt_wait (set_clock (lift_retry get put r) c)), x)" for st x
    using plain by (simp add: sel next_wait_plain lift_wait_lower)
  show "\<exists>x'. run_state (call_op (rt_op (set_clock (lift_retry get put r) c)) st) x = (f n, x')
      \<and> answered n (get x') \<and> R x x'" if "ready n (get x)" "unat (st_attempt st) = n" for n x st
    using that script
    by (intro exI [of _ "snd (run_state (call_op (lift_op get put (rt_op r)) st) x)"])
      (auto simp: set_clock_def follows_pages_def prod_eq_iff get_op op_R)
  show "before n (get x') \<and> R x x'"
    if "before n (get x)" "run_state (ck_now (rt_clock (set_clock (lift_retry get put r) c))) x = (t, x')"
    for n x x' t
    using that now_keeps [of x] by (simp add: set_clock_def)
  show "answered n (get x') \<and> R x x'"
    if "answered n (get x)" "run_state (ck_now (rt_clock (set_clock (lift_retry get put r) c))) x = (t, x')"
    for n x x' t
    using that now_keeps [of x] by (simp add: set_clock_def)
  show "before n (get (sleep_world (rt_clock (set_clock (lift_retry get put r) c)) d x))"
    if "before n (get x)" for n x d
    using that by (simp add: set_clock_def get_sleep)
  show "ready n (get (hook_world (hk_before_attempt (rt_hooks (set_clock (lift_retry get put r) c))) b x))
      \<and> R x (hook_world (hk_before_attempt (rt_hooks (set_clock (lift_retry get put r) c))) b x)"
    if "before n (get x)" "unat (st_attempt b) = n" for n x b
    using that script by (auto simp: set_clock_def follows_pages_def get_hook hook_R)
  show "before (Suc n) (get (hook_world (hk_after_attempt (rt_hooks (set_clock (lift_retry get put r) c))) a x))
      \<and> R x (hook_world (hk_after_attempt (rt_hooks (set_clock (lift_retry get put r) c))) a x)"
    if "answered n (get x)" "unat (as_attempt a) = n" "as_outcome a = f n" for n x a
    using that script by (auto simp: set_clock_def follows_pages_def get_hook hook_R)
  show "R x (hook_world (hk_on_exit (rt_hooks (set_clock (lift_retry get put r) c))) ev x)" for x ev
    by (simp add: set_clock_def hook_R)
qed (rule R)+

text \<open>
  A scripted retry with at most \<open>m\<close> attempts and no timeout returns what the specification
  says of its script.
\<close>

lemma script_run:
  assumes plain: "plain_observers r vf" and script: "follows_script r f before"
    and limit: "\<And>st. stop_test (rt_stop r) st \<longleftrightarrow> m \<le> st_attempt st" "m \<noteq> 0"
    and timeout: "rt_timeout r = None" and start: "before 1 (get x)"
  shows "\<exists>stats w x'. run dbg (set_clock (lift_retry get put r) c) x =
      Some (Inr ((fst (spec_run (unat m) (vf \<circ> f)), stats), w), x')
    \<and> unat (rs_attempts stats) = snd (spec_run (unat m) (vf \<circ> f))"
  using quiet_script.run_script_spec [OF lifted_script [OF plain follows_script_pages [OF script]] limit, of x dbg] timeout start
  by (auto simp: set_clock_def)

end

interpretation virtual_view:
    clocked_view virtual_clock.more put_virtual virtual_sync_clock same_time
  by unfold_locales
    (auto simp: put_virtual_def same_time_preorder same_time_def)

interpretation system_view:
    clocked_view os_world.more put_system "system_clock pass late" "\<lambda>_ _. True" for pass late
  by unfold_locales
    (auto simp: put_system_def reflp_def transp_def system_clock_def system_now_def system_wait_def Let_def)

lemma virtual_script_run:
  assumes "plain_observers r vf" and "follows_pages r f before ready answered"
  shows "virtual_script (on_virtual_clock r) vf (stop_test (rt_stop r)) (wait_lower (rt_wait r)) f
    (\<lambda>n x. before n (virtual_clock.more x)) (\<lambda>n x. ready n (virtual_clock.more x))
    (\<lambda>n x. answered n (virtual_clock.more x))"
proof (rule virtual_script.intro)
  show "quiet_script (on_virtual_clock r) vf (stop_test (rt_stop r)) (wait_lower (rt_wait r)) f
      (\<lambda>n x. before n (virtual_clock.more x)) (\<lambda>n x. ready n (virtual_clock.more x))
      (\<lambda>n x. answered n (virtual_clock.more x)) same_time"
    unfolding on_virtual_clock_def by (rule virtual_view.lifted_script [OF assms])
qed (simp add: virtual_script_axioms_def)

lemma spec_run_cases:
  assumes "1 \<le> m"
  obtains n where "spec_run m vf = (verdict_result (vf (Suc n)), Suc n)" and "Suc n \<le> m"
    and "Suc n = m \<or> \<not> is_Retry (vf (Suc n))" and "\<forall>k < n. is_Retry (vf (Suc k))"
proof (cases "find (\<lambda>n. \<not> is_Retry (vf n)) [1..<m]")
  case None
  then have "\<forall>i. 1 \<le> i \<longrightarrow> i < m \<longrightarrow> is_Retry (vf i)" by (auto simp: find_None_iff)
  then show thesis
    using None assms by (intro that [of "m - 1"]) (simp_all add: spec_run_def)
next
  case (Some i)
  then obtain j where j: "j < length [1..<m]" "\<not> is_Retry (vf ([1..<m] ! j))" "i = [1..<m] ! j"
      "\<forall>k<j. is_Retry (vf ([1..<m] ! k))"
    by (auto simp: find_Some_iff)
  then show thesis
    using Some by (intro that [of j]) (auto simp: spec_run_def simp del: upt.simps(2))
qed

lemma schedule_fixed: "schedule (\<lambda>_. d) None t0 n = replicate n d"
  by (induction n) (simp_all add: schedule_next_def clamp_delay_def replicate_append_same)

lemma virtual_pages_run:
  assumes "plain_observers r vf" and "follows_pages r f before ready answered"
    and "before 1 (virtual_clock.more x)"
    and "n < 4294967295"
    and "run_ends vf (stop_test (rt_stop r)) (rt_timeout r) (f (Suc n)) (schedule_state (vc_now x)
           (schedule (wait_lower (rt_wait r)) (rt_timeout r) (vc_now x) n))"
    and "\<forall>k < n. \<not> run_ends vf (stop_test (rt_stop r)) (rt_timeout r) (f (Suc k)) (schedule_state (vc_now x)
           (schedule (wait_lower (rt_wait r)) (rt_timeout r) (vc_now x) k))"
    and "ds = schedule (wait_lower (rt_wait r)) (rt_timeout r) (vc_now x) n"
  shows "\<exists>w x'. run dbg (on_virtual_clock r) x = Some (Inr ((verdict_result (vf (f (Suc n))),
           \<lparr>rs_attempts = of_nat (Suc n), rs_total_elapsed = st_elapsed (schedule_state (vc_now x) ds),
            rs_total_wait = foldl saturating_add duration_zero ds,
            rs_stop_reason = result_stop_reason (verdict_result (vf (f (Suc n))))\<rparr>), w), x')
    \<and> vc_now x' = saturating_add (vc_now x) (foldl saturating_add duration_zero ds)
    \<and> vc_waits x' = vc_waits x @ slept ds
    \<and> (\<exists>y. before (Suc (Suc n)) y
         \<and> virtual_clock.more x' = hook_world (hk_on_exit (rt_hooks r)) (verdict_exit (vf (f (Suc n)))
             (of_nat (Suc n)) (st_elapsed (schedule_state (vc_now x) ds))) y)"
proof -
  have script: "virtual_script (on_virtual_clock r) vf (stop_test (rt_stop r)) (wait_lower (rt_wait r)) f
    (\<lambda>n x. before n (virtual_clock.more x)) (\<lambda>n x. ready n (virtual_clock.more x))
    (\<lambda>n x. answered n (virtual_clock.more x))"
    by (rule virtual_script_run [OF assms(1,2)])
  obtain w x' where "run dbg (on_virtual_clock r) x = Some (Inr ((verdict_result (vf (f (Suc n))),
           \<lparr>rs_attempts = of_nat (Suc n), rs_total_elapsed = st_elapsed (schedule_state (vc_now x) ds),
            rs_total_wait = foldl saturating_add duration_zero ds,
            rs_stop_reason = result_stop_reason (verdict_result (vf (f (Suc n))))\<rparr>), w), x')"
    and "vc_now x' = saturating_add (vc_now x) (foldl saturating_add duration_zero ds)"
    and "vc_waits x' = vc_waits x @ slept ds"
    and x': "virtual_script.at_exit (on_virtual_clock r) vf (wait_lower (rt_wait r)) f
      (\<lambda>n x. before n (virtual_clock.more x)) (vc_now x) n x'"
    using virtual_script.run_follows_schedule [OF script assms(3,4), of dbg] assms(5-7) by auto
  moreover have "\<exists>y. before (Suc (Suc n)) y
      \<and> virtual_clock.more x' = hook_world (hk_on_exit (rt_hooks r)) (verdict_exit (vf (f (Suc n)))
          (of_nat (Suc n)) (st_elapsed (schedule_state (vc_now x) ds))) y"
    using x' unfolding virtual_script.at_exit_def [OF script]
    by (auto simp: on_virtual_clock_def set_clock_def virtual_view.get_hook assms(7) simp del: of_nat_Suc)
  ultimately show ?thesis by blast
qed

text \<open>
  A scripted retry with at most \<open>m\<close> attempts and a fixed wait sleeps that wait between any two
  attempts and nothing else; what its hooks have done follows the pages.
\<close>

lemma virtual_fixed_pages_run:
  assumes plain: "plain_observers r vf" and pages: "follows_pages r f before ready answered"
    and r: "rt_stop r = StopAfterAttempts m" "m \<noteq> 0" "rt_wait r = WaitFixed d" "rt_timeout r = None"
    and start: "before 1 (virtual_clock.more x)"
  shows "\<exists>stats w x' y e. run dbg (on_virtual_clock r) x =
      Some (Inr ((fst (spec_run (unat m) (vf \<circ> f)), stats), w), x')
    \<and> unat (rs_attempts stats) = snd (spec_run (unat m) (vf \<circ> f))
    \<and> vc_waits x' = vc_waits x @ slept (replicate (snd (spec_run (unat m) (vf \<circ> f)) - 1) d)
    \<and> before (Suc (snd (spec_run (unat m) (vf \<circ> f)))) y
    \<and> virtual_clock.more x' = hook_world (hk_on_exit (rt_hooks r))
        (verdict_exit (vf (f (snd (spec_run (unat m) (vf \<circ> f)))))
          (of_nat (snd (spec_run (unat m) (vf \<circ> f)))) e) y"
proof -
  have "1 \<le> unat m" using r(2) by (simp add: unat_gt_0 Suc_le_eq)
  then obtain n where n: "spec_run (unat m) (vf \<circ> f) = (verdict_result (vf (f (Suc n))), Suc n)"
      "Suc n \<le> unat m" "Suc n = unat m \<or> \<not> is_Retry (vf (f (Suc n)))" "\<forall>k < n. is_Retry (vf (f (Suc k)))"
    by (rule spec_run_cases [of "unat m" "vf \<circ> f"]) simp
  have small: "k \<le> n \<Longrightarrow> Suc k \<le> 4294967295" for k using n(2) unat_u32_lt [of m] by simp
  have reached: "m \<le> of_nat (Suc k) \<longleftrightarrow> unat m \<le> Suc k" if "k \<le> n" for k
    unfolding word_le_nat_alt unat_of_nat_u32 [OF small [OF that]] ..
  have wl: "wait_lower (rt_wait r) = (\<lambda>_. d)" by (simp add: r fun_eq_iff)
  have ends: "run_ends vf (stop_test (rt_stop r)) None (f (Suc k)) (schedule_state t0 (replicate k d))
      \<longleftrightarrow> \<not> is_Retry (vf (f (Suc k))) \<or> unat m \<le> Suc k" if "k \<le> n" for k t0
    using reached [OF that] by (simp add: run_ends_def stop_test_def r schedule_state_def timed_out_def)
  have sched: "schedule (wait_lower (rt_wait r)) (rt_timeout r) (vc_now x) k = replicate k d" for k
    by (simp add: wl r(4) schedule_fixed)
  have "n < 4294967295" using small [of n] by simp
  moreover have "run_ends vf (stop_test (rt_stop r)) (rt_timeout r) (f (Suc n)) (schedule_state (vc_now x)
      (schedule (wait_lower (rt_wait r)) (rt_timeout r) (vc_now x) n))"
    unfolding sched unfolding r(4) using n(2,3) ends [of n] by auto
  moreover have "\<forall>k < n. \<not> run_ends vf (stop_test (rt_stop r)) (rt_timeout r) (f (Suc k))
      (schedule_state (vc_now x) (schedule (wait_lower (rt_wait r)) (rt_timeout r) (vc_now x) k))"
    unfolding sched unfolding r(4) using n(2,4) ends by simp
  moreover have "unat (of_nat (Suc n) :: u32) = Suc n" by (rule unat_of_nat_u32 [OF small]) simp
  ultimately show ?thesis
    using virtual_pages_run [OF plain pages start, of n "replicate n d" dbg] sched [of n]
    unfolding n(1) fst_conv snd_conv diff_Suc_1 by fastforce
qed

lemma virtual_fixed_run:
  assumes "plain_observers r vf" and "follows_script r f before"
    and "rt_stop r = StopAfterAttempts m" "m \<noteq> 0" "rt_wait r = WaitFixed d" "rt_timeout r = None"
    and "before 1 (virtual_clock.more x)"
  shows "\<exists>stats w x'. run dbg (on_virtual_clock r) x =
      Some (Inr ((fst (spec_run (unat m) (vf \<circ> f)), stats), w), x')
    \<and> unat (rs_attempts stats) = snd (spec_run (unat m) (vf \<circ> f))
    \<and> vc_waits x' = vc_waits x @ slept (replicate (snd (spec_run (unat m) (vf \<circ> f)) - 1) d)"
  using virtual_fixed_pages_run [OF assms(1) follows_script_pages [OF assms(2)] assms(3-7), of dbg] by blast

lemma virtual_schedule_run:
  assumes "plain_observers r vf" and "follows_script r f before" and "before 1 (virtual_clock.more x)"
    and "n < 4294967295"
    and "run_ends vf (stop_test (rt_stop r)) (rt_timeout r) (f (Suc n)) (schedule_state (vc_now x)
           (schedule (wait_lower (rt_wait r)) (rt_timeout r) (vc_now x) n))"
    and "\<forall>k < n. \<not> run_ends vf (stop_test (rt_stop r)) (rt_timeout r) (f (Suc k)) (schedule_state (vc_now x)
           (schedule (wait_lower (rt_wait r)) (rt_timeout r) (vc_now x) k))"
    and "ds = schedule (wait_lower (rt_wait r)) (rt_timeout r) (vc_now x) n"
  shows "\<exists>w x'. run dbg (on_virtual_clock r) x = Some (Inr ((verdict_result (vf (f (Suc n))),
           \<lparr>rs_attempts = of_nat (Suc n), rs_total_elapsed = st_elapsed (schedule_state (vc_now x) ds),
            rs_total_wait = foldl saturating_add duration_zero ds,
            rs_stop_reason = result_stop_reason (verdict_result (vf (f (Suc n))))\<rparr>), w), x')
    \<and> vc_now x' = saturating_add (vc_now x) (foldl saturating_add duration_zero ds)
    \<and> vc_waits x' = vc_waits x @ slept ds"
  using virtual_pages_run [OF assms(1) follows_script_pages [OF assms(2)] assms(3-7), of dbg] by blast

text \<open>
  C3: on the virtual clock, a retry with a pure classifier and built-in strategies without jitter,
  in any composition but no user-written one, whose operation follows a script ends at the first attempt at which the outcome is not retried, the stop strategy fires or
  the timeout has passed, and not before. It answers the verdict of that attempt's outcome, its
  statistics are the schedule's, and the clock records exactly the schedule's delays that are
  not zero, in order. The captured variables end as the hooks and the operation leave them
  after that many attempts, with \<open>on_exit\<close> run last on what the caller is told.
\<close>

theorem virtual_run_follows_schedule:
  assumes "plain_observers r vf" and "follows_pages r f before ready answered"
    and "before 1 (virtual_clock.more x)"
    and "n < 4294967295"
    and "run_ends vf (stop_test (rt_stop r)) (rt_timeout r) (f (Suc n)) (schedule_state (vc_now x)
           (schedule (wait_lower (rt_wait r)) (rt_timeout r) (vc_now x) n))"
    and "\<forall>k < n. \<not> run_ends vf (stop_test (rt_stop r)) (rt_timeout r) (f (Suc k)) (schedule_state (vc_now x)
           (schedule (wait_lower (rt_wait r)) (rt_timeout r) (vc_now x) k))"
    and "ds = schedule (wait_lower (rt_wait r)) (rt_timeout r) (vc_now x) n"
  shows "\<exists>w x'. run dbg (on_virtual_clock r) x = Some (Inr ((verdict_result (vf (f (Suc n))),
           \<lparr>rs_attempts = of_nat (Suc n), rs_total_elapsed = st_elapsed (schedule_state (vc_now x) ds),
            rs_total_wait = foldl saturating_add duration_zero ds,
            rs_stop_reason = result_stop_reason (verdict_result (vf (f (Suc n))))\<rparr>), w), x')
    \<and> vc_now x' = saturating_add (vc_now x) (foldl saturating_add duration_zero ds)
    \<and> vc_waits x' = vc_waits x @ slept ds
    \<and> (\<exists>y. before (Suc (Suc n)) y
         \<and> virtual_clock.more x' = hook_world (hk_on_exit (rt_hooks r)) (verdict_exit (vf (f (Suc n)))
             (of_nat (Suc n)) (st_elapsed (schedule_state (vc_now x) ds))) y)"
  by (rule virtual_pages_run [OF assms])

theorem virtual_run_follows_schedule_witness:
  "\<exists>w x'. run True (on_virtual_clock (polling_retry never)) (virtual_world virtual_clock_new) =
     Some (Inr ((Err (Error_Exhausted (Err 4)),
       \<lparr>rs_attempts = 4, rs_total_elapsed = from_millis 25, rs_total_wait = from_millis 25,
        rs_stop_reason = Exhausted\<rparr>), w), x')
     \<and> vc_now x' = from_millis 25 \<and> vc_waits x' = map from_millis [10, 10, 5]"
proof -
  let ?r = "polling_retry never"
  have "rt_classifier ?r = default_decide classify_result"
      "rt_op ?r = OpFn (\<lambda>st. State_Monad.return (Err (unat (st_attempt st))))"
      "rt_hooks ?r = execution_hooks_new"
    by (simp_all add: polling_retry_def sample_retry_def builder_defs)
  then have r: "plain_observers ?r classify_result" "follows_pages ?r Err (\<lambda>n _. True) (\<lambda>n _. True) (\<lambda>n _. True)"
    by (simp_all add: plain_observers_def follows_pages_def never_def default_decide_def execution_hooks_new_def)
  show ?thesis
    using virtual_run_follows_schedule [OF r, where x = "virtual_world virtual_clock_new" and n = 3 and ds = "map from_millis [10, 10, 5]" and dbg = True]
    by (auto simp add: schedule_eval never_def stop_test_def classify_result_def verdict_result_def
        result_stop_reason_def)
qed

end
