(* ===== verification/Examples.thy ===== *)
theory Examples
  imports Scripts Policy
begin

text \<open>
  \<open>src/examples\<close>: the synchronous example programs, as clients of the model. Each program's
  retry is built with the crate's builder and its operation works on the variables it captures;
  what a program asserts at its end is a theorem, and mostly an instance of one for every
  script, every number of failures or every operation. Printing is left out.
\<close>

subsection \<open>Shared by the programs\<close>

text \<open>A constructor that panics takes the expression around it along.\<close>

definition unwind :: "panic + 'a \<Rightarrow> ('a \<Rightarrow> panic + 'b) \<Rightarrow> panic + 'b" where
  "unwind m f = (case m of Inl p \<Rightarrow> Inl p | Inr a \<Rightarrow> f a)"

lemma unwind_simps [simp]: "unwind (Inl p) f = Inl p" "unwind (Inr a) f = f a"
  by (simp_all add: unwind_def)

text \<open>A builder that is called on a fresh \<open>VirtualClock\<close>, beside the captured variables \<open>y\<close>.\<close>

definition call_virtual ::
    "bool \<Rightarrow> panic + ('y, 'o, 'r, 'a) sync_retry \<Rightarrow> 'y \<Rightarrow>
     ((panic + ('r, ('a, 'o) retry_error) result) \<times> 'y virtual_clock_scheme) option" where
  "call_virtual dbg b y =
     (case b of Inl p \<Rightarrow> Some (Inl p, virtual_world y)
      | Inr r \<Rightarrow> call dbg (on_virtual_clock r) (virtual_world y))"

definition call_virtual_with_stats ::
    "bool \<Rightarrow> panic + ('y, 'o, 'r, 'a) sync_retry \<Rightarrow> 'y \<Rightarrow>
     ((panic + ('r, ('a, 'o) retry_error) result \<times> retry_stats) \<times> 'y virtual_clock_scheme) option" where
  "call_virtual_with_stats dbg b y =
     (case b of Inl p \<Rightarrow> Some (Inl p, virtual_world y)
      | Inr r \<Rightarrow> call_with_stats dbg (with_stats (on_virtual_clock r)) (virtual_world y))"

text \<open>
  The assertions of a program about what a call answered and left behind; a failed one panics.
  A program is such steps one after the other, up to the first panic.
\<close>

definition rust_assert :: "bool \<Rightarrow> panic + unit" where
  "rust_assert b = (if b then Inr () else Inl ''assertion failed'')"

lemma rust_assert_iff [simp]: "rust_assert b = Inr u \<longleftrightarrow> b"
  by (simp add: rust_assert_def)

definition asserted ::
    "((panic + 'a) \<times> 'x) option \<Rightarrow> ('a \<Rightarrow> 'x \<Rightarrow> bool) \<Rightarrow> (panic + unit) option" where
  "asserted out p = map_option (\<lambda>(m, x). unwind m (\<lambda>a. rust_assert (p a x))) out"

definition in_turn :: "(panic + unit) option \<Rightarrow> (panic + unit) option \<Rightarrow> (panic + unit) option" where
  "in_turn m k = (case m of Some (Inr _) \<Rightarrow> k | _ \<Rightarrow> m)"

definition passed :: "(panic + unit) option \<Rightarrow> bool" where
  "passed m \<longleftrightarrow> m = Some (Inr ())"

lemma asserted_passed: "p a x \<Longrightarrow> passed (asserted (Some (Inr a, x)) p)"
  by (simp add: asserted_def passed_def)

lemma asserted_passedI: "out = Some (Inr a, x) \<Longrightarrow> p a x \<Longrightarrow> passed (asserted out p)"
  by (simp add: asserted_passed)

lemma in_turn_passed: "passed m \<Longrightarrow> passed k \<Longrightarrow> passed (in_turn m k)"
  by (simp add: in_turn_def passed_def)

lemma attempts_Inr: "bound \<noteq> 0 \<Longrightarrow> attempts bound = Inr (StopAfterAttempts bound)"
  by (simp add: attempts_def word_le_nat_alt unat_gt_0 Suc_le_eq)

lemma call_of_run:
  "run dbg r x = Some (Inr ((res, stats), w), x') \<Longrightarrow> call dbg r x = Some (Inr res, x')"
  by (simp add: call_def)

lemma call_with_stats_of_run:
  "run dbg r x = Some (Inr (out, w), x') \<Longrightarrow> call_with_stats dbg (with_stats r) x = Some (Inr out, x')"
  by (simp add: call_with_stats_def with_stats_def)

lemma retry_ext_Inr:
  "retry_ext system classify f = Inr (from_parts system (StatelessOp f) (default_decide classify)
     (StopAfterAttempts 3) (exponential (from_millis 100)) None)"
  by (simp add: retry_ext_def from_op_def attempts_Inr DEFAULT_MAX_ATTEMPTS_def DEFAULT_INITIAL_WAIT_def)

lemmas example_defs = constructors_total retry_ext_Inr attempts_Inr builder_defs fixed_def never_def
  execution_hooks_new_def

text \<open>The builders here have no hooks of their own unless they say so: the script is the operation's.\<close>

lemma follows_script_no_hooks:
  assumes "rt_op r = OpFn (\<lambda>_. poll) \<or> rt_op r = StatelessOp poll" and "rt_hooks r = execution_hooks_new"
    and "\<And>n y. before n y \<Longrightarrow> 1 \<le> n \<Longrightarrow> fst (run_state poll y) = f n \<and> before (Suc n) (snd (run_state poll y))"
  shows "follows_script r f (\<lambda>n y. 1 \<le> n \<and> before n y)"
  using assms by (auto simp: follows_script_def execution_hooks_new_def)

subsection \<open>\<open>custom-outcome.rs\<close>\<close>

datatype rollout = InProgress | Live u32 | Failed string

definition rollout_classify :: "rollout \<Rightarrow> (u32, string, rollout) verdict" where
  "rollout_classify r =
     (case r of Live version \<Rightarrow> Return version | Failed reason \<Rightarrow> Abort reason | InProgress \<Rightarrow> Retry r)"

text \<open>The state is the cell \<open>idx\<close>. Both programs script at least one outcome.\<close>

definition scripted :: "rollout list \<Rightarrow> (nat, rollout) state" where
  "scripted script = State (\<lambda>idx. let i = min idx (length script - 1) in (script ! i, i + 1))"

definition await_rollout_retry ::
    "'y sync_clock \<Rightarrow> ('y, rollout) state \<Rightarrow> panic + ('y, rollout, u32, string) sync_retry" where
  "await_rollout_retry system poll =
     unwind (retry_new system rollout_classify (\<lambda>_. poll)) (\<lambda>r.
     unwind (attempts 10) (\<lambda>stop.
       Inr (set_wait (set_stop r stop) (fixed (from_millis 10)))))"

definition await_rollout ::
    "bool \<Rightarrow> 'y sync_clock \<Rightarrow> ('y, rollout) state \<Rightarrow> 'y \<Rightarrow>
     ((panic + (u32, (string, rollout) retry_error) result) \<times> 'y virtual_clock_scheme) option" where
  "await_rollout dbg system poll y = call_virtual dbg (await_rollout_retry system poll) y"

definition custom_outcome_main :: "bool \<Rightarrow> nat sync_clock \<Rightarrow> (panic + unit) option" where
  "custom_outcome_main dbg system =
     in_turn (asserted (await_rollout dbg system (scripted [InProgress, InProgress, Live 7]) 0)
       (\<lambda>live _. live = Ok 7))
    (in_turn (asserted (await_rollout dbg system (scripted [InProgress, Failed ''image pull error'']) 0)
       (\<lambda>failed _. failed = Err (Error_Aborted ''image pull error'')))
     (asserted (await_rollout dbg system (scripted [InProgress]) 0)
       (\<lambda>stuck _. stuck = Err (Error_Exhausted InProgress))))"

text \<open>The outcome of attempt \<open>n\<close> under a script, and the cell before it.\<close>

definition script_outcome :: "'o list \<Rightarrow> nat \<Rightarrow> 'o" where
  "script_outcome script n = script ! min (n - 1) (length script - 1)"

definition script_cell :: "'o list \<Rightarrow> nat \<Rightarrow> nat \<Rightarrow> bool" where
  "script_cell script n idx \<longleftrightarrow> min idx (length script - 1) = min (n - 1) (length script - 1)"

lemma script_cell_start [simp]: "script_cell script (Suc 0) 0"
  by (simp add: script_cell_def)

lemma script_cell_turn:
  assumes "script_cell script n idx" and "1 \<le> n"
  shows "script ! min idx (length script - 1) = script_outcome script n"
    and "script_cell script (Suc n) (Suc (min idx (length script - 1)))"
  using assms unfolding script_cell_def script_outcome_def by (simp, linarith)

lemma await_rollout_run:
  "\<exists>x'. await_rollout dbg system (scripted script) 0 =
      Some (Inr (fst (spec_run 10 (rollout_classify \<circ> script_outcome script))), x')
    \<and> vc_waits x' =
      replicate (snd (spec_run 10 (rollout_classify \<circ> script_outcome script)) - 1) (from_millis 10)"
proof -
  obtain r where r: "await_rollout_retry system (scripted script) = Inr r"
      "rt_op r = OpFn (\<lambda>_. scripted script)" "rt_hooks r = execution_hooks_new"
      "rt_classifier r = default_decide rollout_classify"
      "rt_stop r = StopAfterAttempts 10" "rt_wait r = WaitFixed (from_millis 10)" "rt_timeout r = None"
    by (simp add: await_rollout_retry_def example_defs)
  have plain: "plain_observers r rollout_classify"
    by (simp add: plain_observers_def r default_decide_def)
  have "follows_script r (script_outcome script) (\<lambda>n y. 1 \<le> n \<and> script_cell script n y)"
    by (rule follows_script_no_hooks [where poll = "scripted script"])
      (use r script_cell_turn in \<open>auto simp: scripted_def Let_def\<close>)
  from virtual_fixed_run [OF plain this r(5) _ r(6,7), of "virtual_world 0" dbg] show ?thesis
    by (auto simp: await_rollout_def call_virtual_def r(1) virtual_world_def slept_def dur_eval
        dest: call_of_run)
qed

text \<open>
  The rollout example, for every script: it returns the version of the first \<open>Live\<close>
  among the first ten polls, aborts with the reason of a \<open>Failed\<close> before it, and is
  exhausted with \<open>InProgress\<close> when all ten are; it sleeps ten milliseconds between two polls
  and not otherwise.
\<close>

theorem await_rollout_follows_the_script:
  assumes "script \<noteq> []"
    and "run10 = spec_run 10 (\<lambda>n. rollout_classify (script ! min (n - 1) (length script - 1)))"
  shows "\<exists>x'. await_rollout dbg system (scripted script) 0 = Some (Inr (fst run10), x')
    \<and> vc_waits x' = replicate (snd run10 - 1) (from_millis 10)"
proof -
  have "rollout_classify \<circ> script_outcome script =
      (\<lambda>n. rollout_classify (script ! min (n - 1) (length script - 1)))"
    by (simp add: fun_eq_iff script_outcome_def)
  then show ?thesis using await_rollout_run [of dbg system script] assms(2) by simp
qed

theorem await_rollout_follows_the_script_witness:
  "map_option fst (await_rollout True system (scripted [InProgress, InProgress, Live 7]) 0) =
     Some (Inr (Ok 7))"
  using await_rollout_follows_the_script [of "[InProgress, InProgress, Live 7]" _ True system, OF _ refl]
  by (auto simp: spec_run_def upt_rec rollout_classify_def verdict_result_def)

lemma custom_outcome_main_passes: "passed (custom_outcome_main dbg system)"
proof -
  note spec = spec_run_def upt_rec rollout_classify_def verdict_result_def script_outcome_def
  have answer: "passed (asserted (await_rollout dbg system (scripted script) 0) (\<lambda>res _. res = expected))"
    if "fst (spec_run 10 (rollout_classify \<circ> script_outcome script)) = expected" for script expected
    using await_rollout_run [of dbg system script] that by (auto simp: asserted_passed)
  show ?thesis
    unfolding custom_outcome_main_def by (intro in_turn_passed answer) (simp_all add: spec)
qed

subsection \<open>\<open>polling-terminal-failure.rs\<close>\<close>

datatype job_status = JobPending | JobDone

datatype job_error = Transient | Fatal string

definition scripted_poller ::
    "(job_status, job_error) result list \<Rightarrow> (nat, (job_status, job_error) result) state" where
  "scripted_poller script = State (\<lambda>idx. let i = min idx (length script - 1) in (script ! i, i + 1))"

definition poll_verdict ::
    "(job_status, job_error) result \<Rightarrow> (job_status, job_error, (job_status, job_error) result) verdict" where
  "poll_verdict outcome =
     (case outcome of
        Ok JobDone \<Rightarrow> Return JobDone
      | Err (Fatal msg) \<Rightarrow> Abort (Fatal msg)
      | Ok JobPending \<Rightarrow> Retry outcome
      | Err Transient \<Rightarrow> Retry outcome)"

definition poll_until_done_retry ::
    "'y sync_clock \<Rightarrow> ('y, (job_status, job_error) result) state \<Rightarrow>
     panic + ('y, (job_status, job_error) result, job_status, job_error) sync_retry" where
  "poll_until_done_retry system poller =
     unwind (retry_new system classify_result (\<lambda>_. poller)) (\<lambda>r.
     unwind (attempts 10) (\<lambda>stop.
       Inr (set_stop (set_wait
              (set_decide r verdict_into_verdict (\<lambda>outcome. State_Monad.return (poll_verdict outcome)))
              (fixed (from_millis 10))) stop)))"

definition poll_until_done ::
    "bool \<Rightarrow> 'y sync_clock \<Rightarrow> ('y, (job_status, job_error) result) state \<Rightarrow> 'y \<Rightarrow>
     ((panic + (job_status, (job_error, (job_status, job_error) result) retry_error) result)
      \<times> 'y virtual_clock_scheme) option" where
  "poll_until_done dbg system poller y = call_virtual dbg (poll_until_done_retry system poller) y"

definition polling_main :: "bool \<Rightarrow> nat sync_clock \<Rightarrow> (panic + unit) option" where
  "polling_main dbg system =
     in_turn (asserted (poll_until_done dbg system
         (scripted_poller [Err Transient, Ok JobPending, Ok JobPending, Ok JobDone]) 0)
       (\<lambda>happy _. happy = Ok JobDone))
    (in_turn (asserted (poll_until_done dbg system
         (scripted_poller [Ok JobPending, Err (Fatal ''rolled back''), Ok JobPending]) 0)
       (\<lambda>fatal _. case fatal of Err (Error_Aborted (Fatal _)) \<Rightarrow> True | _ \<Rightarrow> False))
     (asserted (poll_until_done dbg system (scripted_poller [Ok JobPending]) 0)
       (\<lambda>stuck _. case stuck of Err (Error_Exhausted _) \<Rightarrow> True | _ \<Rightarrow> False)))"

lemma poll_until_done_run:
  "\<exists>x'. poll_until_done dbg system (scripted_poller script) 0 =
      Some (Inr (fst (spec_run 10 (poll_verdict \<circ> script_outcome script))), x')
    \<and> vc_waits x' =
      replicate (snd (spec_run 10 (poll_verdict \<circ> script_outcome script)) - 1) (from_millis 10)"
proof -
  obtain r where r: "poll_until_done_retry system (scripted_poller script) = Inr r"
      "rt_op r = OpFn (\<lambda>_. scripted_poller script)" "rt_hooks r = execution_hooks_new"
      "rt_classifier r = closure_decide verdict_into_verdict (\<lambda>outcome. State_Monad.return (poll_verdict outcome))"
      "rt_stop r = StopAfterAttempts 10" "rt_wait r = WaitFixed (from_millis 10)" "rt_timeout r = None"
    by (simp add: poll_until_done_retry_def example_defs)
  have plain: "plain_observers r poll_verdict"
    by (simp add: plain_observers_def r closure_decide_def verdict_into_verdict_def)
  have "follows_script r (script_outcome script) (\<lambda>n y. 1 \<le> n \<and> script_cell script n y)"
    by (rule follows_script_no_hooks [where poll = "scripted_poller script"])
      (use r script_cell_turn in \<open>auto simp: scripted_poller_def Let_def\<close>)
  from virtual_fixed_run [OF plain this r(5) _ r(6,7), of "virtual_world 0" dbg] show ?thesis
    by (auto simp: poll_until_done_def call_virtual_def r(1) virtual_world_def slept_def dur_eval
        dest: call_of_run)
qed

text \<open>
  The polling example, for every script: pending polls and transient errors are retried up
  to ten times, \<open>Done\<close> is returned, and a fatal error aborts at once although it is an
  \<open>Err\<close> like the transient ones. What comes later in the script is not reached.
\<close>

theorem poll_until_done_follows_the_script:
  assumes "i < 10" and "i < length script" and "\<forall>k < i. is_Retry (poll_verdict (script ! k))"
    and "\<not> is_Retry (poll_verdict (script ! i))"
  shows "\<exists>x'. poll_until_done dbg system (scripted_poller script) 0 =
      Some (Inr (verdict_result (poll_verdict (script ! i))), x')
    \<and> vc_waits x' = replicate i (from_millis 10)"
proof -
  have "script_outcome script (Suc k) = script ! k" if "k \<le> i" for k
    using that assms(2) by (simp add: script_outcome_def)
  then have "spec_run 10 (poll_verdict \<circ> script_outcome script) =
      (verdict_result (poll_verdict (script ! i)), Suc i)"
    using assms(1,3,4) by (subst spec_run_eq [of "Suc i"]) (auto simp: less_Suc_eq_0_disj le_simps)
  then show ?thesis using poll_until_done_run [of dbg system script] by simp
qed

theorem poll_until_done_follows_the_script_witness:
  "map_option fst (poll_until_done True system
       (scripted_poller [Ok JobPending, Err (Fatal ''rolled back''), Ok JobPending]) 0) =
     Some (Inr (Err (Error_Aborted (Fatal ''rolled back''))))"
  using poll_until_done_follows_the_script
    [of 1 "[Ok JobPending, Err (Fatal ''rolled back''), Ok JobPending]" True system]
  by (auto simp: poll_verdict_def verdict_result_def)

lemma polling_main_passes: "passed (polling_main dbg system)"
proof -
  note spec = spec_run_def upt_rec poll_verdict_def verdict_result_def script_outcome_def
  have answer: "passed (asserted (poll_until_done dbg system (scripted_poller script) 0) (\<lambda>res _. p res))"
    if "p (fst (spec_run 10 (poll_verdict \<circ> script_outcome script)))" for script p
    using poll_until_done_run [of dbg system script] that by (auto simp: asserted_passed)
  show ?thesis
    unfolding polling_main_def by (intro in_turn_passed answer) (simp_all add: spec)
qed

subsection \<open>\<open>basic-retry.rs\<close>\<close>

text \<open>The state is the cell \<open>failures_left\<close>.\<close>

definition fetch_config :: "(u32, (string, string) result) state" where
  "fetch_config = State (\<lambda>failures_left.
     if 0 < failures_left then (Err ''connection refused'', failures_left - 1)
     else (Ok ''config_value=42'', failures_left))"

definition basic_retry ::
    "'y sync_clock \<Rightarrow> ('y, (string, string) result) state \<Rightarrow>
     panic + ('y, (string, string) result, string, string) sync_retry" where
  "basic_retry system fetch =
     unwind (retry_ext system classify_result fetch) (\<lambda>r.
     unwind (attempts 5) (\<lambda>stop.
       Inr (set_wait (set_stop r stop) (fixed (from_millis 10)))))"

definition basic_retry_main :: "bool \<Rightarrow> u32 sync_clock \<Rightarrow> (panic + unit) option" where
  "basic_retry_main dbg system =
     asserted (call_virtual dbg (basic_retry system fetch_config) 2)
       (\<lambda>result _. result = Ok ''config_value=42'')"

definition fetch_outcome :: "u32 \<Rightarrow> nat \<Rightarrow> (string, string) result" where
  "fetch_outcome k n = (if n \<le> unat k then Err ''connection refused'' else Ok ''config_value=42'')"

lemma fetch_config_turn:
  assumes "unat y = unat k - (n - 1)" and "1 \<le> n"
  shows "fst (run_state fetch_config y) = fetch_outcome k n"
    and "unat (snd (run_state fetch_config y)) = unat k - n"
  using assms by (auto simp: fetch_config_def fetch_outcome_def word_less_nat_alt unat_sub_if')

lemma basic_retry_parts:
  obtains r where "basic_retry system fetch_config = Inr r"
    and "rt_stop r = StopAfterAttempts 5" and "rt_wait r = WaitFixed (from_millis 10)"
    and "rt_timeout r = None" and "plain_observers r classify_result"
    and "follows_script r (fetch_outcome k) (\<lambda>n y. 1 \<le> n \<and> unat y = unat k - (n - 1))"
proof -
  obtain r where r: "basic_retry system fetch_config = Inr r"
      "rt_op r = StatelessOp fetch_config" "rt_hooks r = execution_hooks_new"
      "rt_classifier r = default_decide classify_result"
      "rt_stop r = StopAfterAttempts 5" "rt_wait r = WaitFixed (from_millis 10)" "rt_timeout r = None"
    by (simp add: basic_retry_def example_defs)
  have "plain_observers r classify_result"
    by (simp add: plain_observers_def r default_decide_def)
  moreover have "follows_script r (fetch_outcome k) (\<lambda>n y. 1 \<le> n \<and> unat y = unat k - (n - 1))"
    by (rule follows_script_no_hooks [where poll = fetch_config]) (use r fetch_config_turn in auto)
  ultimately show thesis using r by (intro that)
qed

interpretation basic: virtual_script "on_virtual_clock (projr (basic_retry system fetch_config))"
    classify_result "stop_test (rt_stop (projr (basic_retry system fetch_config)))"
    "wait_lower (rt_wait (projr (basic_retry system fetch_config)))" "fetch_outcome k"
    "\<lambda>n x. 1 \<le> n \<and> unat (virtual_clock.more x) = unat k - (n - 1)"
    "\<lambda>n x. 1 \<le> n \<and> unat (virtual_clock.more x) = unat k - (n - 1)"
    "\<lambda>n x. 1 \<le> Suc n \<and> unat (virtual_clock.more x) = unat k - (Suc n - 1)"
  for system :: "u32 sync_clock" and k
proof -
  obtain r where "basic_retry system fetch_config = Inr r" and "plain_observers r classify_result"
    and "follows_script r (fetch_outcome k) (\<lambda>n y. 1 \<le> n \<and> unat y = unat k - (n - 1))"
    by (rule basic_retry_parts)
  from virtual_script_run [OF this(2) follows_script_pages [OF this(3)]] this(1) show "virtual_script
    (on_virtual_clock (projr (basic_retry system fetch_config))) classify_result
    (stop_test (rt_stop (projr (basic_retry system fetch_config))))
    (wait_lower (rt_wait (projr (basic_retry system fetch_config)))) (fetch_outcome k)
    (\<lambda>n x. 1 \<le> n \<and> unat (virtual_clock.more x) = unat k - (n - 1))
    (\<lambda>n x. 1 \<le> n \<and> unat (virtual_clock.more x) = unat k - (n - 1))
    (\<lambda>n x. 1 \<le> Suc n \<and> unat (virtual_clock.more x) = unat k - (Suc n - 1))"
    by simp
qed

lemma basic_retry_run:
  "\<exists>x'. call_virtual dbg (basic_retry system fetch_config) k = Some (Inr
       (if k < 5 then Ok ''config_value=42'' else Err (Error_Exhausted (Err ''connection refused''))), x')
     \<and> vc_waits x' = replicate (min (unat k) 4) (from_millis 10)"
proof -
  obtain r where r: "basic_retry system fetch_config = Inr r" "rt_stop r = StopAfterAttempts 5"
      "rt_wait r = WaitFixed (from_millis 10)" "rt_timeout r = None" "plain_observers r classify_result"
      "follows_script r (fetch_outcome k) (\<lambda>n y. 1 \<le> n \<and> unat y = unat k - (n - 1))"
    by (rule basic_retry_parts)
  note run = virtual_fixed_run [OF r(5,6,2) _ r(3,4), of "virtual_world k" dbg]
  let ?n = "Suc (min (unat k) 4)"
  have "spec_run 5 (classify_result \<circ> fetch_outcome k) =
      (verdict_result (classify_result (fetch_outcome k ?n)), ?n)"
    by (subst spec_run_eq [of ?n]) (auto simp: fetch_outcome_def classify_result_def)
  then show ?thesis
    using run
    by (auto simp: call_virtual_def r(1) virtual_world_def slept_def dur_eval fetch_outcome_def
        classify_result_def verdict_result_def word_less_nat_alt dest: call_of_run)
qed

text \<open>
  The basic example, for any number \<open>k\<close> of failures: up to four are survived, with one
  wait of ten milliseconds for each, and five or more end the retry with the last of them.
\<close>

theorem basic_retry_survives_four_failures:
  "\<exists>x'. call_virtual dbg (basic_retry system fetch_config) k = Some (Inr
       (if k < 5 then Ok ''config_value=42'' else Err (Error_Exhausted (Err ''connection refused''))), x')
     \<and> vc_waits x' = replicate (min (unat k) 4) (from_millis 10)"
  by (rule basic_retry_run)

lemma basic_retry_main_passes: "passed (basic_retry_main dbg system)"
proof -
  obtain x' where "call_virtual dbg (basic_retry system fetch_config) 2 = Some (Inr (Ok ''config_value=42''), x')"
    using basic_retry_run [of dbg system 2] by auto
  then show ?thesis by (simp add: basic_retry_main_def asserted_passed)
qed

subsection \<open>\<open>hooks-and-stats.rs\<close>\<close>

text \<open>What the hook prints goes to standard error, here a list of the lines' arguments.\<close>

definition ping_service :: "((u32 \<times> string) list, (unit, string) result) state" where
  "ping_service = State_Monad.return (Err ''control plane unavailable'')"

definition log_failure ::
    "(unit, string) result attempt_state \<Rightarrow> ((u32 \<times> string) list, unit) state" where
  "log_failure st = State (\<lambda>stderr.
     (case as_outcome st of
        Err err \<Rightarrow> ((), stderr @ [(as_attempt st, err)])
      | Ok _ \<Rightarrow> ((), stderr)))"

definition hooks_and_stats ::
    "(u32 \<times> string) list sync_clock \<Rightarrow>
     panic + ((u32 \<times> string) list, (unit, string) result, unit, string) sync_retry" where
  "hooks_and_stats system =
     unwind (retry_ext system classify_result ping_service) (\<lambda>r.
     unwind (attempts 3) (\<lambda>stop.
       Inr (after_attempt (set_wait (set_stop r stop) (fixed (from_millis 5))) log_failure)))"

definition hooks_and_stats_call ::
    "bool \<Rightarrow> (u32 \<times> string) list sync_clock \<Rightarrow>
     ((panic + (unit, (string, (unit, string) result) retry_error) result \<times> retry_stats)
      \<times> (u32 \<times> string) list virtual_clock_scheme) option" where
  "hooks_and_stats_call dbg system = call_virtual_with_stats dbg (hooks_and_stats system) []"

definition hooks_and_stats_main :: "bool \<Rightarrow> (u32 \<times> string) list sync_clock \<Rightarrow> (panic + unit) option" where
  "hooks_and_stats_main dbg system =
     asserted (hooks_and_stats_call dbg system) (\<lambda>(result, stats) _.
       (case result of Err (Error_Exhausted _) \<Rightarrow> True | _ \<Rightarrow> False) \<and> rs_attempts stats = 3)"

text \<open>
  The hooks example: after three failed attempts five milliseconds apart the caller gets
  the exhausted error and, with it, statistics that count three attempts and ten milliseconds.
\<close>

lemma hooks_and_stats_reports_three_attempts:
  "\<exists>x'. hooks_and_stats_call dbg system = Some (Inr
       (Err (Error_Exhausted (Err ''control plane unavailable'')),
        \<lparr>rs_attempts = 3, rs_total_elapsed = from_millis 10, rs_total_wait = from_millis 10,
         rs_stop_reason = Exhausted\<rparr>), x')
     \<and> vc_waits x' = [from_millis 5, from_millis 5]"
proof -
  obtain r where r: "hooks_and_stats system = Inr r" "rt_op r = StatelessOp ping_service"
      "rt_hooks r = chain_after_attempt execution_hooks_new (HookFn log_failure)"
      "rt_classifier r = default_decide classify_result"
      "rt_stop r = StopAfterAttempts 3" "rt_wait r = WaitFixed (from_millis 5)" "rt_timeout r = None"
    by (simp add: hooks_and_stats_def example_defs)
  have plain: "plain_observers r classify_result"
    by (simp add: plain_observers_def r default_decide_def)
  have "follows_script r (\<lambda>_. Err ''control plane unavailable'') (\<lambda>_ _. True)"
    by (simp add: follows_script_def r ping_service_def)
  from virtual_schedule_run [OF plain this, where x = "virtual_world []" and n = 2
      and ds = "[from_millis 5, from_millis 5]" and dbg = dbg]
  show ?thesis
    by (auto simp: schedule_eval r stop_test_def word_le_nat_alt classify_result_def verdict_result_def
        result_stop_reason_def hooks_and_stats_call_def call_virtual_with_stats_def virtual_world_def
        dest: call_with_stats_of_run)
qed

lemma hooks_and_stats_main_passes: "passed (hooks_and_stats_main dbg system)"
  using hooks_and_stats_reports_three_attempts [of dbg system]
  by (auto simp: hooks_and_stats_main_def asserted_passed)

end
