(* ===== verification/Examples_Time.thy ===== *)
theory Examples_Time
  imports Examples
begin

text \<open>
  The example programs about time: \<open>src/examples/testing-with-virtual-clock.rs\<close> and
  \<open>src/examples/sync-cancel.rs\<close>.
\<close>

subsection \<open>\<open>testing-with-virtual-clock.rs\<close>\<close>

definition INITIAL_BACKOFF :: duration where
  "INITIAL_BACKOFF = from_millis 100"

definition BACKOFF_CAP :: duration where
  "BACKOFF_CAP = from_secs 5"

definition BUDGET :: duration where
  "BUDGET = from_millis 400"

text \<open>Generic in the clock, as the function is. The operation is a closure on the whole world.\<close>

definition fetch_with_retries_retry ::
    "'cl \<Rightarrow> ('x, (u32, string) result) state \<Rightarrow> 'x sync_clock \<Rightarrow>
     panic + ('x, (u32, string) result, u32, string) sync_retry" where
  "fetch_with_retries_retry system operation clock =
     unwind (retry_new system classify_result (\<lambda>_. operation)) (\<lambda>r.
       Inr (set_timeout (set_clock (set_stop (set_wait r
              (wait_cap (exponential INITIAL_BACKOFF) BACKOFF_CAP)) never) clock) BUDGET))"

definition fetch_with_retries ::
    "bool \<Rightarrow> 'cl \<Rightarrow> ('x, (u32, string) result) state \<Rightarrow> 'x sync_clock \<Rightarrow> 'x \<Rightarrow>
     ((panic + (u32, (string, (u32, string) result) retry_error) result) \<times> 'x) option" where
  "fetch_with_retries dbg system operation clock x =
     (case fetch_with_retries_retry system operation clock of
        Inl p \<Rightarrow> Some (Inl p, x) | Inr r \<Rightarrow> call dbg r x)"

lemma wait_lower_exponential:
  assumes "as_nanos initial < 2 ^ 53"
  shows "wait_lower (exponential initial) st = duration_of (as_nanos initial * 2 ^ (unat (st_attempt st) - 1))"
  using next_wait_plain [of "exponential initial :: unit wait_strategy" st "()"] next_wait_doubles [OF assms, of st "()"]
  by (simp add: exponential_def)

text \<open>A closure that only touches its captured variables, beside a virtual clock.\<close>

lemma fetch_on_virtual:
  fixes operation :: "('y, (u32, string) result) state" and c :: "'y sync_clock"
  assumes "fetch_with_retries_retry system operation c = Inr r"
  shows "fetch_with_retries_retry system' (lift_state virtual_clock.more put_virtual operation)
    virtual_sync_clock = Inr (on_virtual_clock r)"
proof -
  have "lift_state virtual_clock.more put_virtual (default_decide classify_result oc) =
      (default_decide classify_result oc :: ('y virtual_clock_scheme, _) state)" for oc :: "(u32, string) result"
    by (rule state_ext) (simp add: run_lift_state default_decide_def virtual_view.put_get)
  then show ?thesis
    using assms
    by (auto simp: fetch_with_retries_retry_def example_defs on_virtual_clock_def lift_retry_def
        wait_cap_def exponential_def)
qed

text \<open>The schedule of the policy: the third wait is what is left of the budget.\<close>

lemma fetch_schedule:
  assumes "k \<le> 3"
  shows "schedule (\<lambda>st. min (duration_of (100000000 * 2 ^ (unat (st_attempt st) - 1))) (from_secs 5))
      (Some (from_millis 400)) duration_zero k = take k (map from_millis [100, 200, 100])"
proof -
  have "k = 0 \<or> k = 1 \<or> k = 2 \<or> k = 3" using assms by auto
  then show ?thesis by (elim disjE) (simp_all add: schedule_eval)
qed

lemma fetch_run:
  fixes operation :: "('y, (u32, string) result) state"
  assumes script: "\<And>n y. before n y \<Longrightarrow> 1 \<le> n \<Longrightarrow> fst (run_state operation y) = f n
      \<and> before (Suc n) (snd (run_state operation y))"
    and start: "before 1 y"
    and spec: "spec_run 4 (classify_result \<circ> f) = (res, Suc k)"
  shows "\<exists>x'. fetch_with_retries dbg system (lift_state virtual_clock.more put_virtual operation)
      virtual_sync_clock (virtual_world y) = Some (Inr res, x')
    \<and> vc_waits x' = take k (map from_millis [100, 200, 100])
    \<and> vc_now x' = foldl saturating_add duration_zero (take k (map from_millis [100, 200, 100]))"
proof -
  obtain c :: "'y sync_clock" where True by simp
  obtain r where build: "fetch_with_retries_retry () operation c = Inr r"
      and r: "rt_op r = OpFn (\<lambda>_. operation)" "rt_hooks r = execution_hooks_new"
      "rt_classifier r = default_decide classify_result" "rt_stop r = StopNever"
      "rt_wait r = WaitCapped (exponential (from_millis 100)) (from_secs 5)"
      "rt_timeout r = Some (from_millis 400)"
    by (simp add: fetch_with_retries_retry_def example_defs wait_cap_def INITIAL_BACKOFF_def
        BACKOFF_CAP_def BUDGET_def)
  have plain: "plain_observers r classify_result"
    by (simp add: plain_observers_def r default_decide_def exponential_def)
  have follows: "follows_script r f (\<lambda>n y. 1 \<le> n \<and> before n y)"
    by (rule follows_script_no_hooks [where poll = operation]) (use r script in auto)
  have "as_nanos (from_millis 100) < 2 ^ 53" by (simp add: dur_simps)
  then have wl: "wait_lower (rt_wait r) =
      (\<lambda>st. min (duration_of (100000000 * 2 ^ (unat (st_attempt st) - 1))) (from_secs 5))"
    by (simp add: fun_eq_iff r wait_lower_exponential from_millis.rep_eq)
  obtain n where n: "spec_run 4 (classify_result \<circ> f) = (verdict_result (classify_result (f (Suc n))), Suc n)"
      "n \<le> 3" "n = 3 \<or> \<not> is_Retry (classify_result (f (Suc n)))"
      "\<forall>k < n. is_Retry (classify_result (f (Suc k)))"
    by (rule spec_run_cases [of 4 "classify_result \<circ> f"]) auto
  have sched: "schedule (wait_lower (rt_wait r)) (Some (from_millis 400)) duration_zero j =
      take j (map from_millis [100, 200, 100])" if "j \<le> 3" for j
    unfolding wl by (rule fetch_schedule [OF that])
  have over: "timed_out (Some (from_millis 400)) (st_elapsed (schedule_state duration_zero
      (take j (map from_millis [100, 200, 100])))) \<longleftrightarrow> j = 3" if "j \<le> 3" for j
  proof -
    have "j = 0 \<or> j = 1 \<or> j = 2 \<or> j = 3" using that by auto
    then show ?thesis by (elim disjE) (simp_all add: schedule_eval)
  qed
  have ends: "run_ends classify_result (stop_test (rt_stop r)) (rt_timeout r) (f (Suc j))
      (schedule_state duration_zero (schedule (wait_lower (rt_wait r)) (rt_timeout r) duration_zero j))
    \<longleftrightarrow> \<not> is_Retry (classify_result (f (Suc j))) \<or> j = 3" if "j \<le> 3" for j
    using over [OF that] that by (simp add: run_ends_def r(4,6) stop_test_def sched that)
  have "\<exists>w w' x'. run dbg (on_virtual_clock r) (virtual_world y) =
      Some (Inr ((verdict_result (classify_result (f (Suc n))), w), w'), x')
    \<and> vc_now x' = foldl saturating_add duration_zero (take n (map from_millis [100, 200, 100]))
    \<and> vc_waits x' = slept (take n (map from_millis [100, 200, 100]))"
    using virtual_schedule_run [OF plain follows _ _ _ _ refl, of "virtual_world y" n dbg] n(2-4) start ends
    by (auto simp: virtual_world_def sched r(6))
  moreover have "slept (take n (map from_millis [100, 200, 100])) = take n (map from_millis [100, 200, 100])"
    unfolding slept_def by (rule filter_True) (auto simp: dur_eval dest!: in_set_takeD)
  ultimately show ?thesis
    using n(1) spec fetch_on_virtual [OF build, of system]
    by (auto simp: fetch_with_retries_def dest: call_of_run)
qed

definition always_failing :: "(unit, (u32, string) result) state" where
  "always_failing = State_Monad.return (Err ''service unavailable'')"

definition virtual_clock_main :: "bool \<Rightarrow> (panic + unit) option" where
  "virtual_clock_main dbg =
     asserted (fetch_with_retries dbg () (lift_state virtual_clock.more put_virtual always_failing)
         virtual_sync_clock (virtual_world ()))
       (\<lambda>result clock. (case result of Err (Error_Exhausted _) \<Rightarrow> True | _ \<Rightarrow> False)
          \<and> waits clock = [from_millis 100, from_millis 200, from_millis 100]
          \<and> fst (run_state virtual_now clock) = BUDGET)"

text \<open>
  \<open>fetch_with_retries\<close> under test, for every scripted operation: it tries at 0, 100, 300 and
  400 milliseconds of virtual time, answers with the first success and gives up at the
  budget, with the last error; the clock recorded exactly the waits between the attempts made.
\<close>

theorem fetch_with_retries_schedule:
  assumes "\<forall>n y. before n y \<longrightarrow> 1 \<le> n \<longrightarrow> fst (run_state operation y) = f n
      \<and> before (Suc n) (snd (run_state operation y))"
    and "before 1 y" and "spec_run 4 (classify_result \<circ> f) = (res, Suc k)"
  shows "\<exists>x'. fetch_with_retries dbg system (lift_state virtual_clock.more put_virtual operation)
      virtual_sync_clock (virtual_world y) = Some (Inr res, x')
    \<and> vc_waits x' = take k (map from_millis [100, 200, 100])
    \<and> vc_now x' = foldl saturating_add duration_zero (take k (map from_millis [100, 200, 100]))"
  by (rule fetch_run [where before = before, OF _ assms(2,3)]) (use assms(1) in blast)

lemma always_failing_spec:
  "spec_run 4 (classify_result \<circ> (\<lambda>_. Err ''service unavailable'' :: (u32, string) result)) =
    (Err (Error_Exhausted (Err ''service unavailable'')), Suc 3)"
  "foldl saturating_add duration_zero (map from_millis [100, 200, 100]) = BUDGET"
  by (simp_all add: spec_run_def upt_rec classify_result_def verdict_result_def BUDGET_def dur_eval)

theorem fetch_with_retries_schedule_witness:
  "\<exists>x'. fetch_with_retries True () (lift_state virtual_clock.more put_virtual always_failing)
       virtual_sync_clock (virtual_world ()) =
       Some (Inr (Err (Error_Exhausted (Err ''service unavailable''))), x')
     \<and> vc_waits x' = [from_millis 100, from_millis 200, from_millis 100] \<and> vc_now x' = BUDGET"
  using fetch_with_retries_schedule [of "\<lambda>_ _. True" always_failing
      "\<lambda>_. Err ''service unavailable''" "()" _ 3 True "()"] always_failing_spec
  by (simp add: always_failing_def)

lemma virtual_clock_main_passes: "passed (virtual_clock_main dbg)"
proof -
  have "\<exists>x'. fetch_with_retries dbg () (lift_state virtual_clock.more put_virtual always_failing)
       virtual_sync_clock (virtual_world ()) =
       Some (Inr (Err (Error_Exhausted (Err ''service unavailable''))), x')
     \<and> vc_waits x' = [from_millis 100, from_millis 200, from_millis 100] \<and> vc_now x' = BUDGET"
    using fetch_run [of "\<lambda>_ _. True" always_failing "\<lambda>_. Err ''service unavailable''" "()" _ 3 dbg "()"]
      always_failing_spec by (simp add: always_failing_def)
  then show ?thesis
    by (auto simp: virtual_clock_main_def waits_def virtual_now_def asserted_passed)
qed

subsection \<open>\<open>sync-cancel.rs\<close>\<close>

text \<open>
  Pattern 1, on the default clock of the builder, which is the argument \<open>system\<close>: a deadline
  for an operation that fails at once.
\<close>

definition cancel_by_timeout ::
    "'x sync_clock \<Rightarrow> panic + ('x, (string, string) result, string, string) sync_retry" where
  "cancel_by_timeout system =
     unwind (retry_ext system classify_result (State_Monad.return (Err ''service unavailable''))) (\<lambda>r.
     unwind (attempts 100) (\<lambda>stop.
       Inr (set_timeout (set_wait (set_stop r stop) (fixed (from_millis 100))) (from_millis 250))))"

text \<open>
  Pattern 2: the flag is set by a watchdog, which the program plays itself in the operation. A
  poisoned lock would panic; no thread here panics while it holds the lock. The counter stops at
  three: it cannot overflow.
\<close>

datatype service_error = Service_transient string | Cancelled

record cancel_world =
  cancelled :: bool
  attempts_before_cancel :: u32

definition cancellable :: "(cancel_world, (unit, service_error) result) state" where
  "cancellable = State (\<lambda>w.
     if cancelled w then (Err Cancelled, w)
     else let n = attempts_before_cancel w + 1
          in (Err (Service_transient ''connection refused''),
              \<lparr>cancelled = (if 3 \<le> n then True else cancelled w), attempts_before_cancel = n\<rparr>))"

definition is_transient :: "service_error \<Rightarrow> (cancel_world, bool) state" where
  "is_transient e = State_Monad.return (case e of Service_transient _ \<Rightarrow> True | Cancelled \<Rightarrow> False)"

definition cancel_by_flag ::
    "cancel_world sync_clock \<Rightarrow>
     panic + (cancel_world, (unit, service_error) result, unit, service_error) sync_retry" where
  "cancel_by_flag system =
     unwind (retry_new system classify_result (\<lambda>_. cancellable)) (\<lambda>r.
     unwind (attempts 100) (\<lambda>stop.
       Inr (set_when (set_wait (set_stop r stop) (fixed duration_zero)) (error is_transient))))"

text \<open>The footgun the program warns of: the same without \<open>.when\<close>.\<close>

definition cancel_ignored ::
    "cancel_world sync_clock \<Rightarrow>
     panic + (cancel_world, (unit, service_error) result, unit, service_error) sync_retry" where
  "cancel_ignored system =
     unwind (retry_new system classify_result (\<lambda>_. cancellable)) (\<lambda>r.
     unwind (attempts 100) (\<lambda>stop.
       Inr (set_wait (set_stop r stop) (fixed duration_zero))))"

definition cancel_start :: cancel_world where
  "cancel_start = \<lparr>cancelled = False, attempts_before_cancel = 0\<rparr>"

definition cancel_outcome :: "nat \<Rightarrow> (unit, service_error) result" where
  "cancel_outcome n = Err (if n \<le> 3 then Service_transient ''connection refused'' else Cancelled)"

definition cancel_page :: "nat \<Rightarrow> cancel_world \<Rightarrow> bool" where
  "cancel_page n w \<longleftrightarrow> (cancelled w \<longleftrightarrow> 3 < n) \<and> unat (attempts_before_cancel w) = min (n - 1) 3"

lemma cancellable_turn:
  assumes "cancel_page n w" and "1 \<le> n"
  shows "fst (run_state cancellable w) = cancel_outcome n"
    and "cancel_page (Suc n) (snd (run_state cancellable w))"
proof -
  have "unat (attempts_before_cancel w + 1) = Suc (unat (attempts_before_cancel w))"
    using assms(1) by (simp add: cancel_page_def unat_word_ariths(1) min_def split: if_splits)
  then show "fst (run_state cancellable w) = cancel_outcome n"
    and "cancel_page (Suc n) (snd (run_state cancellable w))"
    using assms by (auto simp: cancellable_def cancel_page_def cancel_outcome_def Let_def word_le_nat_alt)
qed

text \<open>
  The flag example: on the operating system's clock, however late it is, the cancel error
  of the fourth attempt ends the retry as \<open>Aborted\<close>; without the selective predicate the
  same error is retried until the hundredth attempt and comes back as \<open>Exhausted\<close>.
\<close>

theorem cancel_flag_needs_selective_predicate:
  "\<exists>r r' x1 x2. cancel_by_flag system = Inr r \<and> cancel_ignored system = Inr r'
     \<and> call dbg (on_system_clock pass late r) \<lparr>os_anchor_age = age, \<dots> = cancel_start\<rparr> =
         Some (Inr (Err (Error_Aborted Cancelled)), x1)
     \<and> call dbg (on_system_clock pass late r') \<lparr>os_anchor_age = age, \<dots> = cancel_start\<rparr> =
         Some (Inr (Err (Error_Exhausted (Err Cancelled))), x2)"
proof -
  obtain r where r: "cancel_by_flag system = Inr r" "rt_op r = OpFn (\<lambda>_. cancellable)"
      "rt_hooks r = execution_hooks_new" "rt_classifier r = when_decide (error is_transient)"
      "rt_stop r = StopAfterAttempts 100" "rt_wait r = WaitFixed duration_zero" "rt_timeout r = None"
    by (simp add: cancel_by_flag_def example_defs)
  obtain r' where r': "cancel_ignored system = Inr r'" "rt_op r' = OpFn (\<lambda>_. cancellable)"
      "rt_hooks r' = execution_hooks_new" "rt_classifier r' = default_decide classify_result"
      "rt_stop r' = StopAfterAttempts 100" "rt_wait r' = WaitFixed duration_zero" "rt_timeout r' = None"
    by (simp add: cancel_ignored_def example_defs)
  let ?vf = "\<lambda>oc. case oc of Err (Service_transient m) \<Rightarrow> Retry oc | Ok v \<Rightarrow> Return v | Err e \<Rightarrow> Abort e"
  have plain: "plain_observers r ?vf" "plain_observers r' classify_result"
    by (auto simp: plain_observers_def r r' default_decide_def when_decide_def error_def is_transient_def
        split: result.split service_error.split)
  have page: "1 \<le> (1 :: nat) \<and> cancel_page 1 (os_world.more \<lparr>os_anchor_age = age, \<dots> = cancel_start\<rparr>)"
    by (simp add: cancel_page_def cancel_start_def)
  have follows: "follows_script q cancel_outcome (\<lambda>n w. 1 \<le> n \<and> cancel_page n w)"
    if "rt_op q = OpFn (\<lambda>_. cancellable)" "rt_hooks q = execution_hooks_new" for q :: "(cancel_world, _, _, _) sync_retry"
    by (rule follows_script_no_hooks [where poll = cancellable]) (use that cancellable_turn in auto)
  have spec: "spec_run 100 (?vf \<circ> cancel_outcome) = (Err (Error_Aborted Cancelled), 4)"
      "spec_run 100 (classify_result \<circ> cancel_outcome) = (Err (Error_Exhausted (Err Cancelled)), 100)"
    by (subst spec_run_eq [of 4] spec_run_eq [of 100],
        auto simp: cancel_outcome_def verdict_result_def classify_result_def)+
  show ?thesis
    using r(1) r'(1) spec system_view.script_run [OF plain(1) follows [OF r(2,3)] _ _ r(7) page, of 100 dbg pass late]
      system_view.script_run [OF plain(2) follows [OF r'(2,3)] _ _ r'(7) page, of 100 dbg pass late]
    by (auto simp: on_system_clock_def stop_test_def r(5) r'(5) dest: call_of_run)
qed

text \<open>
  The deadline example, on a virtual clock in place of the system's: the attempts are
  made at 0, 100, 200 and 250 milliseconds. The deadline fires after the fourth attempt; the
  clamped sleep is the one that leads to it.
\<close>

theorem cancel_by_timeout_makes_four_attempts:
  "\<exists>r w x'. cancel_by_timeout system = Inr r
     \<and> run dbg (on_virtual_clock r) (virtual_world y) = Some (Inr
         ((Err (Error_Exhausted (Err ''service unavailable'')),
           \<lparr>rs_attempts = 4, rs_total_elapsed = from_millis 250, rs_total_wait = from_millis 250,
            rs_stop_reason = Exhausted\<rparr>), w), x')
     \<and> vc_waits x' = [from_millis 100, from_millis 100, from_millis 50]"
proof -
  obtain r where r: "cancel_by_timeout system = Inr r"
      "rt_op r = StatelessOp (State_Monad.return (Err ''service unavailable''))"
      "rt_hooks r = execution_hooks_new" "rt_classifier r = default_decide classify_result"
      "rt_stop r = StopAfterAttempts 100" "rt_wait r = WaitFixed (from_millis 100)"
      "rt_timeout r = Some (from_millis 250)"
    by (simp add: cancel_by_timeout_def example_defs)
  have plain: "plain_observers r classify_result"
    by (simp add: plain_observers_def r default_decide_def)
  have "follows_script r (\<lambda>_. Err ''service unavailable'') (\<lambda>_ _. True)"
    by (simp add: follows_script_def r execution_hooks_new_def)
  from virtual_schedule_run [OF plain this, where x = "virtual_world y" and n = 3 and dbg = dbg
      and ds = "[from_millis 100, from_millis 100, from_millis 50]"]
  show ?thesis
    by (auto simp: schedule_eval r stop_test_def word_le_nat_alt classify_result_def verdict_result_def
        result_stop_reason_def virtual_world_def)
qed

text \<open>
  The whole program, on the operating system's clock: what each \<open>match\<close> prints. The last arm of
  the second one, which calls \<open>unreachable!\<close>, is for variants that \<open>RetryError\<close> does not have.
\<close>

datatype cancel_line =
    Prints_success string
  | Prints_deadline "(string, string) result"
  | Prints_rejected "(string, (string, string) result) retry_error"
  | Prints_unit
  | Prints_cancelled service_error
  | Prints_exhausted "(unit, service_error) result"

definition deadline_line :: "(string, string) retry_result \<Rightarrow> cancel_line" where
  "deadline_line result =
     (case result of
        Ok val \<Rightarrow> Prints_success val
      | Err (Error_Exhausted final) \<Rightarrow> Prints_deadline final
      | Err e \<Rightarrow> Prints_rejected e)"

definition flag_line :: "(unit, service_error) retry_result \<Rightarrow> cancel_line" where
  "flag_line result =
     (case result of
        Ok val \<Rightarrow> Prints_unit
      | Err (Error_Aborted final) \<Rightarrow> Prints_cancelled final
      | Err (Error_Exhausted final) \<Rightarrow> Prints_exhausted final)"

definition call_system ::
    "bool \<Rightarrow> ('y os_world_scheme \<Rightarrow> nat) \<Rightarrow> ('y os_world_scheme \<Rightarrow> nat) \<Rightarrow>
     panic + ('y, 'o, 'r, 'a) sync_retry \<Rightarrow> 'y os_world_scheme \<Rightarrow>
     ((panic + ('r, ('a, 'o) retry_error) result) \<times> 'y os_world_scheme) option" where
  "call_system dbg pass late b x =
     (case b of Inl p \<Rightarrow> Some (Inl p, x) | Inr r \<Rightarrow> call dbg (on_system_clock pass late r) x)"

definition sync_cancel_main ::
    "bool \<Rightarrow> cancel_world sync_clock \<Rightarrow> (cancel_world os_world_scheme \<Rightarrow> nat) \<Rightarrow>
     (cancel_world os_world_scheme \<Rightarrow> nat) \<Rightarrow> cancel_world os_world_scheme \<Rightarrow>
     ((panic + cancel_line list) \<times> cancel_world os_world_scheme) option" where
  "sync_cancel_main dbg system pass late x =
     (case call_system dbg pass late (cancel_by_timeout system) x of
        None \<Rightarrow> None
      | Some (Inl p, x1) \<Rightarrow> Some (Inl p, x1)
      | Some (Inr result1, x1) \<Rightarrow>
          (case call_system dbg pass late (cancel_by_flag system) (os_world.more_update (\<lambda>_. cancel_start) x1) of
             None \<Rightarrow> None
           | Some (Inl p, x2) \<Rightarrow> Some (Inl p, x2)
           | Some (Inr result2, x2) \<Rightarrow> Some (Inr [deadline_line result1, flag_line result2], x2)))"

lemma cancel_by_timeout_on_system:
  "\<exists>x'. call_system dbg pass late (cancel_by_timeout system) x =
     Some (Inr (Err (Error_Exhausted (Err ''service unavailable''))), x')"
proof -
  obtain r where r: "cancel_by_timeout system = Inr r"
      "rt_op r = StatelessOp (State_Monad.return (Err ''service unavailable''))"
      "rt_classifier r = default_decide classify_result" "rt_stop r = StopAfterAttempts 100"
    by (simp add: cancel_by_timeout_def example_defs)
  let ?r = "on_system_clock pass late r"
  have "stop_limit (rt_stop ?r) = Some 100" by (simp add: on_system_clock_def set_clock_def r)
  from run_stop_limit [OF this, of dbg x] obtain res stats w x' where
    run: "run dbg ?r x = Some (Inr ((res, stats), w), x')" by blast
  obtain st y0 oc y1 where "oc = fst (run_state (call_op (rt_op ?r) st) y0)"
      "res = verdict_result (fst (run_state (rt_classifier ?r oc) y1))"
    using run_result_verdict [OF run] by blast
  then have "res = Err (Error_Exhausted (Err ''service unavailable''))"
    by (simp add: on_system_clock_def set_clock_def r default_decide_def classify_result_def verdict_result_def
        lift_state_def case_prod_beta)
  then show ?thesis using call_of_run [OF run] by (simp add: call_system_def r)
qed

lemma sync_cancel_prints:
  "\<exists>x'. sync_cancel_main dbg system pass late x =
     Some (Inr [Prints_deadline (Err ''service unavailable''), Prints_cancelled Cancelled], x')"
proof -
  obtain x1 where x1: "call_system dbg pass late (cancel_by_timeout system) x =
      Some (Inr (Err (Error_Exhausted (Err ''service unavailable''))), x1)"
    using cancel_by_timeout_on_system by blast
  have "os_world.more_update (\<lambda>_. cancel_start) x1 = \<lparr>os_anchor_age = os_anchor_age x1, \<dots> = cancel_start\<rparr>"
    by (cases x1) simp
  moreover obtain r x2 where "cancel_by_flag system = Inr r"
      "call dbg (on_system_clock pass late r) \<lparr>os_anchor_age = os_anchor_age x1, \<dots> = cancel_start\<rparr> =
         Some (Inr (Err (Error_Aborted Cancelled)), x2)"
    using cancel_flag_needs_selective_predicate [of system dbg pass late "os_anchor_age x1"] by blast
  ultimately have "call_system dbg pass late (cancel_by_flag system) (os_world.more_update (\<lambda>_. cancel_start) x1) =
      Some (Inr (Err (Error_Aborted Cancelled)), x2)"
    by (simp add: call_system_def)
  with x1 show ?thesis by (simp add: sync_cancel_main_def deadline_line_def flag_line_def)
qed

subsection \<open>All of them\<close>

text \<open>
  C37: run to their ends, the synchronous example programs pass all their assertions, in debug
  and in release builds, whatever the default clock of their builders is; the cancellation example,
  which asserts nothing, says on the operating system's clock, however late it is, that the
  deadline was exceeded and that the flag cancelled the retry.
\<close>

theorem example_programs_pass:
  "passed (custom_outcome_main dbg c1) \<and> passed (polling_main dbg c2) \<and> passed (basic_retry_main dbg c3)
   \<and> passed (hooks_and_stats_main dbg c4) \<and> passed (virtual_clock_main dbg)
   \<and> (\<exists>x'. sync_cancel_main dbg c6 pass late x =
        Some (Inr [Prints_deadline (Err ''service unavailable''), Prints_cancelled Cancelled], x'))"
  by (intro conjI sync_cancel_prints custom_outcome_main_passes polling_main_passes basic_retry_main_passes
      hooks_and_stats_main_passes virtual_clock_main_passes)

end
