(* ===== verification/Examples_Async.thy ===== *)
theory Examples_Async
  imports Examples Async_Cancel
begin

text \<open>
  The asynchronous example \<open>src/examples/async-polling.rs\<close> over any runtime: Tokio's clock is a
  parameter with what the program relies on, that sleeps complete and leave the captured cell
  alone. The result is carried over from the blocking engine.
\<close>

subsection \<open>\<open>async-polling.rs\<close>\<close>

text \<open>The captured cell \<open>checks_remaining\<close> is read with \<open>get\<close> and written with \<open>put\<close>.\<close>

definition check_deploy_status ::
    "('x \<Rightarrow> u32) \<Rightarrow> (u32 \<Rightarrow> 'x \<Rightarrow> 'x) \<Rightarrow> ('x, ('x, (string, string) result) future) state" where
  "check_deploy_status get put = State (\<lambda>x.
     if 0 < get x then (ready_future (Ok ''deploying''), put (get x - 1) x)
     else (ready_future (Ok ''ready''), x))"

type_synonym 'x deploy_policy =
  "('x stop_strategy, 'x wait_strategy, ('x, (string, string) result, string, string) classifier) retry_policy"

definition deploy_policy :: "panic + 'x deploy_policy" where
  "deploy_policy =
     unwind (policy_new classify_result) (\<lambda>p :: 'x deploy_policy. unwind (attempts 10) (\<lambda>stop.
       Inr (policy_until (policy_wait (policy_stop p stop) (fixed (from_millis 25)))
              (ok (\<lambda>status. State_Monad.return (status = ''ready''))))))"

definition async_polling ::
    "'cl \<Rightarrow> 'x async_clock \<Rightarrow> ('x \<Rightarrow> u32) \<Rightarrow> (u32 \<Rightarrow> 'x \<Rightarrow> 'x) \<Rightarrow>
     panic + ('x, (string, string) result, string, string) filled_async_retry" where
  "async_polling system tokio get put =
     unwind deploy_policy (\<lambda>p.
       Inr (async_set_clock (policy_retry_async system p (\<lambda>_. check_deploy_status get put)) tokio))"

definition deploy_verdict :: "(string, string) result \<Rightarrow> (string, string, (string, string) result) verdict" where
  "deploy_verdict oc = (case oc of Ok s \<Rightarrow> (if s = ''ready'' then Return s else Retry oc) | Err e \<Rightarrow> Retry oc)"

lemma async_polling_parts:
  obtains a where "async_polling system tokio get put = Inr a" and "ac_op a = OpFn (\<lambda>_. check_deploy_status get put)"
    and "ac_clock a = tokio" and "ac_stop a = StopRef (StopAfterAttempts 10)"
    and "ac_wait a = WaitRef (WaitFixed (from_millis 25))" and "ac_timeout a = None"
    and "ac_hooks a = execution_hooks_new"
    and "ac_classifier a = until_decide (ok (\<lambda>status. State_Monad.return (status = ''ready'')))"
  by (rule that, unfold async_polling_def deploy_policy_def constructors_total unwind_simps,
      simp add: attempts_Inr)
    (simp_all add: policy_until_def policy_wait_def policy_stop_def
      policy_retry_async_def async_builder_defs fixed_def)

lemma check_deploy_status_turn:
  assumes lens: "\<And>y x. get (put y x) = y" and "unat (get x) = unat k - (n - 1)" and "1 \<le> n"
  shows "run_state (blocking idle (check_deploy_status get put)) x =
      (Ok (if n \<le> unat k then ''deploying'' else ''ready''), if 0 < get x then put (get x - 1) x else x)"
    and "unat (get (if 0 < get x then put (get x - 1) x else x)) = unat k - n"
  using assms
  by (auto simp: blocking_def check_deploy_status_def word_less_nat_alt unat_sub_if')

text \<open>
  C38: the async polling example on any runtime whose clock and sleeps leave the cell alone and
  whose sleeps complete: driven to completion it returns \<open>ready\<close> if at most nine checks say
  otherwise, and else is exhausted with the last \<open>deploying\<close>, an \<open>Ok\<close> value, after ten.
\<close>

theorem async_polling_until_ready:
  assumes lens: "\<And>y x. get (put y x) = y"
    and sleeps: "\<forall>d. completes idle (ck_wait_async tokio d)"
    and quiet: "\<forall>x. get (snd (run_state (ck_now tokio) x)) = get x"
      "\<forall>d x. get (snd (run_state (blocking idle (ck_wait_async tokio d)) x)) = get x"
    and start: "get x = k"
  shows "\<exists>a stats this' x'. async_polling system tokio get put = Inr a
    \<and> async_block_on dbg idle (into_run a) x = Some ((Inr
        (if k \<le> 9 then Ok ''ready'' else Err (Error_Exhausted (Ok ''deploying'')), stats), this'), x')
    \<and> unat (rs_attempts stats) = min (Suc (unat k)) 10"
proof -
  obtain a where a: "async_polling system tokio get put = Inr a" "ac_op a = OpFn (\<lambda>_. check_deploy_status get put)"
      "ac_clock a = tokio" "ac_stop a = StopRef (StopAfterAttempts 10)"
      "ac_wait a = WaitRef (WaitFixed (from_millis 25))" "ac_timeout a = None"
      "ac_hooks a = execution_hooks_new"
      "ac_classifier a = until_decide (ok (\<lambda>status. State_Monad.return (status = ''ready'')))"
    by (rule async_polling_parts)
  let ?f = "\<lambda>n. Ok (if n \<le> unat k then ''deploying'' else ''ready'') :: (string, string) result"
  let ?page = "\<lambda>n x. 1 \<le> n \<and> unat (get x) = unat k - (n - 1)"
  have "quiet_script (blocking_retry idle a) deploy_verdict (\<lambda>st. 10 \<le> st_attempt st) (\<lambda>_. from_millis 25)
      ?f ?page ?page (\<lambda>n. ?page (Suc n)) (\<lambda>_ _. True)"
  proof unfold_locales
    show "\<exists>x'. run_state (call_op (rt_op (blocking_retry idle a)) st) x = (?f n, x')
        \<and> (1 \<le> Suc n \<and> unat (get x') = unat k - (Suc n - 1)) \<and> True"
      if "1 \<le> n \<and> unat (get x) = unat k - (n - 1)" for n x st
      using that check_deploy_status_turn [where get = get and put = put and n = n and x = x and k = k, OF lens]
      by (simp add: a)
  qed (auto simp: a until_decide_def ok_def deploy_verdict_def reflp_def transp_def execution_hooks_new_def
      sleep_world_def quiet prod_eq_iff split: result.split)
  from quiet_script.run_script_spec [OF this, of 10 x dbg] obtain stats w x' where
    run: "run dbg (blocking_retry idle a) x = Some (Inr ((fst (spec_run 10 (deploy_verdict \<circ> ?f)), stats), w), x')"
    and n: "unat (rs_attempts stats) = snd (spec_run 10 (deploy_verdict \<circ> ?f))"
    by (auto simp: a start)
  have "spec_run 10 (deploy_verdict \<circ> ?f) =
      (verdict_result (deploy_verdict (?f (min (Suc (unat k)) 10))), min (Suc (unat k)) 10)"
    by (subst spec_run_eq [of "min (Suc (unat k)) 10"]) (auto simp: deploy_verdict_def)
  moreover have "\<forall>st. completes idle (call_op (ac_op a) st)" "\<forall>d. completes idle (ck_wait_async (ac_clock a) d)"
    using sleeps by (simp_all add: a completes_def check_deploy_status_def)
  note async_parity [OF this, of dbg x]
  ultimately show ?thesis
    using run n a(1)
    by (auto simp: deploy_verdict_def verdict_result_def word_le_nat_alt split: if_splits)
qed

theorem async_polling_until_ready_witness:
  "\<exists>a stats this' x'. async_polling () virtual_async_clock virtual_clock.more put_virtual = Inr a
    \<and> async_block_on True (State_Monad.return ()) (into_run a) (virtual_world 3) =
        Some ((Inr (Ok ''ready'', stats), this'), x')
    \<and> unat (rs_attempts stats) = 4"
proof -
  have sleep: "run_state (blocking (State_Monad.return ()) (virtual_wait_async d)) x = ((), record_wait d x)"
    for d and x :: "u32 virtual_clock_scheme"
    by (simp add: blocking_def virtual_wait_async_def block_on_virtual_wait)
  have "\<forall>d. completes (State_Monad.return ()) (ck_wait_async (virtual_async_clock :: u32 virtual_clock_scheme async_clock) d)"
    by (simp add: completes_def virtual_wait_async_def block_on_virtual_wait)
  from async_polling_until_ready [where get = virtual_clock.more and put = put_virtual and k = 3, OF _ this,
      of "virtual_world 3" "()" True]
  show ?thesis by (simp add: put_virtual_def sleep virtual_world_def)
qed

end
