(* ===== verification/Async_Call.thy ===== *)
theory Async_Call
  imports Virtual_Async
begin

text \<open>
  The future of \<open>AsyncRetry::call\<close>, \<open>DropStats\<close> in \<open>src/src/engine/async_engine.rs\<close>, under the
  executor of the tests: whatever polls a future until it is ready sees of it what it would
  see of the engine's own future, without the statistics.
\<close>

text \<open>The executor on any state machine that can be polled.\<close>

partial_function (option) drive ::
    "('i \<Rightarrow> 'x \<Rightarrow> (((panic + 'u poll) \<times> 'i) \<times> 'x) option) \<Rightarrow> ('x, unit) state \<Rightarrow> 'i \<Rightarrow> 'x \<Rightarrow>
     (((panic + 'u) \<times> 'i) \<times> 'x) option" where
  "drive poll_it idle i x =
     (case poll_it i x of
        None \<Rightarrow> None
      | Some ((answer, i'), x') \<Rightarrow>
          (case answer of
             Inl p \<Rightarrow> Some ((Inl p, i'), x')
           | Inr v \<Rightarrow>
               (case v of
                  Pending \<Rightarrow> drive poll_it idle i' (snd (run_state idle x'))
                | Ready out \<Rightarrow> Some ((Inr out, i'), x'))))"

definition without_stats :: "((panic + 'u \<times> 's) \<times> 'i) \<times> 'x \<Rightarrow> ((panic + 'u) \<times> 'i drop_stats) \<times> 'x" where
  "without_stats q = (case q of ((answer, i), x) \<Rightarrow> ((map_sum id fst answer, DropStats i), x))"

lemma without_stats_simp: "without_stats ((answer, i), x) = ((map_sum id fst answer, DropStats i), x)"
  by (simp add: without_stats_def)

lemma async_poll_drop_stats:
  "drop_stats_poll (async_poll dbg) (DropStats this) x =
     map_option (\<lambda>((answer, this'), x'). ((map_sum id (\<lambda>p. case p of Pending \<Rightarrow> Pending
         | Ready out \<Rightarrow> Ready (fst out)) answer, DropStats this'), x')) (async_poll dbg this x)"
  by (auto simp: drop_stats_poll_def split: option.split sum.split poll.split prod.split)

lemma drive_of_async:
  assumes "async_block_on dbg idle this x = Some q"
  shows "drive (drop_stats_poll (async_poll dbg)) idle (DropStats this) x = Some (without_stats q)"
proof (rule async_block_on.raw_induct
    [where P = "\<lambda>dbg idle this x q. drive (drop_stats_poll (async_poll dbg)) idle (DropStats this) x =
       Some (without_stats q)"
      and xa = "(((dbg, idle), this), x)" and y = q, unfolded prod.case, OF _ assms], goal_cases)
  case (1 again dbg idle this x q)
  obtain r j y where "q = ((r, j), y)" by (metis surj_pair)
  with 1 show ?case
    by (subst drive.simps)
      (auto simp: async_poll_drop_stats without_stats_simp split: option.splits sum.splits poll.splits)
qed

lemma async_of_drive:
  assumes "drive p idle i x = Some q"
  shows "p = drop_stats_poll (async_poll dbg) \<longrightarrow> (\<exists>q'. async_block_on dbg idle (ds_inner i) x = Some q')"
proof (rule drive.raw_induct
    [where P = "\<lambda>p idle i x q. p = drop_stats_poll (async_poll dbg) \<longrightarrow>
       (\<exists>q'. async_block_on dbg idle (ds_inner i) x = Some q')"
      and xa = "(((p, idle), i), x)" and y = q, unfolded prod.case, OF _ assms], intro impI, goal_cases)
  case (1 again p idle i x q)
  note IH = 1(1) and eq = 1(2) and p = 1(3)
  have again: "\<exists>q'. async_block_on dbg idle this x = Some q'" if "again p idle (DropStats this) x = Some q" for this x q
    using IH [OF that] p by simp
  show ?case
    using eq
    by (subst async_block_on.simps)
      (cases i; auto simp: p async_poll_drop_stats simp del: split_paired_Ex split: option.splits sum.splits poll.splits
        dest: again [unfolded p])
qed

lemma async_call_answers:
  "drive (drop_stats_poll (async_poll dbg)) idle (async_call a) x =
     map_option (\<lambda>((answer, this'), x'). ((map_sum id fst answer, DropStats this'), x'))
       (async_block_on dbg idle (async_call_with_stats (async_with_stats a)) x)"
proof (cases "async_block_on dbg idle (into_run a) x")
  case (Some q)
  then show ?thesis
    using drive_of_async [OF Some]
    by (simp add: async_call_def async_call_with_stats_def async_with_stats_def without_stats_def
        case_prod_beta)
next
  case None
  then have "drive (drop_stats_poll (async_poll dbg)) idle (DropStats (into_run a)) x = None"
    using async_of_drive [of "drop_stats_poll (async_poll dbg)" idle "DropStats (into_run a)" x _ dbg]
    by (cases "drive (drop_stats_poll (async_poll dbg)) idle (DropStats (into_run a)) x") auto
  with None show ?thesis
    by (simp add: async_call_def async_call_with_stats_def async_with_stats_def)
qed

text \<open>
  C23: what \<open>call()\<close> returns is what \<open>with_stats().call()\<close> returns without the statistics, with
  the same world and after the same polls; one returns exactly if the other does.
\<close>

theorem async_call_drops_only_the_stats:
  "drive (drop_stats_poll (async_poll dbg)) idle (async_call a) x =
     map_option (\<lambda>((answer, this'), x'). ((map_sum id fst answer, DropStats this'), x'))
       (async_block_on dbg idle (async_call_with_stats (async_with_stats a)) x)"
  by (rule async_call_answers)

end
