(* ===== verification/Examples_Cancel.thy ===== *)
theory Examples_Cancel
  imports Examples_Async Async_Race Async_Call
begin

text \<open>
  \<open>src/examples/async-cancel.rs\<close>: one retry raced three times against a deadline of 120 ms. Tokio
  (its clock, sleep, \<open>timeout\<close>, \<open>select!\<close>, tasks, tokens and channels) is a record of operations;
  what the program relies on is that the value a race returns is the one its future gave.
\<close>

subsection \<open>\<open>async-cancel.rs\<close>\<close>

text \<open>Decimal digits, as \<open>format!\<close> writes a \<open>u32\<close>.\<close>

fun decimal :: "nat \<Rightarrow> string" where
  "decimal n = (if n < 10 then [char_of (48 + n)] else decimal (n div 10) @ [char_of (48 + n mod 10)])"

declare decimal.simps [simp del]

text \<open>
  The \<open>async fn\<close> and the \<open>async\<close> blocks of the spawned tasks sleep and then do something. They do
  nothing until they are polled; then they make the sleep and poll it until it is done. Once ready
  they are not polled again.
\<close>

datatype 'x call_phase = Call_start | Call_sleep "('x, unit) future"

definition sleep_then_poll ::
    "(duration \<Rightarrow> ('x, ('x, unit) future) state) \<Rightarrow> duration \<Rightarrow> ('x, 'a) state \<Rightarrow> 'x call_phase \<Rightarrow>
     ('x, 'a poll \<times> 'x call_phase) state" where
  "sleep_then_poll tokio_sleep dur m ph = do {
     sleep \<leftarrow> (case ph of Call_start \<Rightarrow> tokio_sleep dur | Call_sleep fut \<Rightarrow> State_Monad.return fut);
     (p, sleep') \<leftarrow> fut_poll sleep;
     case p of
       Pending \<Rightarrow> State_Monad.return (Pending, Call_sleep sleep')
     | Ready _ \<Rightarrow> do { v \<leftarrow> m; State_Monad.return (Ready v, Call_sleep sleep') } }"

definition sleep_then ::
    "(duration \<Rightarrow> ('x, ('x, unit) future) state) \<Rightarrow> duration \<Rightarrow> ('x, 'a) state \<Rightarrow> ('x, 'a) future" where
  "sleep_then tokio_sleep dur m = future_of (sleep_then_poll tokio_sleep dur m) Call_start"

definition flaky_network_call ::
    "(duration \<Rightarrow> ('x, ('x, unit) future) state) \<Rightarrow> u32 \<Rightarrow> ('x, (string, string) result) future" where
  "flaky_network_call tokio_sleep attempt =
     sleep_then tokio_sleep (from_millis 40)
       (State_Monad.return (Err (''attempt '' @ decimal (unat attempt) @ '': connection refused'')))"

text \<open>The retry that all three patterns race.\<close>

definition cancelled_retry ::
    "'cl \<Rightarrow> 'x async_clock \<Rightarrow> (duration \<Rightarrow> ('x, ('x, unit) future) state) \<Rightarrow>
     panic + ('x, (string, string) result, string, string) filled_async_retry" where
  "cancelled_retry system tokio tokio_sleep =
     unwind (retry_async system classify_result
       (\<lambda>st. State_Monad.return (flaky_network_call tokio_sleep (st_attempt st)))) (\<lambda>r.
     unwind (attempts 10) (\<lambda>stop.
       Inr (async_set_clock (async_set_wait (async_set_stop r stop) (fixed (from_millis 50))) tokio)))"

abbreviation refused :: "u32 \<Rightarrow> (string, string) result" where
  "refused a \<equiv> Err (''attempt '' @ decimal (unat a) @ '': connection refused'')"

lemma block_on_call_sleep:
  fixes fut :: "('x, unit) future"
  assumes "block_on idle fut x = Some (u, x')"
  shows "block_on idle (future_of (sleep_then_poll tokio_sleep dur (State_Monad.return v)) (Call_sleep fut)) x =
    Some (v, x')"
proof -
  let ?h = "\<lambda>fut. future_of (sleep_then_poll tokio_sleep dur (State_Monad.return v)) (Call_sleep fut)"
  have "rel_option (\<lambda>(w, y) (u, z). w = v \<and> y = z)
      (rust_loop (loop_body (block_on_body idle)) (?h fut, x)) (rust_loop (loop_body (block_on_body idle)) (fut, x))"
  proof (rule rust_loop_lockstep [where R = "\<lambda>(f', y) (f, z). f' = ?h f \<and> y = z"])
    fix s and t :: "('x, unit) future \<times> 'x"
    assume R: "(\<lambda>(f', y) (f, z). f' = ?h f \<and> y = z) s t"
    obtain f y where st: "s = (?h f, y)" "t = (f, y)" using R by fastforce
    obtain p f2 y2 where f: "run_state (fut_poll f) y = ((p, f2), y2)" by (metis surj_pair)
    show "rel_sum (\<lambda>(f', y) (f, z). f' = ?h f \<and> y = z) (\<lambda>(w, y) (u, z). w = v \<and> y = z)
        (loop_body (block_on_body idle) s) (loop_body (block_on_body idle) t)"
      by (cases p) (simp_all add: st loop_body_def block_on_body_def run_future_of sleep_then_poll_def f split: prod.split)
  qed simp
  then show ?thesis
    using assms by (auto simp: block_on_def state_loop_def option_rel_Some2)
qed

text \<open>The first poll makes the sleep.\<close>

lemma sleep_then_blocks:
  assumes "\<forall>d. completes idle (tokio_sleep d)"
  shows "\<exists>x'. block_on idle (sleep_then tokio_sleep dur (State_Monad.return v)) x = Some (v, x')"
proof -
  obtain sleep x1 where m: "run_state (tokio_sleep dur) x = (sleep, x1)" by fastforce
  let ?h = "\<lambda>ph. future_of (sleep_then_poll tokio_sleep dur (State_Monad.return v)) ph"
  have "run_state (fut_poll (?h Call_start)) x = run_state (fut_poll (?h (Call_sleep sleep))) x1"
    by (simp add: run_future_of sleep_then_poll_def m)
  then have "loop_body (block_on_body idle) (?h Call_start, x) =
      loop_body (block_on_body idle) (?h (Call_sleep sleep), x1)"
    by (simp add: loop_body_def block_on_body_def)
  then have "block_on idle (?h Call_start) x = block_on idle (?h (Call_sleep sleep)) x1"
    by (simp add: block_on_def state_loop_def rust_loop.simps)
  moreover obtain u x2 where "block_on idle sleep x1 = Some (u, x2)"
    using assms m by (auto simp: completes_def dest!: spec [of _ dur] spec [of _ x])
  ultimately show ?thesis
    by (auto simp: sleep_then_def dest!: block_on_call_sleep [where tokio_sleep = tokio_sleep and dur = dur and v = v])
qed

lemma flaky_network_call_blocks:
  "\<forall>d. completes idle (tokio_sleep d) \<Longrightarrow> \<exists>x'. block_on idle (flaky_network_call tokio_sleep a) x = Some (refused a, x')"
  unfolding flaky_network_call_def by (rule sleep_then_blocks)

text \<open>
  Left alone, the retry of the cancellation example makes ten attempts and fails with the
  message of the tenth; raced, it is dropped or that is its answer.
\<close>

lemma cancelled_retry_left_alone:
  assumes "\<forall>d. completes idle (tokio_sleep d)" and "\<forall>d. completes idle (ck_wait_async tokio d)"
  shows "\<exists>a stats this' x'. cancelled_retry system tokio tokio_sleep = Inr a
    \<and> async_block_on dbg idle (into_run a) x = Some ((Inr (Err (Error_Exhausted
        (Err ''attempt 10: connection refused'')), stats), this'), x')
    \<and> unat (rs_attempts stats) = 10"
proof -
  obtain a where a: "cancelled_retry system tokio tokio_sleep = Inr a"
      "ac_op a = OpFn (\<lambda>st. State_Monad.return (flaky_network_call tokio_sleep (st_attempt st)))"
      "ac_clock a = tokio" "ac_stop a = StopAfterAttempts 10" "ac_timeout a = None"
      "ac_classifier a = default_decide classify_result"
    by (simp add: cancelled_retry_def example_defs async_builder_defs)
  have call: "\<forall>st. completes idle (call_op (ac_op a) st)"
  proof (simp only: completes_def a call_op.simps, intro allI)
    fix st y
    show "block_on idle (fst (run_state (State_Monad.return (flaky_network_call tokio_sleep (st_attempt st))) y))
        (snd (run_state (State_Monad.return (flaky_network_call tokio_sleep (st_attempt st))) y)) \<noteq> None"
      using flaky_network_call_blocks [OF assms(1), of "st_attempt st" y] by auto
  qed
  let ?f = "\<lambda>n. refused (of_nat n)"
  have "fst (run_state (call_op (rt_op (blocking_retry idle a)) st) y) = ?f (unat (st_attempt st))" for st y
    using flaky_network_call_blocks [OF assms(1), of "st_attempt st" y]
    by (auto simp: a blocking_def)
  then obtain stats w x' where
    run: "run dbg (blocking_retry idle a) x = Some (Inr ((fst (spec_run 10 (classify_result \<circ> ?f)), stats), w), x')"
      "unat (rs_attempts stats) = snd (spec_run 10 (classify_result \<circ> ?f))"
    using run_meets_spec [of "blocking_retry idle a" 10 ?f classify_result dbg x]
    by (auto simp: a default_decide_def)
  have digits: "decimal 10 = ''10''"
    by (simp add: decimal.simps [of 10] decimal.simps [of "Suc 0"] char_of_def bit_0)
  have "spec_run 10 (classify_result \<circ> ?f) = (Err (Error_Exhausted (Err ''attempt 10: connection refused'')), 10)"
    by (subst spec_run_eq [of 10])
      (simp_all add: classify_result_def verdict_result_def digits)
  then show ?thesis
    using run async_parity [OF call, of dbg x] assms(2) a(1) by (auto simp: a(3))
qed

subsection \<open>The three races\<close>

type_synonym 'x call_future = "('x, (string, string) result, string, string) async_run drop_stats"

type_synonym 'x call_race = "'x \<Rightarrow> ((panic + (string, string) retry_result option) \<times> 'x) option"

text \<open>
  What the program uses of Tokio, with \<open>'k\<close> the type of a token and \<open>'t\<close>, \<open>'q\<close> those of the two
  ends of a channel. A race awaited to its end gives the answer of the retry, or \<^const>\<open>None\<close> when
  the timer or the other branch was first.
\<close>

record ('x, 'k, 't, 'q) tokio =
  tk_clock :: "'x async_clock"
  tk_sleep :: "duration \<Rightarrow> ('x, ('x, unit) future) state"
  tk_timeout :: "duration \<Rightarrow> 'x call_future \<Rightarrow> 'x call_race"
  tk_select :: "'x call_future \<Rightarrow> ('x, unit) future \<Rightarrow> 'x call_race"
  tk_spawn :: "('x, unit) future \<Rightarrow> ('x, unit) state"
  tk_token_new :: "('x, 'k) state"
  tk_token_clone :: "'k \<Rightarrow> ('x, 'k) state"
  tk_cancel :: "'k \<Rightarrow> ('x, unit) state"
  tk_cancelled :: "'k \<Rightarrow> ('x, unit) future"
  tk_channel :: "('x, 't \<times> 'q) state"
  tk_send :: "'t \<Rightarrow> ('x, unit) state"
  tk_recv :: "'q \<Rightarrow> ('x, unit) future"

text \<open>
  The line each \<open>match\<close> and each branch prints; the first pattern tells the two errors apart, the
  others print \<open>retries exhausted\<close> for both.
\<close>

datatype printed =
    Says_success string
  | Says_exhausted "(string, string) result"
  | Says_rejected "(string, (string, string) result) retry_error"
  | Says_retries_exhausted "(string, (string, string) result) retry_error"
  | Says_cancelled

definition timeout_line :: "(string, string) retry_result option \<Rightarrow> printed" where
  "timeout_line result =
     (case result of
        Some (Ok val) \<Rightarrow> Says_success val
      | Some (Err (Error_Exhausted final)) \<Rightarrow> Says_exhausted final
      | Some (Err e) \<Rightarrow> Says_rejected e
      | None \<Rightarrow> Says_cancelled)"

definition select_line :: "(string, string) retry_result option \<Rightarrow> printed" where
  "select_line result =
     (case result of
        Some (Ok val) \<Rightarrow> Says_success val
      | Some (Err e) \<Rightarrow> Says_retries_exhausted e
      | None \<Rightarrow> Says_cancelled)"

text \<open>A race with the retry, which is built in place, and the line printed at its end.\<close>

definition raced ::
    "('x, 'k, 't, 'q) tokio \<Rightarrow> ('x call_future \<Rightarrow> 'x call_race) \<Rightarrow>
     ((string, string) retry_result option \<Rightarrow> printed) \<Rightarrow> 'x \<Rightarrow> ((panic + printed) \<times> 'x) option" where
  "raced tk race line x =
     (case cancelled_retry () (tk_clock tk) (tk_sleep tk) of
        Inl p \<Rightarrow> Some (Inl p, x)
      | Inr a \<Rightarrow> map_option (\<lambda>(out, x'). (map_sum id line out, x')) (race (async_call a) x))"

definition timeout_pattern :: "('x, 'k, 't, 'q) tokio \<Rightarrow> 'x \<Rightarrow> ((panic + printed) \<times> 'x) option" where
  "timeout_pattern tk x = raced tk (tk_timeout tk (from_millis 120)) timeout_line x"

definition token_pattern :: "('x, 'k, 't, 'q) tokio \<Rightarrow> 'x \<Rightarrow> ((panic + printed) \<times> 'x) option" where
  "token_pattern tk x =
     (let (token, x1) = run_state (tk_token_new tk) x;
          (token', x2) = run_state (tk_token_clone tk token) x1;
          (_, x3) = run_state (tk_spawn tk
            (sleep_then (tk_sleep tk) (from_millis 120) (tk_cancel tk token'))) x2
      in raced tk (\<lambda>fut. tk_select tk fut (tk_cancelled tk token)) select_line x3)"

definition channel_pattern :: "('x, 'k, 't, 'q) tokio \<Rightarrow> 'x \<Rightarrow> ((panic + printed) \<times> 'x) option" where
  "channel_pattern tk x =
     (let ((shutdown_tx, shutdown_rx), x1) = run_state (tk_channel tk) x;
          (_, x2) = run_state (tk_spawn tk
            (sleep_then (tk_sleep tk) (from_millis 120) (tk_send tk shutdown_tx))) x1
      in raced tk (\<lambda>fut. tk_select tk fut (tk_recv tk shutdown_rx)) select_line x2)"

text \<open>One after the other; a panic ends the program.\<close>

fun lines_of ::
    "('x \<Rightarrow> ((panic + 'l) \<times> 'x) option) list \<Rightarrow> 'x \<Rightarrow> ((panic + 'l list) \<times> 'x) option" where
  "lines_of [] x = Some (Inr [], x)"
| "lines_of (pattern # rest) x =
     (case pattern x of
        None \<Rightarrow> None
      | Some (Inl p, x') \<Rightarrow> Some (Inl p, x')
      | Some (Inr l, x') \<Rightarrow> map_option (\<lambda>(out, x''). (map_sum id ((#) l) out, x'')) (lines_of rest x'))"

definition async_cancel_main :: "('x, 'k, 't, 'q) tokio \<Rightarrow> 'x \<Rightarrow> ((panic + printed list) \<times> 'x) option" where
  "async_cancel_main tk = lines_of [timeout_pattern tk, token_pattern tk, channel_pattern tk]"

subsection \<open>What the program prints\<close>

lemma polled_drop_stats:
  "polled (drop_stats_poll p) (DropStats i) j \<Longrightarrow> polled p i (ds_inner j)"
proof (induction rule: polled.induct)
  case polled_here
  show ?case by (simp add: polled.polled_here)
next
  case (polled_again j x j' x')
  then have "\<exists>x'. p (ds_inner j) x = Some ((Inr Pending, ds_inner j'), x')"
    by (cases j) (auto simp: drop_stats_poll_def split: option.splits sum.splits poll.splits)
  with polled_again.IH show ?case by (blast intro: polled.polled_again)
qed

lemma flaky_network_call_answers: "answers_only (\<lambda>oc. oc = refused a) (flaky_network_call tokio_sleep a)"
  unfolding flaky_network_call_def sleep_then_def
  by (rule future_of_answers_only) (auto simp: sleep_then_poll_def split: poll.splits prod.splits)

lemma cancelled_retry_parts:
  obtains a where "cancelled_retry system tokio tokio_sleep = Inr a"
    and "ac_op a = OpFn (\<lambda>st. State_Monad.return (flaky_network_call tokio_sleep (st_attempt st)))"
    and "ac_clock a = tokio" and "ac_stop a = StopAfterAttempts 10" and "ac_wait a = fixed (from_millis 50)"
    and "ac_timeout a = None" and "ac_classifier a = default_decide classify_result"
    and "ac_hooks a = execution_hooks_new"
proof -
  obtain a where "cancelled_retry system tokio tokio_sleep = Inr a" and
    "a = async_set_clock (async_set_wait (async_set_stop (async_from_parts system
       (OpFn (\<lambda>st. State_Monad.return (flaky_network_call tokio_sleep (st_attempt st))))
       (default_decide classify_result) (StopAfterAttempts 3) (exponential (from_millis 100)) None)
       (StopAfterAttempts 10)) (fixed (from_millis 50))) tokio"
    by (simp add: cancelled_retry_def example_defs async_builder_defs)
  then show thesis by (intro that [of a]) (simp_all add: async_builder_defs)
qed

abbreviation last_refusal :: "(string, string) retry_result" where
  "last_refusal \<equiv> Err (Error_Exhausted (Err ''attempt 10: connection refused''))"

lemma decimal_10: "decimal 10 = ''10''"
  by (simp add: decimal.simps [of 10] decimal.simps [of "Suc 0"] char_of_def bit_0)

text \<open>Ready under any interference, the retry is exhausted after its tenth attempt.\<close>

lemma cancelled_retry_answer:
  assumes a: "cancelled_retry system tokio tokio_sleep = Inr a"
    and polled: "polled (drop_stats_poll (async_poll dbg)) (async_call a) j"
    and poll: "drop_stats_poll (async_poll dbg) j x = Some ((answer, j'), x')" and "answer \<noteq> Inr Pending"
  shows "answer = Inr (Ready last_refusal)"
proof -
  let ?P = "\<lambda>n oc. oc = refused n"
  obtain a' where a': "cancelled_retry system tokio tokio_sleep = Inr a'"
      "ac_op a' = OpFn (\<lambda>st. State_Monad.return (flaky_network_call tokio_sleep (st_attempt st)))"
      "ac_stop a' = StopAfterAttempts 10" "ac_timeout a' = None" "ac_classifier a' = default_decide classify_result"
    by (rule cancelled_retry_parts)
  have op: "op_answers (ac_op a) ?P"
    using a a' by (simp add: op_answers_def flaky_network_call_answers del: append_Cons)
  obtain inner this' where p: "async_poll dbg (ds_inner j) x = Some ((inner, this'), x')"
      and inner: "answer = map_sum id (\<lambda>p. case p of Pending \<Rightarrow> Pending | Ready out \<Rightarrow> Ready (fst out)) inner"
    using poll by (cases j) (auto simp: async_poll_drop_stats)
  then have "inner \<noteq> Inr Pending" using assms(4) by auto
  have "polled (async_poll dbg) (into_run a) (ds_inner j)"
    using polled_drop_stats polled by (simp add: async_call_def)
  from async_poll_open [OF op polled_open [OF op this] p] \<open>inner \<noteq> Inr Pending\<close>
  obtain res stats where r: "inner = Inr (Ready (res, stats))"
    and d: "decided (default_decide classify_result) (StopAfterAttempts 10 :: 'a stop_strategy) None ?P res stats"
    using a a' by (auto simp: decided_answer_def)
  let ?n = "rs_attempts stats"
  have "10 \<le> ?n" "res = Err (Error_Exhausted (refused ?n))"
    using d by (auto simp: decided_def default_decide_def classify_result_def verdict_result_def
        timed_out_def is_Retry_def)
  moreover have "\<not> 10 < ?n"
    using d by (auto simp: decided_def passed_over_def dest!: spec [of _ 10])
  ultimately have "res = last_refusal" by (simp add: decimal_10 antisym_conv3 not_less)
  then show ?thesis by (simp add: inner r)
qed

lemma raced_ends:
  assumes "lawful_race (drop_stats_poll (async_poll dbg)) race" and "raced tk race line x = Some (out, x')"
  shows "out = Inr (line None) \<or> out = Inr (line (Some last_refusal))"
proof -
  obtain a where a: "cancelled_retry () (tk_clock tk) (tk_sleep tk) = Inr a" by (rule cancelled_retry_parts)
  obtain end' where e: "race (async_call a) x = Some (end', x')" "out = map_sum id line end'"
    using assms(2) a by (auto simp: raced_def)
  have "end' = Inr None \<or> end' = Inr (Some last_refusal)"
    by (rule lawful_race.race_gives [OF assms(1) e(1)]) (rule cancelled_retry_answer [OF a])
  then show ?thesis using e(2) by auto
qed

lemma lines_of_each:
  assumes "lines_of ps x = Some (out, x')"
    and "list_all2 (\<lambda>p Q. \<forall>y l y'. p y = Some (l, y') \<longrightarrow> (\<exists>v. l = Inr v \<and> Q v)) ps Qs"
  shows "\<exists>ls. out = Inr ls \<and> list_all2 (\<lambda>Q l. Q l) Qs ls"
  using assms(2,1)
proof (induction ps Qs arbitrary: x out rule: list_all2_induct)
  case Nil
  then show ?case by simp
next
  case (Cons p ps Q Qs)
  then show ?case by (fastforce split: option.splits sum.splits)
qed

text \<open>
  C26: whatever the timers, tasks and signals of the runtime do, \<open>async-cancel.rs\<close> does not panic,
  and each of its three patterns, if it returns, was either cancelled or says that the retry is
  exhausted, with the error of the tenth attempt: the lines for a success and for a rejection are
  never printed. All that is used of \<open>timeout\<close> and \<open>select!\<close> is that the value they return is the
  future's.
\<close>

theorem async_cancel_prints:
  assumes "lawful_race (drop_stats_poll (async_poll dbg)) (tk_timeout tk (from_millis 120))"
    and "\<And>other. lawful_race (drop_stats_poll (async_poll dbg)) (\<lambda>fut. tk_select tk fut other)"
    and "async_cancel_main tk x = Some (out, x')"
  shows "\<exists>l1 l2 l3. out = Inr [l1, l2, l3]
    \<and> (l1 = Says_cancelled \<or> l1 = Says_exhausted (Err ''attempt 10: connection refused''))
    \<and> (\<forall>l \<in> {l2, l3}. l = Says_cancelled
         \<or> l = Says_retries_exhausted (Error_Exhausted (Err ''attempt 10: connection refused'')))"
proof -
  let ?exhausted = "\<lambda>l. l = Says_cancelled
    \<or> l = Says_retries_exhausted (Error_Exhausted (Err ''attempt 10: connection refused''))"
  have timeout: "out = Inr Says_cancelled \<or> out = Inr (Says_exhausted (Err ''attempt 10: connection refused''))"
    if "timeout_pattern tk y = Some (out, y')" for y out y'
    using raced_ends [OF assms(1) that [unfolded timeout_pattern_def]] by (simp add: timeout_line_def)
  have select: "out = Inr Says_cancelled
      \<or> out = Inr (Says_retries_exhausted (Error_Exhausted (Err ''attempt 10: connection refused'')))"
    if "raced tk (\<lambda>fut. tk_select tk fut other) select_line y = Some (out, y')" for other y out y'
    using raced_ends [OF assms(2) that] by (simp add: select_line_def)
  have "list_all2 (\<lambda>p Q. \<forall>y l y'. p y = Some (l, y') \<longrightarrow> (\<exists>v. l = Inr v \<and> Q v))
      [timeout_pattern tk, token_pattern tk, channel_pattern tk]
      [\<lambda>l. l = Says_cancelled \<or> l = Says_exhausted (Err ''attempt 10: connection refused''), ?exhausted, ?exhausted]"
    by (auto simp: token_pattern_def channel_pattern_def case_prod_beta Let_def dest!: timeout select)
  from lines_of_each [OF assms(3) [unfolded async_cancel_main_def] this]
  show ?thesis by (auto simp: list_all2_Cons1)
qed

subsection \<open>Under Tokio's timers\<close>

text \<open>
  What Tokio documents of its timers, over any world in which \<open>time\<close> reads the milliseconds that
  have passed: a sleep of \<open>d\<close> made now is never ready before \<open>d\<close> is over, is ready when it is polled
  from some deadline on that is at most \<open>late\<close> beyond that (the timer's granularity), and making or
  polling it takes no time.
\<close>

coinductive due :: "('x \<Rightarrow> nat) \<Rightarrow> nat \<Rightarrow> ('x, 'a) future \<Rightarrow> bool" for time m where
  dueI: "(\<And>x. \<exists>p fut' x'. run_state (fut_poll fut) x = ((p, fut'), x') \<and> time x' = time x
       \<and> (if time x < m then p = Pending else p \<noteq> Pending) \<and> (p = Pending \<longrightarrow> due time m fut')) \<Longrightarrow>
     due time m fut"

inductive_simps due_iff: "due time m fut"

lemma due_pending:
  assumes "due time m fut" and "time x < m"
  obtains fut' x' where "run_state (fut_poll fut) x = ((Pending, fut'), x')" "time x' = time x" "due time m fut'"
  using assms unfolding due_iff [of time m fut] by metis

lemma due_ready:
  assumes "due time m fut" and "m \<le> time x"
  obtains v fut' x' where "run_state (fut_poll fut) x = ((Ready v, fut'), x')" "time x' = time x"
  using assms unfolding due_iff [of time m fut] by (metis poll.exhaust not_le)

definition makes_sleeps :: "('x \<Rightarrow> nat) \<Rightarrow> nat \<Rightarrow> (duration \<Rightarrow> ('x, ('x, unit) future) state) \<Rightarrow> bool" where
  "makes_sleeps time late new_sleep \<longleftrightarrow>
     (\<forall>d x. \<exists>fut x' m. run_state (new_sleep d) x = (fut, x') \<and> time x' = time x
        \<and> time x + as_millis d \<le> m \<and> m \<le> time x + as_millis d + late \<and> due time m fut)"

lemma makes_sleepsE:
  assumes "makes_sleeps time late new_sleep"
  obtains fut x' m where "run_state (new_sleep d) x = (fut, x')" "time x' = time x"
    "time x + as_millis d \<le> m" "m \<le> time x + as_millis d + late" "due time m fut"
  using assms unfolding makes_sleeps_def by metis

definition takes_no_time :: "('x \<Rightarrow> nat) \<Rightarrow> ('x, 'a) state \<Rightarrow> bool" where
  "takes_no_time time m \<longleftrightarrow> (\<forall>x. time (snd (run_state m x)) = time x)"

lemma takes_no_timeD: "takes_no_time time m \<Longrightarrow> run_state m x = (v, x') \<Longrightarrow> time x' = time x"
  unfolding takes_no_time_def by (metis snd_conv)

text \<open>The machine in its \<open>k\<close>th attempt: in the call that ends, or in the sleep that ends, at \<open>m\<close>.\<close>

definition machine_of ::
    "'x async_clock \<Rightarrow> (duration \<Rightarrow> ('x, ('x, unit) future) state) \<Rightarrow> u32 \<Rightarrow>
     ('x, (string, string) result, string, string) async_run \<Rightarrow> bool" where
  "machine_of clock sleep k t \<longleftrightarrow>
     ar_op t = OpFn (\<lambda>st. State_Monad.return (flaky_network_call sleep (st_attempt st)))
     \<and> ar_classifier t = default_decide classify_result \<and> ar_stop t = StopAfterAttempts 10
     \<and> ar_wait t = fixed (from_millis 50) \<and> ar_timeout t = None \<and> ar_clock t = clock
     \<and> ar_hooks t = execution_hooks_new \<and> ar_origin t \<noteq> None \<and> ar_attempt t = k"

abbreviation call_poll :: "(duration \<Rightarrow> ('x, ('x, unit) future) state) \<Rightarrow> u32 \<Rightarrow> _" where
  "call_poll sleep k \<equiv> sleep_then_poll sleep (from_millis 40) (State_Monad.return (refused k))"

definition calling ::
    "('x \<Rightarrow> nat) \<Rightarrow> 'x async_clock \<Rightarrow> (duration \<Rightarrow> ('x, ('x, unit) future) state) \<Rightarrow> u32 \<Rightarrow> nat \<Rightarrow>
     ('x, (string, string) result, string, string) async_run \<Rightarrow> bool" where
  "calling time clock sleep k m t \<longleftrightarrow> machine_of clock sleep k t
     \<and> (\<exists>sf. due time m sf \<and> ar_phase t = Polling (future_of (call_poll sleep k) (Call_sleep sf)))"

definition resting ::
    "('x \<Rightarrow> nat) \<Rightarrow> 'x async_clock \<Rightarrow> (duration \<Rightarrow> ('x, ('x, unit) future) state) \<Rightarrow> u32 \<Rightarrow> nat \<Rightarrow>
     ('x, (string, string) result, string, string) async_run \<Rightarrow> bool" where
  "resting time clock sleep k m t \<longleftrightarrow> machine_of clock sleep k t
     \<and> (\<exists>sf. due time m sf \<and> ar_phase t = Sleeping sf)"

lemma call_sleep_pending:
  "run_state (fut_poll sf) x = ((Pending, sf'), x') \<Longrightarrow>
   run_state (fut_poll (future_of (sleep_then_poll sleep d after) (Call_sleep sf))) x =
     ((Pending, future_of (sleep_then_poll sleep d after) (Call_sleep sf')), x')"
  by (simp add: run_future_of sleep_then_poll_def)

lemma poll_pending_now:
  assumes "ar_origin t = Some origin" and "run_state (poll_body dbg origin t) n = (Inr (Inr Pending, t'), n')"
  shows "async_poll dbg t n = Some ((Inr Pending, t'), n')"
  using assms by (simp add: async_poll_def state_loop_exit)

lemma poll_next_turn:
  assumes "ar_origin t = Some origin" and "run_state (poll_body dbg origin t) n = (Inl t1, n1)"
    and "ar_origin t1 = Some origin"
  shows "async_poll dbg t n = async_poll dbg t1 n1"
  using assms by (simp add: async_poll_def state_loop_step)

lemma calling_waits:
  assumes "calling time clock sleep k m t" and "time x < m"
  shows "\<exists>t' x'. async_poll dbg t x = Some ((Inr Pending, t'), x') \<and> time x' = time x
    \<and> calling time clock sleep k m t'"
proof -
  from assms(1) obtain sf o' where sf: "due time m sf"
      "ar_phase t = Polling (future_of (call_poll sleep k) (Call_sleep sf))"
    and mach: "machine_of clock sleep k t" and o': "ar_origin t = Some o'"
    by (auto simp: calling_def machine_of_def)
  obtain sf' x' where p: "run_state (fut_poll sf) x = ((Pending, sf'), x')" "time x' = time x" "due time m sf'"
    using due_pending [OF sf(1) assms(2)] .
  have "async_poll dbg t x =
      Some ((Inr Pending, t\<lparr>ar_phase := Polling (future_of (call_poll sleep k) (Call_sleep sf'))\<rparr>), x')"
    using o' by (rule poll_pending_now) (simp add: poll_body_def sf(2) call_sleep_pending [OF p(1)])
  then show ?thesis using mach p by (auto simp: calling_def machine_of_def)
qed

lemma resting_waits:
  assumes "resting time clock sleep k m t" and "time x < m"
  shows "\<exists>t' x'. async_poll dbg t x = Some ((Inr Pending, t'), x') \<and> time x' = time x
    \<and> resting time clock sleep k m t'"
proof -
  from assms(1) obtain sf o' where sf: "due time m sf" "ar_phase t = Sleeping sf"
    and mach: "machine_of clock sleep k t" and o': "ar_origin t = Some o'"
    by (auto simp: resting_def machine_of_def)
  obtain sf' x' where p: "run_state (fut_poll sf) x = ((Pending, sf'), x')" "time x' = time x" "due time m sf'"
    using due_pending [OF sf(1) assms(2)] .
  have "async_poll dbg t x = Some ((Inr Pending, t\<lparr>ar_phase := Sleeping sf'\<rparr>), x')"
    using o' by (rule poll_pending_now) (simp add: poll_body_def sf(2) p(1))
  then show ?thesis using mach p by (auto simp: resting_def machine_of_def)
qed

lemma start_calls:
  assumes "machine_of clock sleep k t" and ph: "ar_phase t = ReadyToStart" and "k \<noteq> 0"
    and sleep: "makes_sleeps time late sleep" and now: "takes_no_time time (ck_now clock)"
  shows "\<exists>t' x' m. async_poll dbg t x = Some ((Inr Pending, t'), x') \<and> time x' = time x
    \<and> time x + 40 \<le> m \<and> m \<le> time x + 40 + late \<and> calling time clock sleep k m t'"
proof -
  from assms(1) obtain o' where mach: "machine_of clock sleep k t" and o': "ar_origin t = Some o'"
    by (auto simp: machine_of_def)
  obtain e x1 where e: "run_state (ck_now clock) x = (e, x1)" by fastforce
  have x1: "time x1 = time x" using takes_no_timeD [OF now e] .
  let ?t1 = "t\<lparr>ar_phase := Polling (future_of (call_poll sleep k) Call_start)\<rparr>"
  have b1: "run_state (poll_body dbg o' t) x = (Inl ?t1, x1)"
    using mach assms(3) e by (simp add: ph machine_of_def poll_body_def elapsed_since_def Let_def
        execution_hooks_new_def flaky_network_call_def sleep_then_def with_elapsed_def with_previous_delay_def)
  obtain sf x2 m where sf: "run_state (sleep (from_millis 40)) x1 = (sf, x2)" "time x2 = time x1"
      "time x1 + as_millis (from_millis 40) \<le> m" "m \<le> time x1 + as_millis (from_millis 40) + late" "due time m sf"
    using makes_sleepsE [OF sleep] .
  have ms: "as_millis (from_millis 40) = 40" by (simp add: dur_simps)
  have "time x2 < m" using sf(2,3) ms by simp
  from due_pending [OF sf(5) this] obtain sf' x3 where
    p: "run_state (fut_poll sf) x2 = ((Pending, sf'), x3)" "time x3 = time x2" "due time m sf'" .
  have "async_poll dbg ?t1 x1 =
      Some ((Inr Pending, t\<lparr>ar_phase := Polling (future_of (call_poll sleep k) (Call_sleep sf'))\<rparr>), x3)"
    using o' by (intro poll_pending_now) (simp_all add: poll_body_def run_future_of sleep_then_poll_def sf(1) p(1))
  then have "async_poll dbg t x =
      Some ((Inr Pending, t\<lparr>ar_phase := Polling (future_of (call_poll sleep k) (Call_sleep sf'))\<rparr>), x3)"
    using poll_next_turn [OF o' b1] o' by simp
  then show ?thesis using mach p x1 sf(2-4) ms by (auto simp: calling_def machine_of_def)
qed

text \<open>The call ends, the machine rests; the rest ends, the next call begins.\<close>

lemma call_ends:
  assumes t: "calling time clock sleep k m t" and "m \<le> time x" and k: "k \<noteq> 0" "k < 10"
    and clock: "makes_sleeps time late (ck_wait_async clock)" and now: "takes_no_time time (ck_now clock)"
  shows "\<exists>t' x' m'. async_poll dbg t x = Some ((Inr Pending, t'), x') \<and> time x' = time x
    \<and> time x + 50 \<le> m' \<and> m' \<le> time x + 50 + late \<and> resting time clock sleep k m' t'"
proof -
  let ?d = "from_millis 50"
  from t obtain sf o' where sf: "due time m sf"
      and ph: "ar_phase t = Polling (future_of (call_poll sleep k) (Call_sleep sf))"
    and mach: "machine_of clock sleep k t" and o': "ar_origin t = Some o'"
    by (auto simp: calling_def machine_of_def)
  obtain sf' x1 where "run_state (fut_poll sf) x = ((Ready (), sf'), x1)" and x1: "time x1 = time x"
    using due_ready [OF sf assms(2)] by (metis old.unit.exhaust)
  then have f: "run_state (fut_poll (future_of (call_poll sleep k) (Call_sleep sf))) x =
      ((Ready (refused k), future_of (call_poll sleep k) (Call_sleep sf')), x1)"
    by (simp add: run_future_of sleep_then_poll_def)
  obtain e x2 where e: "run_state (elapsed_since (ar_clock t) o') x1 = (e, x2)" by fastforce
  then have x2: "time x2 = time x1"
    using mach takes_no_timeD [OF now, of x1 _ x2] by (auto simp: machine_of_def elapsed_since_def split: prod.splits)
  let ?p = "\<lparr>pg_attempt = ar_attempt t, pg_elapsed = e, pg_previous_delay = ar_previous_delay t,
    pg_total_wait = ar_total_wait t\<rparr>"
  let ?w = "saturating_add (ar_total_wait t) ?d"
  have s: "run_state (step dbg ?p (refused k) (ar_classifier t) (ar_stop t) (ar_wait t) (ar_timeout t) (ar_hooks t)) x2 =
      (Inr (Continue ?d ?w, ar_wait t), x2)"
    using mach k by (simp add: run_step machine_of_def Let_def execution_hooks_new_def default_decide_def
        classify_result_def step_state_def timed_out_def clamp_delay_def fixed_def)
  obtain rest x3 m' where r: "run_state (ck_wait_async clock ?d) x2 = (rest, x3)" "time x3 = time x2"
      "time x2 + as_millis ?d \<le> m'" "m' \<le> time x2 + as_millis ?d + late" "due time m' rest"
    using makes_sleepsE [OF clock] .
  have ms: "as_millis ?d = 50" "?d \<noteq> duration_zero" by (simp_all add: dur_simps)
  let ?t1 = "t\<lparr>ar_wait := ar_wait t, ar_previous_delay := Some ?d, ar_total_wait := ?w, ar_phase := Sleeping rest\<rparr>"
  have b1: "run_state (poll_body dbg o' t) x = (Inl ?t1, x3)"
    using mach r(1) ms(2) by (simp add: poll_body_polling [OF ph f e s] machine_of_def)
  have "resting time clock sleep k m' ?t1" using mach r(5) by (simp add: resting_def machine_of_def)
  moreover have "time x3 < m'" using r(2,3) ms(1) by simp
  ultimately obtain t' x4 where "async_poll dbg ?t1 x3 = Some ((Inr Pending, t'), x4)" "time x4 = time x3"
      "resting time clock sleep k m' t'"
    using resting_waits [of time clock sleep k m' ?t1 x3 dbg] by blast
  then show ?thesis
    using poll_next_turn [OF o' b1] o' x1 x2 r(2-4) ms(1) by auto
qed

lemma rest_ends:
  assumes t: "resting time clock sleep k m t" and "m \<le> time x" and k: "k < 10"
    and sleep: "makes_sleeps time late sleep" and now: "takes_no_time time (ck_now clock)"
  shows "\<exists>t' x' m'. async_poll dbg t x = Some ((Inr Pending, t'), x') \<and> time x' = time x
    \<and> time x + 40 \<le> m' \<and> m' \<le> time x + 40 + late \<and> calling time clock sleep (k + 1) m' t'"
proof -
  from t obtain sf o' where sf: "due time m sf" "ar_phase t = Sleeping sf"
    and mach: "machine_of clock sleep k t" and o': "ar_origin t = Some o'"
    by (auto simp: resting_def machine_of_def)
  obtain u sf' x1 where p: "run_state (fut_poll sf) x = ((Ready u, sf'), x1)" "time x1 = time x"
    using due_ready [OF sf(1) assms(2)] .
  have k1: "u32_saturating_add k 1 = k + 1" "k + 1 \<noteq> 0"
    using k by (simp_all add: u32_saturating_add_def word_less_nat_alt word_unat_eq_iff unat_word_ariths)
  let ?t1 = "t\<lparr>ar_phase := ReadyToStart, ar_attempt := k + 1\<rparr>"
  have "run_state (poll_body dbg o' t) x = (Inl ?t1, x1)"
    using mach by (simp add: poll_body_def sf(2) p(1) machine_of_def k1)
  then have "async_poll dbg t x = async_poll dbg ?t1 x1" using o' by (intro poll_next_turn [OF o']) simp_all
  moreover have "machine_of clock sleep (k + 1) ?t1" using mach by (simp add: machine_of_def)
  ultimately show ?thesis
    using start_calls [OF _ _ k1(2) sleep now, of ?t1 dbg x1] p(2) by auto
qed

lemma first_poll_calls:
  assumes a: "cancelled_retry () clock sleep = Inr a"
    and sleep: "makes_sleeps time late sleep" and now: "takes_no_time time (ck_now clock)"
  shows "\<exists>t' x' m. async_poll dbg (into_run a) x = Some ((Inr Pending, t'), x') \<and> time x' = time x
    \<and> time x + 40 \<le> m \<and> m \<le> time x + 40 + late \<and> calling time clock sleep 1 m t'"
proof -
  obtain a' where "cancelled_retry () clock sleep = Inr a'"
      "ac_op a' = OpFn (\<lambda>st. State_Monad.return (flaky_network_call sleep (st_attempt st)))"
      "ac_clock a' = clock" "ac_stop a' = StopAfterAttempts 10" "ac_wait a' = fixed (from_millis 50)"
      "ac_timeout a' = None" "ac_classifier a' = default_decide classify_result"
      "ac_hooks a' = execution_hooks_new"
    by (rule cancelled_retry_parts)
  with a have m0: "machine_of clock sleep 1 ((into_run a)\<lparr>ar_origin := Some o'\<rparr>)" and clock: "ac_clock a = clock" for o'
    by (simp_all add: machine_of_def into_run_def)
  obtain o' x0 where o': "run_state (ck_now clock) x = (o', x0)" by fastforce
  have "async_poll dbg (into_run a) x = async_poll dbg ((into_run a)\<lparr>ar_origin := Some o'\<rparr>) x0"
    using o' clock by (simp add: async_poll_def into_run_def)
  then show ?thesis
    using start_calls [OF m0 _ _ sleep now, of o' dbg x0] takes_no_timeD [OF now o'] by (auto simp: into_run_def)
qed

subsection \<open>When the deadline falls\<close>

text \<open>
  Tokio polls the retry again once the sleep it is waiting for is over, at most \<open>lag\<close> later; it may
  poll it before, any number of times. A machine that was last polled at \<open>n\<close> and is not overdue at
  \<open>t\<close>, and the machines that such a sequence of polls, the first at \<open>s\<close> and the last at \<open>n\<close>, leads to.
\<close>

definition due_phase :: "('x \<Rightarrow> nat) \<Rightarrow> nat \<Rightarrow> ('x, 'o) phase \<Rightarrow> bool" where
  "due_phase time m ph \<longleftrightarrow>
     (case ph of Polling fut \<Rightarrow> due time m fut | Sleeping fut \<Rightarrow> due time m fut | _ \<Rightarrow> False)"

definition not_overdue :: "('x \<Rightarrow> nat) \<Rightarrow> nat \<Rightarrow> ('x, 'o, 'r, 'a) async_run \<Rightarrow> nat \<Rightarrow> nat \<Rightarrow> bool" where
  "not_overdue time lag j n t \<longleftrightarrow> n \<le> t \<and> (\<forall>m. due_phase time m (ar_phase j) \<longrightarrow> t \<le> max n m + lag)"

inductive driven ::
    "('x \<Rightarrow> nat) \<Rightarrow> nat \<Rightarrow> bool \<Rightarrow> ('x, 'o, 'r, 'a) async_run \<Rightarrow> nat \<Rightarrow> ('x, 'o, 'r, 'a) async_run \<Rightarrow> nat \<Rightarrow> bool"
    for time lag dbg i where
  driven_first: "async_poll dbg i x = Some ((Inr Pending, j), x') \<Longrightarrow> driven time lag dbg i (time x) j (time x)"
| driven_next: "driven time lag dbg i s j n \<Longrightarrow> not_overdue time lag j n (time x) \<Longrightarrow>
    async_poll dbg j x = Some ((Inr Pending, j'), x') \<Longrightarrow> driven time lag dbg i s j' (time x)"

lemma due_call:
  assumes "due time m sf"
  shows "due time m (future_of (sleep_then_poll sleep d (State_Monad.return v)) (Call_sleep sf))"
proof -
  let ?F = "\<lambda>sf. future_of (sleep_then_poll sleep d (State_Monad.return v)) (Call_sleep sf)"
  have poll: "\<exists>p fut' x'. run_state (fut_poll (?F sf)) x = ((p, fut'), x') \<and> time x' = time x
      \<and> (if time x < m then p = Pending else p \<noteq> Pending)
      \<and> (p = Pending \<longrightarrow> (\<exists>sf'. fut' = ?F sf' \<and> due time m sf'))" if "due time m sf" for sf x
  proof -
    from that obtain p sf' x' where "run_state (fut_poll sf) x = ((p, sf'), x')" "time x' = time x"
        "if time x < m then p = Pending else p \<noteq> Pending" "p = Pending \<longrightarrow> due time m sf'"
      unfolding due_iff [of time m sf] by metis
    then show ?thesis by (cases p) (auto simp: run_future_of sleep_then_poll_def split: if_splits)
  qed
  show ?thesis
    using assms
  proof (coinduction arbitrary: sf)
    case due
    then show ?case using poll by fastforce
  qed
qed

lemma calling_due: "calling time clock sleep k m t \<Longrightarrow> due_phase time m (ar_phase t)"
  by (auto simp: calling_def due_phase_def due_call)

lemma resting_due: "resting time clock sleep k m t \<Longrightarrow> due_phase time m (ar_phase t)"
  by (auto simp: resting_def due_phase_def)

text \<open>
  The first call ends 40 ms after the start, the rest after it 50 ms later, the second call not
  before 130 ms, each up to the timer's granularity and the runtime's lag.
\<close>

definition second_call_by ::
    "('x \<Rightarrow> nat) \<Rightarrow> 'x async_clock \<Rightarrow> (duration \<Rightarrow> ('x, ('x, unit) future) state) \<Rightarrow> nat \<Rightarrow> nat \<Rightarrow> nat \<Rightarrow>
     ('x, (string, string) result, string, string) async_run \<Rightarrow> nat \<Rightarrow> bool" where
  "second_call_by time clock sleep late lag s j n \<longleftrightarrow>
     (\<exists>m. calling time clock sleep 1 m j \<and> n < m \<and> s + 40 \<le> m \<and> m \<le> s + 40 + late)
     \<or> (\<exists>m. resting time clock sleep 1 m j \<and> n < m \<and> s + 90 \<le> m \<and> m \<le> s + 90 + 2 * late + lag)
     \<or> (\<exists>m. calling time clock sleep 2 m j \<and> n < m \<and> s + 130 \<le> m)
     \<or> s + 130 \<le> n"

lemma second_call_next:
  assumes I: "second_call_by time clock sleep late lag s j n" and "not_overdue time lag j n (time x)"
    and poll: "async_poll dbg j x = Some ((Inr Pending, j'), x')"
    and sleep: "makes_sleeps time late sleep" and clock: "makes_sleeps time late (ck_wait_async clock)"
    and now: "takes_no_time time (ck_now clock)"
  shows "second_call_by time clock sleep late lag s j' (time x)"
proof -
  have first: "(1 :: u32) < 10" by (simp add: word_less_nat_alt)
  have later: "n \<le> time x" and lag: "\<And>m. due_phase time m (ar_phase j) \<Longrightarrow> time x \<le> max n m + lag"
    using assms(2) by (auto simp: not_overdue_def)
  consider m where "calling time clock sleep 1 m j" "n < m" "s + 40 \<le> m" "m \<le> s + 40 + late"
    | m where "resting time clock sleep 1 m j" "n < m" "s + 90 \<le> m" "m \<le> s + 90 + 2 * late + lag"
    | m where "calling time clock sleep 2 m j" "n < m" "s + 130 \<le> m"
    | "s + 130 \<le> n"
    using I unfolding second_call_by_def by blast
  then show ?thesis
  proof cases
    case (1 m)
    have late: "time x \<le> m + lag" using lag [OF calling_due [OF 1(1)]] 1(2) by simp
    show ?thesis
    proof (cases "time x < m")
      case True
      then show ?thesis using calling_waits [OF 1(1) True, of dbg] poll 1(3,4) by (auto simp: second_call_by_def)
    next
      case False
      then obtain m' where "resting time clock sleep 1 m' j'" "time x + 50 \<le> m'" "m' \<le> time x + 50 + late"
        using call_ends [OF 1(1) _ _ first clock now, of x dbg] poll by auto
      moreover have "time x < m'" "s + 90 \<le> m'" "m' \<le> s + 90 + 2 * late + lag"
        using calculation(2,3) False late 1(3,4) by linarith+
      ultimately show ?thesis by (auto simp: second_call_by_def)
    qed
  next
    case (2 m)
    show ?thesis
    proof (cases "time x < m")
      case True
      then show ?thesis using resting_waits [OF 2(1) True, of dbg] poll 2(3,4) by (auto simp: second_call_by_def)
    next
      case False
      then obtain m' where "calling time clock sleep 2 m' j'" "time x + 40 \<le> m'"
        using rest_ends [OF 2(1) _ first sleep now, of x dbg] poll by auto
      then have "calling time clock sleep 2 m' j' \<and> time x < m' \<and> s + 130 \<le> m'" using False 2(3) by linarith
      then show ?thesis by (auto simp: second_call_by_def)
    qed
  next
    case (3 m)
    then show ?thesis
      using calling_waits [OF 3(1), of x dbg] poll by (cases "time x < m") (auto simp: second_call_by_def)
  next
    case 4
    then show ?thesis using later by (simp add: second_call_by_def)
  qed
qed

lemma driven_second_call:
  assumes a: "cancelled_retry () clock sleep = Inr a"
    and sleep: "makes_sleeps time late sleep" and clock: "makes_sleeps time late (ck_wait_async clock)"
    and now: "takes_no_time time (ck_now clock)" and "driven time lag dbg (into_run a) s j n"
  shows "second_call_by time clock sleep late lag s j n"
  using assms(5)
proof (induction rule: driven.induct)
  case (driven_first x j x')
  then show ?case
    using first_poll_calls [OF a sleep now, of dbg x] by (fastforce simp: second_call_by_def)
next
  case (driven_next s j n x j' x')
  then show ?case using second_call_next [OF _ _ _ sleep clock now] by blast
qed

text \<open>
  C27: the 120 ms deadline of \<open>async-cancel.rs\<close> does not fall into a sleep, as the comments of the
  example say, but into the second call. On any runtime whose sleeps last at least as long as asked
  for, with a granularity and a lag of the polls of together less than 15 ms, a retry that was
  started at \<open>s\<close> and is dropped between \<open>s + 120\<close> and \<open>s + 130\<close> is polling the operation's future in
  attempt two, however often it was polled until then. The code itself takes no time.
\<close>

theorem deadline_falls_into_second_call:
  assumes "cancelled_retry () (tokio_clock_impl instant_elapsed sleep c) sleep = Inr a"
    and "makes_sleeps time late sleep" and "\<And>i. takes_no_time time (instant_elapsed i)"
    and "driven time lag dbg (into_run a) s j n" and "not_overdue time lag j n t"
    and "late + lag < 15" and "s + 120 \<le> t" and "t < s + 130"
  shows "ar_attempt j = 2 \<and> (\<exists>call. ar_phase j = Polling call)"
proof -
  let ?c = "tokio_clock_impl instant_elapsed sleep c"
  have "second_call_by time ?c sleep late lag s j n"
    by (rule driven_second_call [OF assms(1,2) _ _ assms(4)])
      (use assms(2,3) in \<open>simp_all add: tokio_clock_impl_def\<close>)
  moreover have "n \<le> t" and lag: "\<And>m. due_phase time m (ar_phase j) \<Longrightarrow> t \<le> max n m + lag"
    using assms(5) by (auto simp: not_overdue_def)
  moreover have "False" if "calling time ?c sleep 1 m j" "n < m" "m \<le> s + 40 + late" for m
    using lag [OF calling_due [OF that(1)]] that(2,3) assms(6,7) by (simp add: max_absorb2)
  moreover have "False" if "resting time ?c sleep 1 m j" "n < m" "m \<le> s + 90 + 2 * late + lag" for m
    using lag [OF resting_due [OF that(1)]] that(2,3) assms(6,7) by (simp add: max_absorb2)
  ultimately obtain m where "calling time ?c sleep 2 m j"
    using assms(8) unfolding second_call_by_def by fastforce
  then show ?thesis by (auto simp: calling_def machine_of_def)
qed

subsection \<open>On a runtime with timers\<close>

text \<open>
  Tokio with its time paused, as its tests run it: the world is the time in milliseconds, a sleep
  is ready from its deadline on, and between two polls ten milliseconds pass. The background tasks
  fire their token or channel 120 ms after it was made.
\<close>

definition timer :: "nat \<Rightarrow> (nat, unit) future" where
  "timer deadline = future_of (\<lambda>_. State (\<lambda>n. ((if deadline \<le> n then Ready () else Pending, ()), n))) ()"

definition timer_sleep :: "duration \<Rightarrow> (nat, (nat, unit) future) state" where
  "timer_sleep d = State (\<lambda>n. (timer (n + as_millis d), n))"

definition timer_elapsed :: "nat \<Rightarrow> (nat, duration) state" where
  "timer_elapsed i = State (\<lambda>n. (duration_of ((n - i) * 1000000), n))"

definition timer_clock :: "nat async_clock" where
  "timer_clock = tokio_clock_impl timer_elapsed timer_sleep \<lparr>tk_origin = 0\<rparr>"

definition ten_millis_pass :: "(nat, unit) state" where
  "ten_millis_pass = State (\<lambda>n. ((), n + 10))"

lemma run_timer: "run_state (fut_poll (timer m)) n = ((if m \<le> n then Ready () else Pending, timer m), n)"
  by (simp add: timer_def run_future_of)

lemma due_timer: "due (\<lambda>n. n) m (timer m)"
  by coinduction (auto simp: run_timer)

lemma timer_laws:
  "makes_sleeps (\<lambda>n. n) 0 timer_sleep" "takes_no_time (\<lambda>n. n) (timer_elapsed i)"
  "makes_sleeps (\<lambda>n. n) 0 (ck_wait_async timer_clock)" "takes_no_time (\<lambda>n. n) (ck_now timer_clock)"
  by (auto simp: makes_sleeps_def takes_no_time_def timer_sleep_def timer_elapsed_def timer_clock_def
      tokio_clock_impl_def due_timer)

abbreviation timer_calling :: "u32 \<Rightarrow> nat \<Rightarrow> (nat, (string, string) result, string, string) async_run \<Rightarrow> bool" where
  "timer_calling \<equiv> calling (\<lambda>n. n) timer_clock timer_sleep"

abbreviation timer_resting :: "u32 \<Rightarrow> nat \<Rightarrow> (nat, (string, string) result, string, string) async_run \<Rightarrow> bool" where
  "timer_resting \<equiv> resting (\<lambda>n. n) timer_clock timer_sleep"

text \<open>The turns of the machine on exact timers.\<close>

lemma timer_waits:
  assumes "n < m"
  shows "timer_calling k m t \<Longrightarrow> \<exists>t'. async_poll dbg t n = Some ((Inr Pending, t'), n) \<and> timer_calling k m t'"
    and "timer_resting k m t \<Longrightarrow> \<exists>t'. async_poll dbg t n = Some ((Inr Pending, t'), n) \<and> timer_resting k m t'"
  using assms calling_waits [of "\<lambda>n. n" timer_clock timer_sleep k m t n dbg]
    resting_waits [of "\<lambda>n. n" timer_clock timer_sleep k m t n dbg] by auto

lemma timer_call_ends:
  assumes "timer_calling 1 m t" and "m \<le> n"
  shows "\<exists>t'. async_poll dbg t n = Some ((Inr Pending, t'), n) \<and> timer_resting 1 (n + 50) t'"
proof -
  have "(1 :: u32) < 10" by (simp add: word_less_nat_alt)
  from call_ends [OF assms(1) _ _ this timer_laws(3,4), of n dbg] assms(2) show ?thesis
    by (auto dest: antisym)
qed

lemma timer_rest_ends:
  assumes "timer_resting 1 m t" and "m \<le> n"
  shows "\<exists>t'. async_poll dbg t n = Some ((Inr Pending, t'), n) \<and> timer_calling 2 (n + 40) t'"
proof -
  have "(1 :: u32) < 10" by (simp add: word_less_nat_alt)
  from rest_ends [OF assms(1) _ this timer_laws(1,4), of n dbg] assms(2) show ?thesis
    by (auto dest: antisym)
qed

lemma timer_starts:
  assumes "cancelled_retry () timer_clock timer_sleep = Inr a"
  shows "\<exists>t'. async_poll dbg (into_run a) n = Some ((Inr Pending, t'), n) \<and> timer_calling 1 (n + 40) t'"
  using first_poll_calls [OF assms timer_laws(1,4), of dbg n] by (auto dest: antisym)

text \<open>Deadlines are unique, so nothing of this is overdue.\<close>

lemma due_unique:
  assumes "due (\<lambda>n. n) m fut" and "due (\<lambda>n. n) m' fut"
  shows "m' \<le> m"
proof (rule ccontr)
  assume "\<not> m' \<le> m"
  then have "m < m'" by simp
  obtain v fut' x' where "run_state (fut_poll fut) m = ((Ready v, fut'), x')"
    by (rule due_ready [OF assms(1), of m]) simp
  moreover obtain fut'' x'' where "run_state (fut_poll fut) m = ((Pending, fut''), x'')"
    using due_pending [OF assms(2) \<open>m < m'\<close>] .
  ultimately show False by simp
qed

lemma timer_not_overdue:
  assumes "timer_calling k m t \<or> timer_resting k m t" and "n \<le> m" and "n \<le> n'" and "n' \<le> m"
  shows "not_overdue (\<lambda>n. n) 0 t n n'"
proof -
  have "due_phase (\<lambda>n. n) m (ar_phase t)" using assms(1) calling_due resting_due by blast
  then have "m \<le> l" if "due_phase (\<lambda>n. n) l (ar_phase t)" for l
    using that by (cases "ar_phase t") (auto simp: due_phase_def intro: due_unique)
  then show ?thesis using assms(2-4) by (force simp: not_overdue_def)
qed

theorem deadline_falls_into_second_call_witness:
  "\<exists>a j. cancelled_retry () timer_clock timer_sleep = Inr a \<and> driven (\<lambda>n. n) 0 True (into_run a) 0 j 90
     \<and> ar_attempt j = 2 \<and> (\<exists>call. ar_phase j = Polling call)"
proof -
  let ?time = "\<lambda>n :: nat. n"
  obtain a where a: "cancelled_retry () timer_clock timer_sleep = Inr a" by (rule cancelled_retry_parts)
  obtain t1 where t1: "async_poll True (into_run a) 0 = Some ((Inr Pending, t1), 0)" "timer_calling 1 40 t1"
    using timer_starts [OF a, of True 0] by auto
  have d1: "driven ?time 0 True (into_run a) 0 t1 0" using driven_first [OF t1(1), of ?time] by simp
  obtain t2 where t2: "async_poll True t1 40 = Some ((Inr Pending, t2), 40)" "timer_resting 1 90 t2"
    using timer_call_ends [OF t1(2), of 40 True] by auto
  have d2: "driven ?time 0 True (into_run a) 0 t2 40"
    using driven_next [OF d1 _ t2(1)] timer_not_overdue [of 1 40 t1 0 40] t1(2) by simp
  obtain t3 where t3: "async_poll True t2 90 = Some ((Inr Pending, t3), 90)" "timer_calling 2 130 t3"
    using timer_rest_ends [OF t2(2), of 90 True] by auto
  have d3: "driven ?time 0 True (into_run a) 0 t3 90"
    using driven_next [OF d2 _ t3(1)] timer_not_overdue [of 1 90 t2 40 90] t2(2) by simp
  have "not_overdue ?time 0 t3 90 120" using timer_not_overdue [of 2 130 t3 90 120] t3(2) by simp
  from deadline_falls_into_second_call [OF a [unfolded timer_clock_def] timer_laws(1,2) d3 this] a d3
  show ?thesis by auto
qed

abbreviation call_race :: "bool \<Rightarrow> (nat \<Rightarrow> bool) \<Rightarrow> (nat, (string, string) result, string, string) async_run \<Rightarrow> nat \<Rightarrow> _" where
  "call_race dbg lost t \<equiv> poll_race (drop_stats_poll (async_poll dbg)) lost ten_millis_pass (DropStats t)"

text \<open>The race from poll to poll.\<close>

lemma race_step:
  assumes "async_poll dbg t n = Some ((Inr Pending, t'), n)" and "\<not> lost n"
  shows "call_race dbg lost t n = call_race dbg lost t' (n + 10)"
  using assms by (subst poll_race.simps) (simp add: async_poll_drop_stats ten_millis_pass_def)

lemma race_lost:
  assumes "async_poll dbg t n = Some ((Inr Pending, t'), n)" and "lost n"
  shows "call_race dbg lost t n = Some (Inl (DropStats t'), n)"
  using assms by (subst poll_race.simps) (simp add: async_poll_drop_stats)

lemma race_waits:
  assumes "\<And>n t. n < m \<Longrightarrow> I t \<Longrightarrow> \<exists>t'. async_poll dbg t n = Some ((Inr Pending, t'), n) \<and> I t'"
    and "I t" and "k = n + 10 * j" and "\<forall>i<j. n + 10 * i < m \<and> \<not> lost (n + 10 * i)"
  shows "\<exists>t'. call_race dbg lost t n = call_race dbg lost t' k \<and> I t'"
  using assms(4) unfolding assms(3)
proof (induction j)
  case 0
  then show ?case using assms(2) by auto
next
  case (Suc j)
  then obtain t1 where t1: "call_race dbg lost t n = call_race dbg lost t1 (n + 10 * j)" "I t1" by auto
  obtain t' where "async_poll dbg t1 (n + 10 * j) = Some ((Inr Pending, t'), n + 10 * j)" "I t'"
    using assms(1) [OF _ t1(2), of "n + 10 * j"] Suc.prems by auto
  then show ?case
    using t1(1) race_step [of dbg t1 "n + 10 * j" t' lost] Suc.prems by (auto simp: algebra_simps)
qed

text \<open>
  The whole race against a deadline 120 ms after its start: the first call ends at 40, the sleep
  at 90, and the second call is under way when the deadline comes.
\<close>

lemma race_to_deadline:
  assumes a: "cancelled_retry () timer_clock timer_sleep = Inr a"
    and lost: "\<And>n. s \<le> n \<Longrightarrow> lost n = (s + 120 \<le> n)"
  shows "\<exists>t. call_race dbg lost (into_run a) s = Some (Inl (DropStats t), s + 120)"
proof -
  obtain t1 where t1: "async_poll dbg (into_run a) s = Some ((Inr Pending, t1), s)" "timer_calling 1 (s + 40) t1"
    using timer_starts [OF a] by blast
  obtain t2 where t2: "call_race dbg lost (into_run a) s = call_race dbg lost t2 (s + 40)" "timer_calling 1 (s + 40) t2"
    using race_step [OF t1(1), of lost] lost
      race_waits [where I = "timer_calling 1 (s + 40)" and j = 3 and n = "s + 10" and k = "s + 40" and m = "s + 40" and lost = lost and dbg = dbg,
        OF timer_waits(1) t1(2)]
    by auto
  obtain t3 where t3: "call_race dbg lost t2 (s + 40) = call_race dbg lost t3 (s + 50)" "timer_resting 1 (s + 90) t3"
    using timer_call_ends [OF t2(2), of "s + 40" dbg] race_step [of dbg t2 "s + 40" _ lost] lost by (auto simp: ac_simps)
  obtain t4 where t4: "call_race dbg lost t3 (s + 50) = call_race dbg lost t4 (s + 90)" "timer_resting 1 (s + 90) t4"
    using race_waits [where I = "timer_resting 1 (s + 90)" and j = 4 and n = "s + 50" and k = "s + 90" and m = "s + 90" and lost = lost and dbg = dbg,
        OF timer_waits(2) t3(2)] lost
    by auto
  obtain t5 where t5: "call_race dbg lost t4 (s + 90) = call_race dbg lost t5 (s + 100)" "timer_calling 2 (s + 130) t5"
    using timer_rest_ends [OF t4(2), of "s + 90" dbg] race_step [of dbg t4 "s + 90" _ lost] lost by (auto simp: ac_simps)
  obtain t6 where t6: "call_race dbg lost t5 (s + 100) = call_race dbg lost t6 (s + 120)" "timer_calling 2 (s + 130) t6"
    using race_waits [where I = "timer_calling 2 (s + 130)" and j = 2 and n = "s + 100" and k = "s + 120" and m = "s + 130" and lost = lost and dbg = dbg,
        OF timer_waits(1) t5(2)] lost
    by auto
  obtain t7 where "call_race dbg lost t6 (s + 120) = Some (Inl (DropStats t7), s + 120)"
    using timer_waits(1) [OF _ t6(2), of "s + 120" dbg] race_lost [of dbg t6 "s + 120" _ lost] lost by (auto simp: ac_simps)
  then show ?thesis using t2(1) t3(1) t4(1) t5(1) t6(1) by auto
qed

text \<open>All of Tokio that the program uses, on that runtime.\<close>

definition paused_tokio :: "bool \<Rightarrow> (nat, nat, nat, nat) tokio" where
  "paused_tokio dbg =
     \<lparr>tk_clock = timer_clock, tk_sleep = timer_sleep,
      tk_timeout = (\<lambda>d fut n. ref_race (drop_stats_poll (async_poll dbg)) (\<lambda>m. n + as_millis d \<le> m) ten_millis_pass fut n),
      tk_select = (\<lambda>fut other. ref_race (drop_stats_poll (async_poll dbg))
        (\<lambda>n. fst (fst (run_state (fut_poll other) n)) = Ready ()) ten_millis_pass fut),
      tk_spawn = (\<lambda>_. State_Monad.return ()),
      tk_token_new = State (\<lambda>n. (n + 120, n)), tk_token_clone = State_Monad.return,
      tk_cancel = (\<lambda>_. State_Monad.return ()), tk_cancelled = timer,
      tk_channel = State (\<lambda>n. ((n + 120, n + 120), n)), tk_send = (\<lambda>_. State_Monad.return ()),
      tk_recv = timer\<rparr>"

lemma race_loses:
  assumes "cancelled_retry () timer_clock timer_sleep = Inr a" and "\<And>n. s \<le> n \<Longrightarrow> lost n = (s + 120 \<le> n)"
  shows "ref_race (drop_stats_poll (async_poll dbg)) lost ten_millis_pass (async_call a) s = Some (Inr None, s + 120)"
  using race_to_deadline [OF assms, of dbg] by (auto simp: ref_race_def async_call_def race_end_def)

lemma paused_patterns:
  "timeout_pattern (paused_tokio dbg) s = Some (Inr Says_cancelled, s + 120)"
  "token_pattern (paused_tokio dbg) s = Some (Inr Says_cancelled, s + 120)"
  "channel_pattern (paused_tokio dbg) s = Some (Inr Says_cancelled, s + 120)"
proof -
  obtain a where a: "cancelled_retry () timer_clock timer_sleep = Inr a" by (rule cancelled_retry_parts)
  have ms: "as_millis (from_millis 120) = 120" by (simp add: dur_simps)
  show "timeout_pattern (paused_tokio dbg) s = Some (Inr Says_cancelled, s + 120)"
    "token_pattern (paused_tokio dbg) s = Some (Inr Says_cancelled, s + 120)"
    "channel_pattern (paused_tokio dbg) s = Some (Inr Says_cancelled, s + 120)"
    using race_loses [OF a, of s "\<lambda>n. s + 120 \<le> n" dbg]
    by (simp_all add: timeout_pattern_def token_pattern_def channel_pattern_def raced_def paused_tokio_def a ms
        run_timer timeout_line_def select_line_def)
qed

theorem async_cancel_prints_witness:
  "\<exists>l1 l2 l3. async_cancel_main (paused_tokio True) 0 = Some (Inr [l1, l2, l3], 360)
    \<and> (l1 = Says_cancelled \<or> l1 = Says_exhausted (Err ''attempt 10: connection refused''))"
proof -
  have main: "async_cancel_main (paused_tokio True) 0 = Some (Inr [Says_cancelled, Says_cancelled, Says_cancelled], 360)"
    by (simp add: async_cancel_main_def paused_patterns)
  have law: "lawful_race (drop_stats_poll (async_poll True))
      (\<lambda>fut (n :: nat). ref_race (drop_stats_poll (async_poll True)) (lost n) ten_millis_pass fut n)" for lost
    by unfold_locales (erule ref_race.answered ref_race.unwound)+
  have "lawful_race (drop_stats_poll (async_poll True)) (tk_timeout (paused_tokio True) (from_millis 120))"
    unfolding paused_tokio_def tokio.simps by (rule law)
  moreover have "lawful_race (drop_stats_poll (async_poll True)) (\<lambda>fut. tk_select (paused_tokio True) fut other)" for other
    unfolding paused_tokio_def tokio.simps by (rule ref_race.lawful_race_axioms)
  ultimately show ?thesis
    using async_cancel_prints [of True "paused_tokio True" 0] main by fastforce
qed

end
