(* ===== verification/Bench.thy ===== *)
theory Bench
  imports Examples
begin

text \<open>
  \<open>src/benches/retry_hot_paths.rs\<close>: the benchmark's own clock, its cases with their
  \<open>expect\<close>s, and its command line. The time the measured loop of a case takes is an argument, and
  of the printed lines the parts that vary are kept: a listed case, and for a case that was run its
  name, the total and the time per iteration.
\<close>

definition WARMUP_ITERS :: u32 where
  "WARMUP_ITERS = 2000"

definition BENCH_ITERS :: u32 where
  "BENCH_ITERS = 50000"

definition MAX_ATTEMPTS :: u32 where
  "MAX_ATTEMPTS = 3"

definition SUCCESS_VALUE :: int where
  "SUCCESS_VALUE = 42"

definition ERROR_VALUE :: string where
  "ERROR_VALUE = ''fail''"

definition FIXED_WAIT :: duration where
  "FIXED_WAIT = from_millis 1"

definition BENCHMARK_KIND_SUFFIX :: string where
  "BENCHMARK_KIND_SUFFIX = '': benchmark''"

subsection \<open>The clock\<close>

record instant_clock = ic_time :: duration

definition instant_clock_new :: "'y \<Rightarrow> 'y instant_clock_scheme" where
  "instant_clock_new y = \<lparr>ic_time = duration_zero, \<dots> = y\<rparr>"

definition instant_now :: "('y instant_clock_scheme, duration) state" where
  "instant_now = State (\<lambda>c. (ic_time c, c))"

definition instant_wait :: "duration \<Rightarrow> ('y instant_clock_scheme, unit) state" where
  "instant_wait dur = State (\<lambda>c. ((), c\<lparr>ic_time := saturating_add (ic_time c) dur\<rparr>))"

definition instant_sync_clock :: "'y instant_clock_scheme sync_clock" where
  "instant_sync_clock = \<lparr>ck_now = instant_now, ck_wait = instant_wait\<rparr>"

definition put_instant :: "'y \<Rightarrow> 'y instant_clock_scheme \<Rightarrow> 'y instant_clock_scheme" where
  "put_instant y x = instant_clock.more_update (\<lambda>_. y) x"

text \<open>It keeps the contract of the \<open>Clock\<close> trait, and leaves captured variables alone.\<close>

interpretation instant: lawful_sync_clock
    "instant_sync_clock :: 'y instant_clock_scheme sync_clock" ic_time "\<lambda>_. True"
  by unfold_locales (auto simp: instant_sync_clock_def instant_now_def instant_wait_def)

interpretation instant_view:
    clocked_view instant_clock.more put_instant instant_sync_clock "\<lambda>_ _. True"
  by unfold_locales
    (auto simp: put_instant_def instant_sync_clock_def instant_now_def instant_wait_def reflp_def transp_def)

definition on_instant_clock ::
    "('y, 'o, 'r, 'a) sync_retry \<Rightarrow> ('y instant_clock_scheme, 'o, 'r, 'a) sync_retry" where
  "on_instant_clock r = set_clock (lift_retry instant_clock.more put_instant r) instant_sync_clock"

subsection \<open>The cases\<close>

type_synonym ('y, 't) bench_retry = "panic + ('y, ('t, string) result, 't, string) sync_retry"

text \<open>A policy's retry, called on a fresh clock beside the captured variables \<open>y\<close>.\<close>

definition call_instant ::
    "bool \<Rightarrow> ('y, 't) bench_retry \<Rightarrow> 'y \<Rightarrow>
     (panic + ('t, (string, ('t, string) result) retry_error) result) option" where
  "call_instant dbg b y =
     (case b of Inl p \<Rightarrow> Some (Inl p)
      | Inr r \<Rightarrow> map_option fst (call dbg (on_instant_clock r) (instant_clock_new y)))"

definition expect :: "string \<Rightarrow> (panic + ('t, 'e) result) option \<Rightarrow> (panic + unit) option" where
  "expect msg out =
     map_option (\<lambda>m. unwind m (\<lambda>res. case res of Ok _ \<Rightarrow> Inr () | Err _ \<Rightarrow> Inl msg)) out"

definition success_first_retry :: "unit sync_clock \<Rightarrow> (unit, int) bench_retry" where
  "success_first_retry system =
     unwind (policy_new classify_result) (\<lambda>p. unwind (attempts 1) (\<lambda>stop.
       Inr (policy_retry system (policy_stop p stop) (\<lambda>_. State_Monad.return (Ok SUCCESS_VALUE)))))"

definition sync_success_first_attempt :: "bool \<Rightarrow> unit sync_clock \<Rightarrow> (panic + unit) option" where
  "sync_success_first_attempt dbg system =
     expect ''success path benchmark must succeed'' (call_instant dbg (success_first_retry system) ())"

text \<open>The captured variable is \<open>attempts\<close>.\<close>

definition until_success_op :: "(u32, (int, string) result) state" where
  "until_success_op = State (\<lambda>attempts.
     let attempts = u32_saturating_add attempts 1
     in (if attempts < MAX_ATTEMPTS then Err ERROR_VALUE else Ok SUCCESS_VALUE, attempts))"

definition until_success_retry :: "u32 sync_clock \<Rightarrow> (u32, int) bench_retry" where
  "until_success_retry system =
     unwind (policy_new classify_result) (\<lambda>p. unwind (attempts MAX_ATTEMPTS) (\<lambda>stop.
       Inr (policy_retry system (policy_wait (policy_stop p stop) (fixed duration_zero))
              (\<lambda>_. until_success_op))))"

definition sync_retry_until_success :: "bool \<Rightarrow> u32 sync_clock \<Rightarrow> (panic + unit) option" where
  "sync_retry_until_success dbg system =
     expect ''retry benchmark must eventually succeed'' (call_instant dbg (until_success_retry system) 0)"

definition exhausted_retry :: "unit sync_clock \<Rightarrow> (unit, int) bench_retry" where
  "exhausted_retry system =
     unwind (policy_new classify_result) (\<lambda>p. unwind (attempts MAX_ATTEMPTS) (\<lambda>stop.
       Inr (policy_retry system (policy_wait (policy_stop p stop) (fixed FIXED_WAIT))
              (\<lambda>_. State_Monad.return (Err ERROR_VALUE)))))"

definition sync_retry_exhausted_with_wait :: "bool \<Rightarrow> unit sync_clock \<Rightarrow> (panic + unit) option" where
  "sync_retry_exhausted_with_wait dbg system =
     map_option (\<lambda>m. unwind m (\<lambda>_. Inr ())) (call_instant dbg (exhausted_retry system) ())"

subsection \<open>The command line\<close>

text \<open>A case is what calling it does; the default clocks of its builders are arguments.\<close>

type_synonym bench_case = "(panic + unit) option"

definition BENCH_CASES :: "bool \<Rightarrow> unit sync_clock \<Rightarrow> u32 sync_clock \<Rightarrow> (string \<times> bench_case) list" where
  "BENCH_CASES dbg system system' =
     [(''sync_success_first_attempt'', sync_success_first_attempt dbg system),
      (''sync_retry_until_success'', sync_retry_until_success dbg system'),
      (''sync_retry_exhausted_with_wait'', sync_retry_exhausted_with_wait dbg system)]"

primrec repeat_case :: "nat \<Rightarrow> bench_case \<Rightarrow> bench_case" where
  "repeat_case 0 run_it = Some (Inr ())"
| "repeat_case (Suc n) run_it =
     (case run_it of None \<Rightarrow> None | Some (Inl p) \<Rightarrow> Some (Inl p) | Some (Inr _) \<Rightarrow> repeat_case n run_it)"

text \<open>
  What is printed of a case: its name, the time the measured loop took, which is the argument
  \<open>took\<close> at that name, and \<open>ns/iter\<close>.
\<close>

datatype bench_line = Bench_line string duration nat

definition run_case :: "(string \<Rightarrow> duration) \<Rightarrow> string \<Rightarrow> bench_case \<Rightarrow> (panic + bench_line) option" where
  "run_case took name run_it =
     (case repeat_case (unat WARMUP_ITERS) run_it of
        None \<Rightarrow> None
      | Some (Inl p) \<Rightarrow> Some (Inl p)
      | Some (Inr _) \<Rightarrow>
          (case repeat_case (unat BENCH_ITERS) run_it of
             None \<Rightarrow> None
           | Some (Inl p) \<Rightarrow> Some (Inl p)
           | Some (Inr _) \<Rightarrow>
               (let elapsed = took name; nanos_per_iter = as_nanos elapsed div unat BENCH_ITERS
                in Some (Inr (Bench_line name elapsed nanos_per_iter)))))"

definition list_cases_for_nextest :: "(string \<times> bench_case) list \<Rightarrow> string list" where
  "list_cases_for_nextest cases = map (\<lambda>(name, _). name @ BENCHMARK_KIND_SUFFIX) cases"

primrec run_named_case ::
    "(string \<times> bench_case) list \<Rightarrow> (string \<Rightarrow> duration) \<Rightarrow> string \<Rightarrow> (panic + (bench_line, string) result) option" where
  "run_named_case [] took name = Some (Inr (Err ''unknown benchmark case''))"
| "run_named_case (c # cases) took name =
     (if fst c = name then map_option (map_sum id Ok) (run_case took (fst c) (snd c))
      else run_named_case cases took name)"

datatype run_mode = ListMode | Named string | AllMode

fun parse_args :: "string list \<Rightarrow> string option \<Rightarrow> bool \<Rightarrow> string option \<times> bool" where
  "parse_args [] exact_case is_list_mode = (exact_case, is_list_mode)"
| "parse_args (arg # args) exact_case is_list_mode =
     (if arg = ''--list'' then parse_args args exact_case True
      else if arg = ''--exact'' then
        (case args of
           [] \<Rightarrow> parse_args [] None is_list_mode
         | name # rest \<Rightarrow> parse_args rest (Some name) is_list_mode)
      else parse_args args exact_case is_list_mode)"

definition parse_mode_from_args :: "string list \<Rightarrow> run_mode" where
  "parse_mode_from_args argv =
     (case parse_args (drop 1 argv) None False of
        (exact_case, is_list_mode) \<Rightarrow>
          if is_list_mode then ListMode
          else (case exact_case of Some name \<Rightarrow> Named name | None \<Rightarrow> AllMode))"

primrec run_all_cases :: "(string \<times> bench_case) list \<Rightarrow> (string \<Rightarrow> duration) \<Rightarrow> (panic + bench_line list) option" where
  "run_all_cases [] took = Some (Inr [])"
| "run_all_cases (c # cases) took =
     (case run_case took (fst c) (snd c) of
        None \<Rightarrow> None
      | Some (Inl p) \<Rightarrow> Some (Inl p)
      | Some (Inr line) \<Rightarrow> map_option (map_sum id (Cons line)) (run_all_cases cases took))"

text \<open>The program: the lines it lists, the ones it reports, or the error it exits with.\<close>

datatype bench_output = Listed "string list" | Timed "bench_line list" | Exit_error string

definition bench_main ::
    "(string \<times> bench_case) list \<Rightarrow> (string \<Rightarrow> duration) \<Rightarrow> string list \<Rightarrow> (panic + bench_output) option" where
  "bench_main cases took argv =
     (case parse_mode_from_args argv of
        ListMode \<Rightarrow> Some (Inr (Listed (list_cases_for_nextest cases)))
      | AllMode \<Rightarrow> map_option (map_sum id Timed) (run_all_cases cases took)
      | Named case_name \<Rightarrow>
          map_option (map_sum id (\<lambda>res. case res of
            Ok line \<Rightarrow> Timed [line] | Err err \<Rightarrow> Exit_error (err @ '': '' @ case_name)))
            (run_named_case cases took case_name))"

subsection \<open>Properties\<close>

lemma repeat_case_ok: "repeat_case n (Some (Inr ())) = Some (Inr ())"
  by (induction n) simp_all

lemma bench_retry_runs:
  assumes "plain_observers r classify_result" and "follows_script r f before"
    and "\<And>st. stop_test (rt_stop r) st \<longleftrightarrow> m \<le> st_attempt st" and "m \<noteq> 0"
    and "rt_timeout r = None" and "before 1 y"
  shows "call_instant dbg (Inr r) y = Some (Inr (fst (spec_run (unat m) (classify_result \<circ> f))))"
proof -
  have "before 1 (instant_clock.more (instant_clock_new y))" using assms(6) by (simp add: instant_clock_new_def)
  from instant_view.script_run [OF assms(1-5) this, of dbg] show ?thesis
    by (auto simp: call_instant_def on_instant_clock_def dest: call_of_run)
qed

text \<open>What such a retry is made of, and what the three cases answer with.\<close>

lemma bench_retry_parts:
  assumes "b = unwind (policy_new classify_result) (\<lambda>p. unwind (attempts m) (\<lambda>stop.
      Inr (policy_retry system (policy_wait (policy_stop p stop) (fixed d)) (\<lambda>_. poll)))) \<or>
    b = unwind (policy_new classify_result) (\<lambda>p. unwind (attempts m) (\<lambda>stop.
      Inr (policy_retry system (policy_stop p stop) (\<lambda>_. poll))))"
    and "m \<noteq> 0"
    and "\<And>n y. before n y \<Longrightarrow> 1 \<le> n \<Longrightarrow> fst (run_state poll y) = f n \<and> before (Suc n) (snd (run_state poll y))"
    and "before 1 y"
  shows "call_instant dbg b y = Some (Inr (fst (spec_run (unat m) (classify_result \<circ> f))))"
proof -
  obtain r where r: "b = Inr r" "plain_observers r classify_result" "rt_op r = OpFn (\<lambda>_. poll)"
      "rt_hooks r = execution_hooks_new" "\<And>st. stop_test (rt_stop r) st \<longleftrightarrow> m \<le> st_attempt st"
      "rt_timeout r = None"
    using assms(1,2)
    by (auto simp: example_defs policy_retry_def policy_stop_def policy_wait_def
        plain_observers_def stop_test_def exponential_def default_decide_def)
  have "follows_script r f (\<lambda>n y. 1 \<le> n \<and> before n y)"
    by (rule follows_script_no_hooks [where poll = poll]) (use r assms(3) in auto)
  from bench_retry_runs [OF r(2) this r(5) assms(2) r(6), of y dbg] show ?thesis
    using r(1) assms(4) by simp
qed

lemma success_first_succeeds: "sync_success_first_attempt dbg system = Some (Inr ())"
proof -
  have "call_instant dbg (success_first_retry system) () =
      Some (Inr (fst (spec_run (unat (1 :: u32)) (classify_result \<circ> (\<lambda>_. Ok SUCCESS_VALUE)))))"
    by (rule bench_retry_parts [where before = "\<lambda>_ _. True" and system = system
        and poll = "State_Monad.return (Ok SUCCESS_VALUE)"])
      (simp_all add: success_first_retry_def)
  then show ?thesis
    by (simp add: sync_success_first_attempt_def expect_def spec_run_def classify_result_def verdict_result_def)
qed

lemma until_success_succeeds: "sync_retry_until_success dbg system = Some (Inr ())"
proof -
  let ?f = "\<lambda>n. if n < 3 then Err ERROR_VALUE else Ok SUCCESS_VALUE"
  let ?before = "\<lambda>n y. unat (y :: u32) = min (n - 1) 4294967295"
  have "call_instant dbg (until_success_retry system) 0 =
      Some (Inr (fst (spec_run (unat (3 :: u32)) (classify_result \<circ> ?f))))"
  proof (rule bench_retry_parts [where before = ?before and poll = until_success_op and m = 3
        and system = system and d = duration_zero])
    fix n and y :: u32
    assume "?before n y" "1 \<le> n"
    then have "unat (u32_saturating_add y 1) = min n 4294967295"
      by (simp add: unat_u32_saturating_add)
    then show "fst (run_state until_success_op y) = ?f n \<and> ?before (Suc n) (snd (run_state until_success_op y))"
      by (simp add: until_success_op_def Let_def MAX_ATTEMPTS_def word_less_nat_alt min_less_iff_disj)
  qed (simp_all add: until_success_retry_def MAX_ATTEMPTS_def)
  then show ?thesis
    by (simp add: sync_retry_until_success_def expect_def spec_run_def upt_rec classify_result_def
        verdict_result_def)
qed

lemma exhausted_case_returns: "sync_retry_exhausted_with_wait dbg system = Some (Inr ())"
proof -
  have "call_instant dbg (exhausted_retry system) () =
      Some (Inr (fst (spec_run (unat (3 :: u32)) (classify_result \<circ> (\<lambda>_. Err ERROR_VALUE)))))"
    by (rule bench_retry_parts [where before = "\<lambda>_ _. True" and system = system and d = FIXED_WAIT
        and poll = "State_Monad.return (Err ERROR_VALUE)"])
      (simp_all add: exhausted_retry_def MAX_ATTEMPTS_def)
  then show ?thesis by (simp add: sync_retry_exhausted_with_wait_def)
qed

definition bench_names :: "string list" where
  "bench_names = [''sync_success_first_attempt'', ''sync_retry_until_success'', ''sync_retry_exhausted_with_wait'']"

lemma run_named_case_map_of:
  "run_named_case cases took name =
     (case map_of cases name of
        None \<Rightarrow> Some (Inr (Err ''unknown benchmark case''))
      | Some c \<Rightarrow> map_option (map_sum id Ok) (run_case took name c))"
  by (induction cases) auto

lemma run_case_ok: "run_case took name (Some (Inr ())) = Some (Inr (Bench_line name (took name) (as_nanos (took name) div 50000)))"
  by (simp add: run_case_def repeat_case_ok BENCH_ITERS_def Let_def)

lemma bench_cases_succeed: "BENCH_CASES dbg system system' = map (\<lambda>name. (name, Some (Inr ()))) bench_names"
  by (simp add: BENCH_CASES_def bench_names_def success_first_succeeds until_success_succeeds
      exhausted_case_returns)

lemma run_all_ok:
  "run_all_cases (map (\<lambda>name. (name, Some (Inr ()))) names) took =
     Some (Inr (map (\<lambda>name. Bench_line name (took name) (as_nanos (took name) div 50000)) names))"
  by (induction names) (simp_all add: run_case_ok)

text \<open>
  C40: \<open>--exact\<close> and a name run the case that stands under that name in the table, whatever the
  table and its cases, and report it under its name; a name that is not in the table is an error,
  and \<open>--list\<close> comes before \<open>--exact\<close>. So the test runner can give any line that the benchmark
  program lists back to it, by the name before the suffix: it runs that case, and no \<open>expect\<close> of
  it fails in any iteration. Without arguments all cases are run and reported in order.
\<close>

theorem exact_runs_the_named_case:
  "bench_main cases took [prog, ''--exact'', name] =
     (case map_of cases name of
        None \<Rightarrow> Some (Inr (Exit_error (''unknown benchmark case: '' @ name)))
      | Some c \<Rightarrow> map_option (map_sum id (\<lambda>line. Timed [line])) (run_case took name c))
   \<and> bench_main cases took [prog, ''--exact'', name, ''--list''] =
       Some (Inr (Listed (map (\<lambda>c. fst c @ BENCHMARK_KIND_SUFFIX) cases)))
   \<and> bench_main (BENCH_CASES dbg system system') took [prog, ''--list''] =
       Some (Inr (Listed (map (\<lambda>n. n @ BENCHMARK_KIND_SUFFIX) bench_names)))
   \<and> bench_main (BENCH_CASES dbg system system') took [prog, ''--exact'', name] =
       Some (Inr (if name \<in> set bench_names
                  then Timed [Bench_line name (took name) (as_nanos (took name) div 50000)]
                  else Exit_error (''unknown benchmark case: '' @ name)))
   \<and> bench_main (BENCH_CASES dbg system system') took [prog] =
       Some (Inr (Timed (map (\<lambda>n. Bench_line n (took n) (as_nanos (took n) div 50000)) bench_names)))"
proof -
  have named: "bench_main cases took [prog, ''--exact'', name] =
     (case map_of cases name of
        None \<Rightarrow> Some (Inr (Exit_error (''unknown benchmark case: '' @ name)))
      | Some c \<Rightarrow> map_option (map_sum id (\<lambda>line. Timed [line])) (run_case took name c))" for cases
    by (simp add: bench_main_def parse_mode_from_args_def run_named_case_map_of option.map_comp
        sum.map_comp comp_def id_def split: option.split)
  have "map_of (map (\<lambda>name. (name, Some (Inr ()) :: bench_case)) names) name =
      (if name \<in> set names then Some (Some (Inr ())) else None)" for names
    by (induction names) auto
  then have "bench_main (BENCH_CASES dbg system system') took [prog, ''--exact'', name] =
       Some (Inr (if name \<in> set bench_names
                  then Timed [Bench_line name (took name) (as_nanos (took name) div 50000)]
                  else Exit_error (''unknown benchmark case: '' @ name)))"
    unfolding named bench_cases_succeed by (simp add: run_case_ok)
  then show ?thesis
    by (simp add: named bench_cases_succeed)
      (simp add: bench_main_def parse_mode_from_args_def run_all_ok list_cases_for_nextest_def case_prod_beta comp_def)
qed

end
