(* ===== verification/Tests_Data.thy ===== *)
theory Tests_Data
  imports Examples
begin

text \<open>
  The unit tests inside \<open>clock.rs\<close>, \<open>decision.rs\<close>, \<open>engine/state.rs\<close>, \<open>engine/error.rs\<close> and
  \<open>engine/step.rs\<close>, run on the model. A test is its name with what running it gives: nothing, or
  the panic of a failed assertion. They are the authors' own account of what the code does, and
  the model agrees with all of them.
\<close>

type_synonym unit_test = "string \<times> (panic + unit)"

definition all_pass :: "unit_test list \<Rightarrow> bool" where
  "all_pass tests \<longleftrightarrow> (\<forall>(name, outcome) \<in> set tests. outcome = Inr ())"

lemma all_pass_append [simp]: "all_pass (xs @ ys) \<longleftrightarrow> all_pass xs \<and> all_pass ys"
  by (auto simp: all_pass_def)

lemma all_pass_simps [simp]:
  "all_pass []" "all_pass ((name, outcome) # tests) \<longleftrightarrow> outcome = Inr () \<and> all_pass tests"
  by (auto simp: all_pass_def)

type_synonym int_result = "(int, string) result"

subsection \<open>\<open>decision.rs\<close>\<close>

definition decide_now :: "(unit, 'o, 'r, 'a) classifier \<Rightarrow> 'o \<Rightarrow> ('r, 'a, 'o) verdict" where
  "decide_now d outcome = fst (run_state (d outcome) ())"

definition decision_tests :: "unit_test list" where
  "decision_tests =
     [(''result_ok_classifies_as_return'',
       rust_assert (classify_result (Ok 7 :: int_result) = Return 7)),
      (''result_err_classifies_as_retry_carrying_the_whole_outcome'',
       rust_assert (classify_result (Err ''boom'' :: int_result) = Retry (Err ''boom''))),
      (''default_classifier_delegates_to_outcome'',
       rust_assert (decide_now (default_decide classify_result) (Ok 1 :: int_result) = Return 1
         \<and> decide_now (default_decide classify_result) (Err ''x'' :: int_result) = Retry (Err ''x''))),
      (''option_some_classifies_as_return'',
       rust_assert ((classify_option (Some 7) :: (int, unit, int option) verdict) = Return 7)),
      (''option_none_classifies_as_retry_carrying_the_whole_outcome'',
       rust_assert ((classify_option None :: (int, unit, int option) verdict) = Retry None)),
      (''default_classifier_delegates_to_option'',
       rust_assert ((decide_now (default_decide classify_option) (Some 1)
             :: (int, unit, int option) verdict) = Return 1
         \<and> (decide_now (default_decide classify_option) None
             :: (int, unit, int option) verdict) = Retry None)),
      (''control_flow_break_classifies_as_return'',
       rust_assert ((classify_control_flow (Break ''done'')
             :: (string, unit, (string, int) control_flow) verdict) = Return ''done'')),
      (''control_flow_continue_classifies_as_retry_carrying_the_whole_outcome'',
       rust_assert ((classify_control_flow (Continue_flow 5)
             :: (string, unit, (string, int) control_flow) verdict) = Retry (Continue_flow 5))),
      (''default_classifier_delegates_to_control_flow'',
       rust_assert ((decide_now (default_decide classify_control_flow) (Break ''x'')
             :: (string, unit, (string, int) control_flow) verdict) = Return ''x''
         \<and> (decide_now (default_decide classify_control_flow) (Continue_flow 1)
             :: (string, unit, (string, int) control_flow) verdict) = Retry (Continue_flow 1)))]"

lemma decision_tests_pass: "all_pass decision_tests"
  by (simp add: decision_tests_def decide_now_def default_decide_def classify_result_def
      classify_option_def classify_control_flow_def)

subsection \<open>\<open>engine/state.rs\<close>\<close>

text \<open>The second test is for debug builds and should panic, with this message.\<close>

definition attempt_state_tests :: "bool \<Rightarrow> unit_test list" where
  "attempt_state_tests dbg =
     [(''attempt_state_exposes_attempt_elapsed_and_outcome'',
       let outcome = Err ''network timeout'' :: (unit, string) result
       in unwind (attempt_state_new dbg 1 duration_zero outcome) (\<lambda>state.
            rust_assert (as_attempt state = 1 \<and> as_elapsed state = duration_zero
              \<and> result_err (as_outcome state) = Some ''network timeout''))),
      (''attempt_state_new_zero_panics_in_debug'',
       rust_assert (dbg \<longrightarrow> attempt_state_new dbg 0 duration_zero (Ok 1 :: int_result) =
         Inl ''attempt is 1-indexed''))]"

lemma attempt_state_tests_pass: "all_pass (attempt_state_tests dbg)"
  by (simp add: attempt_state_tests_def attempt_state_new_def debug_assert_attempt_def)

subsection \<open>\<open>engine/error.rs\<close>\<close>

type_synonym test_error = "(string, int_result) retry_error"

definition error_tests :: "unit_test list" where
  "error_tests =
     [(''stop_reason_matches_the_variant'',
       rust_assert (error_stop_reason (Error_Aborted ''x'' :: test_error) = Aborted
         \<and> error_stop_reason (Error_Exhausted (Err ''y'') :: test_error) = Exhausted)),
      (''last_retains_the_outcome_only_on_exhausted'',
       rust_assert (error_last (Error_Exhausted (Ok 3) :: test_error) = Some (Ok 3)
         \<and> error_last (Error_Aborted ''boom'' :: test_error) = None)),
      (''last_is_available_for_non_result_outcomes'',
       let exhausted = Error_Exhausted None :: (unit, int option) retry_error
       in rust_assert (error_last exhausted = Some None \<and> into_last exhausted = Some None)),
      (''last_error_collapses_to_the_error'',
       rust_assert (last_error (Error_Aborted ''boom'' :: test_error) = Some ''boom''
         \<and> last_error (Error_Exhausted (Err ''net'') :: test_error) = Some ''net''
         \<and> last_error (Error_Exhausted (Ok 1) :: test_error) = None)),
      (''display_reports_the_terminal_reason'',
       rust_assert (display_result_error id (Error_Aborted ''boom'' :: test_error) = ''aborted: boom''
         \<and> display_result_error id (Error_Exhausted (Err ''net'') :: test_error) = ''retries exhausted: net'')),
      (''option_error_display_reports_exhaustion'',
       rust_assert (display_option_error (Error_Exhausted None :: (unit, int option) retry_error) =
         Some ''retries exhausted'')),
      (''option_error_is_a_std_error_with_no_source'',
       rust_assert (option_error_source (Error_Exhausted None :: (unit, int option) retry_error) = None)),
      (''control_flow_error_display_reports_exhaustion'',
       rust_assert (display_control_flow_error
         (Error_Exhausted (Continue_flow 0) :: (unit, (int, int) control_flow) retry_error) =
         Some ''retries exhausted'')),
      (''control_flow_error_is_a_std_error_with_no_source'',
       rust_assert (control_flow_error_source
         (Error_Exhausted (Continue_flow 0) :: (unit, (int, int) control_flow) retry_error) = None))]"

lemma error_tests_pass: "all_pass error_tests"
  by (simp add: error_tests_def option_error_source_def control_flow_error_source_def)

subsection \<open>\<open>engine/step.rs\<close>\<close>

definition TEST_DELAY :: duration where
  "TEST_DELAY = from_millis 10"

text \<open>Rust's \<open>unwrap_err\<close> panics on an \<open>Ok\<close>; the test that uses this classifier has none.\<close>

definition always_abort :: "(unit, int_result, int, string) classifier" where
  "always_abort outcome = State_Monad.return (Abort (the (result_err outcome)))"

text \<open>One call of \<open>step\<close> without hooks, with \<open>stop::attempts(bound)\<close> and \<open>wait::fixed(DELAY)\<close>.\<close>

definition step_once ::
    "bool \<Rightarrow> progress \<Rightarrow> int_result \<Rightarrow> (unit, int_result, int, string) classifier \<Rightarrow> u32 \<Rightarrow>
     duration option \<Rightarrow> panic + (int, string, int_result) step_result" where
  "step_once dbg progress outcome classifier bound timeout =
     unwind (attempts bound) (\<lambda>stop. map_sum id fst
       (fst (run_state (step dbg progress outcome classifier stop (fixed TEST_DELAY) timeout
          execution_hooks_new) ())))"

definition expect_done ::
    "((int, (string, int_result) retry_error) result \<Rightarrow> retry_stats \<Rightarrow> bool) \<Rightarrow>
     (int, string, int_result) step_result \<Rightarrow> panic + unit" where
  "expect_done p st = (case st of
     Done result stats \<Rightarrow> rust_assert (p result stats) | Continue _ _ \<Rightarrow> Inl ''expected Done, got Continue'')"

definition expect_continue ::
    "(duration \<Rightarrow> duration \<Rightarrow> bool) \<Rightarrow> (int, string, int_result) step_result \<Rightarrow> panic + unit" where
  "expect_continue p st = (case st of
     Continue delay total_wait \<Rightarrow> rust_assert (p delay total_wait)
   | Done _ _ \<Rightarrow> Inl ''expected Continue, got Done'')"

definition step_tests :: "bool \<Rightarrow> unit_test list" where
  "step_tests dbg =
     [(''return_terminates_with_returned_stats'',
       unwind (step_once dbg \<lparr>pg_attempt = 1, pg_elapsed = duration_zero, pg_previous_delay = None,
           pg_total_wait = duration_zero\<rparr> (Ok 5) (default_decide classify_result) 3 None)
         (expect_done (\<lambda>result stats. result = Ok 5 \<and> rs_stop_reason stats = Returned
            \<and> rs_attempts stats = 1 \<and> rs_total_wait stats = duration_zero))),
      (''abort_terminates_with_aborted_stats'',
       unwind (step_once dbg \<lparr>pg_attempt = 2, pg_elapsed = TEST_DELAY, pg_previous_delay = Some TEST_DELAY,
           pg_total_wait = TEST_DELAY\<rparr> (Err ''fatal'') always_abort 5 None)
         (expect_done (\<lambda>result stats. result_err result = Some (Error_Aborted ''fatal'')
            \<and> rs_stop_reason stats = Aborted \<and> rs_attempts stats = 2 \<and> rs_total_wait stats = TEST_DELAY))),
      (''retry_continues_and_adds_delay_to_total_wait'',
       unwind (step_once dbg \<lparr>pg_attempt = 2, pg_elapsed = duration_zero, pg_previous_delay = Some TEST_DELAY,
           pg_total_wait = TEST_DELAY\<rparr> (Err ''again'') (default_decide classify_result) 5 None)
         (expect_continue (\<lambda>delay total_wait. delay = TEST_DELAY
            \<and> total_wait = saturating_add TEST_DELAY TEST_DELAY))),
      (''retry_exhausts_when_stop_fires'',
       unwind (step_once dbg \<lparr>pg_attempt = 1, pg_elapsed = duration_zero, pg_previous_delay = None,
           pg_total_wait = duration_zero\<rparr> (Err ''last'') (default_decide classify_result) 1 None)
         (expect_done (\<lambda>result stats. result_err result = Some (Error_Exhausted (Err ''last''))
            \<and> rs_stop_reason stats = Exhausted \<and> rs_total_wait stats = duration_zero))),
      (''retry_clamps_delay_to_remaining_timeout_budget'',
       unwind (step_once dbg \<lparr>pg_attempt = 1, pg_elapsed = from_millis 5, pg_previous_delay = None,
           pg_total_wait = duration_zero\<rparr> (Err ''again'') (default_decide classify_result) 5
           (Some (from_millis 8)))
         (expect_continue (\<lambda>delay total_wait. delay = from_millis 3 \<and> total_wait = from_millis 3)))]"

lemma step_tests_pass: "all_pass (step_tests dbg)"
  by (simp add: step_tests_def step_once_def attempts_Inr fixed_def run_step default_decide_def
      classify_result_def always_abort_def expect_done_def expect_continue_def stats_for_def
      execution_hooks_new_def timed_out_def clamp_delay_def TEST_DELAY_def step_state_def dur_eval word_le_nat_alt Let_def)

subsection \<open>\<open>clock.rs\<close>\<close>

text \<open>
  The tests of the embassy conversion. \<open>embassy_time::Duration::from_micros\<close> is a parameter, in
  ticks; \<open>Duration::MAX\<close> is \<open>u64::MAX\<close> of them. The inputs of the property test are arguments.
\<close>

definition ARBITRARY_MICROS :: u64 where
  "ARBITRARY_MICROS = 1500"

definition to_embassy_duration_preserves_micros :: "(u64 \<Rightarrow> u64) \<Rightarrow> u64 \<Rightarrow> panic + unit" where
  "to_embassy_duration_preserves_micros embassy_from_micros TICK_HZ =
     rust_assert (to_embassy_ticks TICK_HZ (from_micros ARBITRARY_MICROS) = embassy_from_micros ARBITRARY_MICROS)"

definition to_embassy_duration_saturates_at_embassy_max :: "u64 \<Rightarrow> panic + unit" where
  "to_embassy_duration_saturates_at_embassy_max TICK_HZ =
     rust_assert (to_embassy_ticks TICK_HZ duration_MAX = - 1)"

definition to_embassy_duration_never_panics :: "u64 \<Rightarrow> u64 \<Rightarrow> u32 \<Rightarrow> panic + unit" where
  "to_embassy_duration_never_panics TICK_HZ secs nanos =
     (case duration_new secs nanos of
        None \<Rightarrow> Inl ''overflow in Duration::new''
      | Some d \<Rightarrow> (let _ = to_embassy_ticks TICK_HZ d in Inr ()))"

text \<open>They pass at every tick rate but zero, if \<open>from_micros\<close> rounds up to a tick as documented.\<close>

lemma embassy_tests_pass:
  assumes "1 \<le> TICK_HZ"
    and "embassy_from_micros ARBITRARY_MICROS = word_of_nat ((1500 * unat TICK_HZ + 999999) div 1000000)"
  shows "to_embassy_duration_preserves_micros embassy_from_micros TICK_HZ = Inr ()"
    and "to_embassy_duration_saturates_at_embassy_max TICK_HZ = Inr ()"
    and "unat nanos < 1000000000 \<Longrightarrow> to_embassy_duration_never_panics TICK_HZ secs nanos = Inr ()"
proof -
  let ?n = "unat TICK_HZ"
  have hz: "1 \<le> ?n" "?n < 2 ^ 64" using assms(1) unat_u64_lt [of TICK_HZ] by (simp_all add: word_le_nat_alt)
  have ceil: "n div 1000000 + (if n mod 1000000 \<noteq> 0 then 1 else 0) = (n + 999999) div 1000000" for n :: nat
  proof -
    define q r where "q = n div 1000000" and "r = n mod 1000000"
    have n: "n = r + q * 1000000" and r: "r < 1000000" by (simp_all add: q_def r_def)
    have "(n + 999999) div 1000000 = q + (r + 999999) div 1000000"
      using div_mult_self1 [of 1000000 "r + 999999" q] by (simp add: n algebra_simps)
    moreover have "(r + 999999) div 1000000 = (if r \<noteq> 0 then 1 else 0)"
      using r by (auto intro: div_nat_eqI)
    ultimately show ?thesis by (simp add: q_def r_def)
  qed
  have us: "as_micros (from_micros ARBITRARY_MICROS) = 1500"
    by (simp add: ARBITRARY_MICROS_def dur_simps)
  have "min (1500 * ?n) (2 ^ 128 - 1) = 1500 * ?n" "(1500 * ?n + 999999) div 1000000 < 2 ^ 64"
    using hz by simp_all
  then show "to_embassy_duration_preserves_micros embassy_from_micros TICK_HZ = Inr ()"
    by (simp only: to_embassy_duration_preserves_micros_def to_embassy_ticks_def us ceil Let_def assms(2) if_True
        rust_assert_iff)
  have big: "as_micros duration_MAX = 18446744073709551615999999" by (simp add: dur_simps)
  have "2 ^ 64 * 1000000 \<le> min (as_micros duration_MAX * ?n) (2 ^ 128 - 1) + 999999"
    using hz(1) by (simp add: big)
  then have "\<not> (min (as_micros duration_MAX * ?n) (2 ^ 128 - 1) + 999999) div 1000000 < 2 ^ 64" by simp
  then show "to_embassy_duration_saturates_at_embassy_max TICK_HZ = Inr ()"
    by (simp only: to_embassy_duration_saturates_at_embassy_max_def to_embassy_ticks_def ceil Let_def if_False
        rust_assert_iff)
  show "to_embassy_duration_never_panics TICK_HZ secs nanos = Inr ()" if "unat nanos < 1000000000"
  proof -
    have "unat secs * 1000000000 + unat nanos \<le> duration_max_nanos"
      using that unat_u64_lt [of secs] by (simp add: duration_max_nanos_def)
    then show ?thesis by (simp add: to_embassy_duration_never_panics_def duration_new_def Let_def)
  qed
qed

subsection \<open>All of them\<close>

lemma data_unit_tests_pass:
  "all_pass (decision_tests @ attempt_state_tests dbg @ error_tests @ step_tests dbg)"
  by (simp add: decision_tests_pass attempt_state_tests_pass error_tests_pass step_tests_pass)

end
