(* ===== verification/Tests_Sync.thy ===== *)
theory Tests_Sync
  imports Tests_Data
begin

text \<open>
  The unit tests of the sync engine, in \<open>src/src/engine/mod.rs\<close>, run on the model. The cells a
  test's closures capture are the world beside its virtual clock; what the test asserts of the
  result and of the cells is asserted of the model's run.
\<close>

definition ARBITRARY_ATTEMPTS :: u32 where
  "ARBITRARY_ATTEMPTS = 5"

datatype test_poll = Poll_Pending | Poll_Ready int | Poll_Failed string

definition test_poll_classify :: "test_poll \<Rightarrow> (int, string, test_poll) verdict" where
  "test_poll_classify p =
     (case p of Poll_Ready v \<Rightarrow> Return v | Poll_Failed err \<Rightarrow> Abort err | Poll_Pending \<Rightarrow> Retry p)"

subsection \<open>What the tests share\<close>

text \<open>\<open>let n = counter.get() + 1; counter.set(n);\<close> and an outcome made from \<open>n\<close>.\<close>

definition counted :: "(int \<Rightarrow> 'o) \<Rightarrow> (int, 'o) state" where
  "counted g = State (\<lambda>counter. let n = counter + 1 in (g n, n))"

text \<open>\<open>.stop(stop::attempts(bound)).wait(wait::fixed(dur))\<close>\<close>

definition with_budget ::
    "u32 \<Rightarrow> duration \<Rightarrow> panic + ('x, 'o, 'r, 'a) sync_retry \<Rightarrow> panic + ('x, 'o, 'r, 'a) sync_retry" where
  "with_budget bound dur b =
     unwind b (\<lambda>r. unwind (attempts bound) (\<lambda>stop. Inr (set_wait (set_stop r stop) (fixed dur))))"

text \<open>Every attempt of a test finds the page the last one has left.\<close>

lemma pages_test:
  fixes b :: "panic + ('y, 'o, 'r, 'a) sync_retry"
  assumes b: "b = Inr r" and plain: "plain_observers r vf"
    and pages: "follows_pages r f before ready answered"
    and r: "rt_stop r = StopAfterAttempts m" "m \<noteq> 0" "rt_wait r = WaitFixed d" "rt_timeout r = None"
    and start: "before 1 y0" and spec: "spec_run (unat m) (vf \<circ> f) = (res, k)"
    and check: "\<And>y e. before (Suc k) y \<Longrightarrow>
      p res (hook_world (hk_on_exit (rt_hooks r)) (verdict_exit (vf (f k)) (of_nat k) e) y)"
  shows "passed (asserted (call_virtual dbg b y0) (\<lambda>res x. p res (virtual_clock.more x)))"
proof -
  have "before 1 (virtual_clock.more (virtual_world y0))" using start by (simp add: virtual_world_def)
  from virtual_fixed_pages_run [OF plain pages r this, of dbg]
  obtain stats w x' y e where run: "run dbg (on_virtual_clock r) (virtual_world y0) = Some (Inr ((res, stats), w), x')"
    and y: "before (Suc k) y"
      "virtual_clock.more x' = hook_world (hk_on_exit (rt_hooks r)) (verdict_exit (vf (f k)) (of_nat k) e) y"
    by (auto simp: spec)
  show ?thesis
    using check [OF y(1), of e] call_of_run [OF run] by (simp add: call_virtual_def b asserted_passed y(2))
qed

lemma counted_pages:
  assumes "rt_op r = OpFn (\<lambda>_. counted g) \<or> rt_op r = StatelessOp (counted g)"
    and "rt_hooks r = execution_hooks_new"
  shows "follows_pages r (\<lambda>n. g (int n)) (\<lambda>n y. y = int n - 1) (\<lambda>n y. y = int n - 1) (\<lambda>n y. y = int n)"
  using assms by (auto simp: follows_pages_def counted_def execution_hooks_new_def Let_def)

lemma counted_test:
  fixes b :: "panic + (int, 'o, 'r, 'a) sync_retry"
  assumes "b = Inr r" and "plain_observers r vf"
    and "rt_op r = OpFn (\<lambda>_. counted g) \<or> rt_op r = StatelessOp (counted g)"
    and "rt_hooks r = execution_hooks_new"
    and "rt_stop r = StopAfterAttempts m" "m \<noteq> 0" "rt_wait r = WaitFixed d" "rt_timeout r = None"
    and "spec_run (unat m) (\<lambda>n. vf (g (int n))) = (res, k)" and "p res (int k)"
  shows "passed (asserted (call_virtual dbg b 0) (\<lambda>res x. p res (virtual_clock.more x)))"
  using assms(9,10)
  by (intro pages_test [OF assms(1,2) counted_pages [OF assms(3,4)] assms(5-8), where res = res and k = k])
    (auto simp: comp_def assms(4) execution_hooks_new_def)

lemma constant_test:
  fixes b :: "panic + (unit, 'o, 'r, 'a) sync_retry"
  assumes "b = Inr r" and "plain_observers r vf"
    and "rt_op r = OpFn (\<lambda>_. State_Monad.return oc)" and "rt_hooks r = execution_hooks_new"
    and "rt_stop r = StopAfterAttempts m" "m \<noteq> 0" "rt_wait r = WaitFixed d" "rt_timeout r = None"
    and "spec_run (unat m) (\<lambda>_. vf oc) = (res, k)" and "p res"
  shows "passed (asserted (call_virtual dbg b ()) (\<lambda>res _. p res))"
proof -
  have "follows_pages r (\<lambda>_. oc) (\<lambda>_ _. True) (\<lambda>_ _. True) (\<lambda>_ _. True)"
    by (simp add: follows_pages_def assms(3))
  from pages_test [OF assms(1,2) this assms(5-8), where p = "\<lambda>res _. p res" and res = res and k = k]
  show ?thesis using assms(9,10) by (simp add: comp_def)
qed

text \<open>What evaluates a builder and a specification run on a test's values.\<close>

lemmas test_defs = with_budget_def example_defs ARBITRARY_ATTEMPTS_def plain_observers_def
  default_decide_def closure_decide_def when_decide_def until_decide_def error_def ok_def
  decision_into_verdict_def verdict_into_verdict_def classify_result_def test_poll_classify_def
lemmas spec_eval = spec_run_def upt_rec verdict_result_def classify_result_def

subsection \<open>Classification\<close>

definition retries_on_err_then_returns_the_ok_value :: "bool \<Rightarrow> int sync_clock \<Rightarrow> (panic + unit) option" where
  "retries_on_err_then_returns_the_ok_value dbg system =
     asserted (call_virtual dbg (with_budget ARBITRARY_ATTEMPTS duration_zero
         (retry_new system classify_result
           (\<lambda>_. counted (\<lambda>n. if n \<ge> 2 then Ok 7 else Err ''not yet'' :: int_result)))) 0)
       (\<lambda>result x. result = Ok 7 \<and> virtual_clock.more x = 2)"

definition exhausts_with_the_final_outcome_when_stop_fires ::
    "bool \<Rightarrow> int sync_clock \<Rightarrow> (panic + unit) option" where
  "exhausts_with_the_final_outcome_when_stop_fires dbg system =
     asserted (call_virtual dbg (with_budget 3 duration_zero
         (retry_new system classify_result (\<lambda>_. counted (\<lambda>_. Err ''boom'' :: int_result)))) 0)
       (\<lambda>result x. result = Err (Error_Exhausted (Err ''boom'')) \<and> virtual_clock.more x = 3)"

definition decide_can_abort_on_a_projected_payload ::
    "bool \<Rightarrow> unit sync_clock \<Rightarrow> (panic + unit) option" where
  "decide_can_abort_on_a_projected_payload dbg system =
     asserted (call_virtual dbg (with_budget ARBITRARY_ATTEMPTS duration_zero
         (unwind (retry_new system classify_result (\<lambda>_. State_Monad.return (Err ''fatal'' :: int_result)))
           (\<lambda>r. Inr (set_decide r verdict_into_verdict (\<lambda>o'. State_Monad.return
              (case o' of Ok v \<Rightarrow> Return v
               | Err e \<Rightarrow> if e = ''fatal'' then Abort ''boom'' else Retry o')))))) ())
       (\<lambda>result _. result = Err (Error_Aborted ''boom''))"

definition decide_returns_the_sought_error_through_ok ::
    "bool \<Rightarrow> int sync_clock \<Rightarrow> (panic + unit) option" where
  "decide_returns_the_sought_error_through_ok dbg system =
     asserted (call_virtual dbg (with_budget 10 duration_zero
         (unwind (retry_new system classify_result
             (\<lambda>_. counted (\<lambda>n. if n \<ge> 3 then Err ''crash'' else Ok () :: (unit, string) result)))
           (\<lambda>r. Inr (set_decide r decision_into_verdict (\<lambda>o'. State_Monad.return
              (case o' of Err e \<Rightarrow> DReturn e | Ok _ \<Rightarrow> DRetry o')))))) 0)
       (\<lambda>result x. (result :: (string, (unit, (unit, string) result) retry_error) result) = Ok ''crash''
          \<and> virtual_clock.more x = 3)"

datatype test_status = Status_Pending | Status_Done

definition until_polls_a_result_until_ready :: "bool \<Rightarrow> int sync_clock \<Rightarrow> (panic + unit) option" where
  "until_polls_a_result_until_ready dbg system =
     asserted (call_virtual dbg (with_budget ARBITRARY_ATTEMPTS duration_zero
         (unwind (retry_new system classify_result
             (\<lambda>_. counted (\<lambda>n. Ok (if n \<ge> 2 then Status_Done else Status_Pending) :: (test_status, string) result)))
           (\<lambda>r. Inr (set_until r (ok (\<lambda>s. State_Monad.return (s = Status_Done))))))) 0)
       (\<lambda>result x. result = Ok Status_Done \<and> virtual_clock.more x = 2)"

definition when_aborts_on_a_rejected_error :: "bool \<Rightarrow> unit sync_clock \<Rightarrow> (panic + unit) option" where
  "when_aborts_on_a_rejected_error dbg system =
     asserted (call_virtual dbg (with_budget ARBITRARY_ATTEMPTS duration_zero
         (unwind (retry_new system classify_result (\<lambda>_. State_Monad.return (Err ''fatal'' :: int_result)))
           (\<lambda>r. Inr (set_when r (error (\<lambda>e. State_Monad.return (e = ''transient''))))))) ())
       (\<lambda>result _. result = Err (Error_Aborted ''fatal''))"

definition owned_outcome_type_returns_via_the_default_path ::
    "bool \<Rightarrow> int sync_clock \<Rightarrow> (panic + unit) option" where
  "owned_outcome_type_returns_via_the_default_path dbg system =
     asserted (call_virtual dbg (with_budget ARBITRARY_ATTEMPTS duration_zero
         (retry_new system test_poll_classify
           (\<lambda>_. counted (\<lambda>n. if n \<ge> 3 then Poll_Ready 9 else Poll_Pending)))) 0)
       (\<lambda>result x. result = Ok 9 \<and> virtual_clock.more x = 3)"

definition owned_outcome_type_aborts_via_the_default_path ::
    "bool \<Rightarrow> unit sync_clock \<Rightarrow> (panic + unit) option" where
  "owned_outcome_type_aborts_via_the_default_path dbg system =
     asserted (call_virtual dbg (with_budget ARBITRARY_ATTEMPTS duration_zero
         (retry_new system test_poll_classify (\<lambda>_. State_Monad.return (Poll_Failed ''io'')))) ())
       (\<lambda>result _. result = Err (Error_Aborted ''io''))"

text \<open>The stateless operation, with and without \<open>.until\<close>.\<close>

definition retry_ext_starts_from_a_no_arg_closure :: "bool \<Rightarrow> int sync_clock \<Rightarrow> (panic + unit) option" where
  "retry_ext_starts_from_a_no_arg_closure dbg system =
     asserted (call_virtual dbg (with_budget ARBITRARY_ATTEMPTS duration_zero
         (retry_ext system classify_result (counted (\<lambda>n. if n \<ge> 2 then Ok 5 else Err ''x'' :: int_result)))) 0)
       (\<lambda>result x. result = Ok 5 \<and> virtual_clock.more x = 2)"

definition retry_ext_supports_the_classifier_surface :: "bool \<Rightarrow> int sync_clock \<Rightarrow> (panic + unit) option" where
  "retry_ext_supports_the_classifier_surface dbg system =
     asserted (call_virtual dbg (with_budget ARBITRARY_ATTEMPTS duration_zero
         (unwind (retry_ext system classify_result (counted (\<lambda>n. Ok n :: int_result)))
           (\<lambda>r. Inr (set_until r (ok (\<lambda>v. State_Monad.return (v \<ge> 3))))))) 0)
       (\<lambda>result _. result = Ok 3)"

lemma retries_on_err_passes: "passed (retries_on_err_then_returns_the_ok_value dbg system)"
  unfolding retries_on_err_then_returns_the_ok_value_def
  by (rule counted_test [where vf = classify_result and k = 2 and m = 5 and res = "Ok 7" and d = duration_zero
        and g = "\<lambda>n. if n \<ge> 2 then Ok 7 else Err ''not yet''"])
    (simp add: test_defs, simp_all add: test_defs spec_eval)

lemma exhausts_passes: "passed (exhausts_with_the_final_outcome_when_stop_fires dbg system)"
  unfolding exhausts_with_the_final_outcome_when_stop_fires_def
  by (rule counted_test [where vf = "classify_result" and k = 3 and m = 3
        and res = "Err (Error_Exhausted (Err ''boom''))" and d = duration_zero and g = "\<lambda>_. Err ''boom''"])
    (simp add: test_defs, simp_all add: test_defs spec_eval split: result.split)

lemma decide_aborts_passes: "passed (decide_can_abort_on_a_projected_payload dbg system)"
  unfolding decide_can_abort_on_a_projected_payload_def
  by (rule constant_test [where vf = "\<lambda>o'. case o' of Ok v \<Rightarrow> Return v
        | Err e \<Rightarrow> if e = ''fatal'' then Abort ''boom'' else Retry o'" and k = 1 and m = 5
        and res = "Err (Error_Aborted ''boom'')" and d = duration_zero and oc = "Err ''fatal''"])
    (simp add: test_defs, simp_all add: test_defs spec_eval split: result.split)

lemma decide_returns_passes: "passed (decide_returns_the_sought_error_through_ok dbg system)"
  unfolding decide_returns_the_sought_error_through_ok_def
  by (rule counted_test [where vf = "\<lambda>o'. case o' of Err e \<Rightarrow> Return e | Ok _ \<Rightarrow> Retry o'" and k = 3 and m = 10
        and res = "Ok ''crash''" and d = duration_zero and g = "\<lambda>n. if n \<ge> 3 then Err ''crash'' else Ok ()"])
    (simp add: test_defs, simp_all add: test_defs spec_eval split: result.split)

lemma until_polls_passes: "passed (until_polls_a_result_until_ready dbg system)"
  unfolding until_polls_a_result_until_ready_def
  by (rule counted_test [where vf = "\<lambda>o'. case o' of Ok s \<Rightarrow> if s = Status_Done then Return s else Retry o' | Err _ \<Rightarrow> Retry o'" and k = 2 and m = 5
        and res = "Ok Status_Done" and d = duration_zero and g = "\<lambda>n. Ok (if n \<ge> 2 then Status_Done else Status_Pending)"])
    (simp add: test_defs, simp_all add: test_defs spec_eval split: result.split)

lemma when_aborts_passes: "passed (when_aborts_on_a_rejected_error dbg system)"
  unfolding when_aborts_on_a_rejected_error_def
  by (rule constant_test [where vf = "\<lambda>o'. case o' of Ok v \<Rightarrow> Return v
        | Err e \<Rightarrow> if e = ''transient'' then Retry o' else Abort e" and k = 1 and m = 5
        and res = "Err (Error_Aborted ''fatal'')" and d = duration_zero and oc = "Err ''fatal''"])
    (simp add: test_defs, simp_all add: test_defs spec_eval split: result.split)

lemma owned_returns_passes: "passed (owned_outcome_type_returns_via_the_default_path dbg system)"
  unfolding owned_outcome_type_returns_via_the_default_path_def
  by (rule counted_test [where vf = "test_poll_classify" and k = 3 and m = 5
        and res = "Ok 9" and d = duration_zero and g = "\<lambda>n. if n \<ge> 3 then Poll_Ready 9 else Poll_Pending"])
    (simp add: test_defs, simp_all add: test_defs spec_eval split: result.split)

lemma owned_aborts_passes: "passed (owned_outcome_type_aborts_via_the_default_path dbg system)"
  unfolding owned_outcome_type_aborts_via_the_default_path_def
  by (rule constant_test [where vf = "test_poll_classify" and k = 1 and m = 5
        and res = "Err (Error_Aborted ''io'')" and d = duration_zero and oc = "Poll_Failed ''io''"])
    (simp add: test_defs, simp_all add: test_defs spec_eval split: result.split)

lemma ext_starts_passes: "passed (retry_ext_starts_from_a_no_arg_closure dbg system)"
  unfolding retry_ext_starts_from_a_no_arg_closure_def
  by (rule counted_test [where vf = "classify_result" and k = 2 and m = 5
        and res = "Ok 5" and d = duration_zero and g = "\<lambda>n. if n \<ge> 2 then Ok 5 else Err ''x''"])
    (simp add: test_defs, simp_all add: test_defs spec_eval split: result.split)

lemma ext_until_passes: "passed (retry_ext_supports_the_classifier_surface dbg system)"
  unfolding retry_ext_supports_the_classifier_surface_def
  by (rule counted_test [where vf = "\<lambda>o'. case o' of Ok v \<Rightarrow> if v \<ge> 3 then Return v else Retry o' | Err _ \<Rightarrow> Retry o'" and k = 3 and m = 5
        and res = "Ok 3" and d = duration_zero and g = "\<lambda>n. Ok n"])
    (simp add: test_defs, simp_all add: test_defs spec_eval split: result.split)

subsection \<open>Hooks\<close>

record hook_cells =
  hc_before :: u32
  hc_after :: u32
  hc_last_ok :: bool
  hc_counter :: int

definition after_attempt_fires_before_classification_on_every_attempt ::
    "bool \<Rightarrow> hook_cells sync_clock \<Rightarrow> (panic + unit) option" where
  "after_attempt_fires_before_classification_on_every_attempt dbg system =
     asserted (call_virtual dbg (with_budget ARBITRARY_ATTEMPTS duration_zero
         (unwind (retry_new system classify_result (\<lambda>_. State (\<lambda>c.
              let n = hc_counter c + 1
              in (if n \<ge> 2 then Ok 7 else Err ''x'' :: int_result, c\<lparr>hc_counter := n\<rparr>))))
           (\<lambda>r. Inr (after_attempt
              (before_attempt r (\<lambda>_. State (\<lambda>c. ((), c\<lparr>hc_before := hc_before c + 1\<rparr>))))
              (\<lambda>s. State (\<lambda>c. ((), c\<lparr>hc_after := hc_after c + 1, hc_last_ok := result_err (as_outcome s) = None\<rparr>)))))))
         \<lparr>hc_before = 0, hc_after = 0, hc_last_ok = False, hc_counter = 0\<rparr>)
       (\<lambda>result x. result = Ok 7 \<and> hc_before (virtual_clock.more x) = 2
          \<and> hc_after (virtual_clock.more x) = 2 \<and> hc_last_ok (virtual_clock.more x))"

definition on_exit_reports_returned_with_the_final_attempt_count ::
    "bool \<Rightarrow> (stop_reason \<times> u32) option sync_clock \<Rightarrow> (panic + unit) option" where
  "on_exit_reports_returned_with_the_final_attempt_count dbg system =
     asserted (call_virtual dbg (with_budget ARBITRARY_ATTEMPTS duration_zero
         (unwind (retry_new system classify_result (\<lambda>_. State_Monad.return (Ok 1 :: int_result)))
           (\<lambda>r. Inr (on_exit r (\<lambda>e. State (\<lambda>_. ((), Some (exit_stop_reason e, exit_attempt e)))))))) None)
       (\<lambda>_ x. virtual_clock.more x = Some (Returned, 1))"

definition on_exit_reports_aborted_from_a_rejected_error ::
    "bool \<Rightarrow> stop_reason option sync_clock \<Rightarrow> (panic + unit) option" where
  "on_exit_reports_aborted_from_a_rejected_error dbg system =
     asserted (call_virtual dbg (with_budget 3 duration_zero
         (unwind (retry_new system classify_result (\<lambda>_. State_Monad.return (Err ''fatal'' :: int_result)))
           (\<lambda>r. Inr (on_exit (set_when r (error (\<lambda>e. State_Monad.return (e = ''transient''))))
              (\<lambda>e. State (\<lambda>_. ((), Some (exit_stop_reason e)))))))) None)
       (\<lambda>_ x. virtual_clock.more x = Some Aborted)"

text \<open>The cells \<open>reason\<close> and \<open>after\<close>.\<close>

definition on_exit_reports_exhausted_after_the_full_stop_budget ::
    "bool \<Rightarrow> (stop_reason option \<times> u32) sync_clock \<Rightarrow> (panic + unit) option" where
  "on_exit_reports_exhausted_after_the_full_stop_budget dbg system =
     asserted (call_virtual dbg (with_budget 3 duration_zero
         (unwind (retry_new system classify_result (\<lambda>_. State_Monad.return (Err ''boom'' :: int_result)))
           (\<lambda>r. Inr (on_exit
              (after_attempt r (\<lambda>_. State (\<lambda>(reason, after). ((), (reason, after + 1)))))
              (\<lambda>e. State (\<lambda>(_, after). ((), (Some (exit_stop_reason e), after)))))))) (None, 0))
       (\<lambda>_ x. virtual_clock.more x = (Some Exhausted, 3))"

lemmas hook_test_defs = test_defs on_exit_def after_attempt_def before_attempt_def chain_on_exit_def
  chain_after_attempt_def chain_before_attempt_def

lemma after_attempt_fires_passes:
  "passed (after_attempt_fires_before_classification_on_every_attempt dbg system)"
  unfolding after_attempt_fires_before_classification_on_every_attempt_def
  by (rule pages_test [where vf = classify_result and k = 2 and m = 5 and res = "Ok 7" and d = duration_zero
        and f = "\<lambda>n. if n \<ge> 2 then Ok 7 else Err ''x''"
        and before = "\<lambda>n c. c = \<lparr>hc_before = of_nat n - 1, hc_after = of_nat n - 1, hc_last_ok = (n > 2), hc_counter = int n - 1\<rparr>"
        and ready = "\<lambda>n c. c = \<lparr>hc_before = of_nat n, hc_after = of_nat n - 1, hc_last_ok = (n > 2), hc_counter = int n - 1\<rparr>"
        and answered = "\<lambda>n c. c = \<lparr>hc_before = of_nat n, hc_after = of_nat n - 1, hc_last_ok = (n > 2), hc_counter = int n\<rparr>"])
    (simp add: hook_test_defs, auto simp: hook_test_defs spec_eval follows_pages_def Let_def)

lemma on_exit_returned_passes: "passed (on_exit_reports_returned_with_the_final_attempt_count dbg system)"
  unfolding on_exit_reports_returned_with_the_final_attempt_count_def
  by (rule pages_test [where vf = classify_result and k = 1 and m = 5 and res = "Ok 1" and d = duration_zero
        and f = "\<lambda>_. Ok 1" and before = "\<lambda>_ _. True" and ready = "\<lambda>_ _. True" and answered = "\<lambda>_ _. True"])
    (simp add: hook_test_defs, auto simp: hook_test_defs spec_eval follows_pages_def verdict_exit_def)

lemma on_exit_aborted_passes: "passed (on_exit_reports_aborted_from_a_rejected_error dbg system)"
  unfolding on_exit_reports_aborted_from_a_rejected_error_def
  by (rule pages_test [where vf = "\<lambda>o'. case o' of Ok v \<Rightarrow> Return v
          | Err e \<Rightarrow> if e = ''transient'' then Retry o' else Abort e"
        and k = 1 and m = 3 and res = "Err (Error_Aborted ''fatal'')" and d = duration_zero
        and f = "\<lambda>_. Err ''fatal''" and before = "\<lambda>_ _. True" and ready = "\<lambda>_ _. True" and answered = "\<lambda>_ _. True"])
    (simp add: hook_test_defs, auto simp: hook_test_defs spec_eval follows_pages_def verdict_exit_def split: result.split)

lemma on_exit_exhausted_passes: "passed (on_exit_reports_exhausted_after_the_full_stop_budget dbg system)"
  unfolding on_exit_reports_exhausted_after_the_full_stop_budget_def
  by (rule pages_test [where vf = classify_result and k = 3 and m = 3 and d = duration_zero
        and res = "Err (Error_Exhausted (Err ''boom''))" and f = "\<lambda>_. Err ''boom''"
        and before = "\<lambda>n c. snd c = of_nat n - 1" and ready = "\<lambda>n c. snd c = of_nat n - 1"
        and answered = "\<lambda>n c. snd c = of_nat n - 1"])
    (simp add: hook_test_defs, auto simp: hook_test_defs spec_eval follows_pages_def verdict_exit_def case_prod_beta)

subsection \<open>Statistics and the timeout\<close>

definition with_stats_reports_attempts_wait_elapsed_and_reason ::
    "bool \<Rightarrow> unit sync_clock \<Rightarrow> (panic + unit) option" where
  "with_stats_reports_attempts_wait_elapsed_and_reason dbg system =
     asserted (call_virtual_with_stats dbg (with_budget 3 (from_millis 5)
         (retry_new system classify_result (\<lambda>_. State_Monad.return (Err ''boom'' :: int_result)))) ())
       (\<lambda>(result, stats) _. result = Err (Error_Exhausted (Err ''boom'')) \<and> rs_attempts stats = 3
          \<and> rs_total_wait stats = from_millis 10 \<and> rs_total_elapsed stats = from_millis 10
          \<and> rs_stop_reason stats = Exhausted)"

definition timeout_stops_the_loop_once_the_budget_is_exceeded ::
    "bool \<Rightarrow> unit sync_clock \<Rightarrow> (panic + unit) option" where
  "timeout_stops_the_loop_once_the_budget_is_exceeded dbg system =
     asserted (call_virtual_with_stats dbg
         (unwind (with_budget 100 (from_millis 10)
             (retry_new system classify_result (\<lambda>_. State_Monad.return (Err ''x'' :: int_result))))
           (\<lambda>r. Inr (set_timeout r (from_millis 25)))) ())
       (\<lambda>(result, stats) _. (case result of Err (Error_Exhausted _) \<Rightarrow> True | _ \<Rightarrow> False)
          \<and> rs_attempts stats = 4 \<and> rs_total_elapsed stats = from_millis 25
          \<and> rs_total_wait stats = from_millis 25 \<and> rs_stop_reason stats = Exhausted)"

text \<open>A constant failure, whose statistics are the schedule's.\<close>

lemma failing_schedule_test:
  fixes b :: "panic + (unit, int_result, int, string) sync_retry"
  assumes b: "b = Inr r" and r: "plain_observers r classify_result"
      "rt_op r = OpFn (\<lambda>_. State_Monad.return (Err e))" "rt_hooks r = execution_hooks_new"
    and n: "n < 4294967295"
    and ends: "run_ends classify_result (stop_test (rt_stop r)) (rt_timeout r) (Err e :: int_result)
        (schedule_state duration_zero (schedule (wait_lower (rt_wait r)) (rt_timeout r) duration_zero n))"
      "\<forall>k < n. \<not> run_ends classify_result (stop_test (rt_stop r)) (rt_timeout r) (Err e :: int_result)
        (schedule_state duration_zero (schedule (wait_lower (rt_wait r)) (rt_timeout r) duration_zero k))"
    and check: "p (Err (Error_Exhausted (Err e)))
      \<lparr>rs_attempts = of_nat (Suc n), rs_total_elapsed = st_elapsed (schedule_state duration_zero
           (schedule (wait_lower (rt_wait r)) (rt_timeout r) duration_zero n)),
       rs_total_wait = foldl saturating_add duration_zero
           (schedule (wait_lower (rt_wait r)) (rt_timeout r) duration_zero n), rs_stop_reason = Exhausted\<rparr>"
  shows "passed (asserted (call_virtual_with_stats dbg b ()) (\<lambda>(result, stats) _. p result stats))"
proof -
  have "follows_script r (\<lambda>_. Err e) (\<lambda>_ _. True)" by (simp add: follows_script_def r)
  have now: "vc_now (virtual_world ()) = duration_zero" by (simp add: virtual_world_def)
  from virtual_schedule_run [OF r(1) \<open>follows_script r (\<lambda>_. Err e) (\<lambda>_ _. True)\<close> TrueI n _ _ refl,
      where x = "virtual_world ()" and dbg = dbg, unfolded now, OF ends]
  obtain w x' where "run dbg (on_virtual_clock r) (virtual_world ()) =
      Some (Inr ((Err (Error_Exhausted (Err e)),
        \<lparr>rs_attempts = of_nat (Suc n), rs_total_elapsed = st_elapsed (schedule_state duration_zero
             (schedule (wait_lower (rt_wait r)) (rt_timeout r) duration_zero n)),
         rs_total_wait = foldl saturating_add duration_zero
             (schedule (wait_lower (rt_wait r)) (rt_timeout r) duration_zero n), rs_stop_reason = Exhausted\<rparr>), w), x')"
    by (auto simp: classify_result_def verdict_result_def result_stop_reason_def simp del: of_nat_Suc)
  from call_with_stats_of_run [OF this] check show ?thesis
    by (simp add: call_virtual_with_stats_def b asserted_passed)
qed

lemmas stats_test_eval = test_defs set_timeout_def spec_eval schedule_eval stop_test_def word_le_nat_alt

lemma with_stats_passes: "passed (with_stats_reports_attempts_wait_elapsed_and_reason dbg system)"
  unfolding with_stats_reports_attempts_wait_elapsed_and_reason_def
  by (rule failing_schedule_test [where n = 2 and e = "''boom''"])
    (simp add: test_defs, simp_all add: stats_test_eval)

lemma timeout_stops_passes: "passed (timeout_stops_the_loop_once_the_budget_is_exceeded dbg system)"
  unfolding timeout_stops_the_loop_once_the_budget_is_exceeded_def
  by (rule failing_schedule_test [where n = 3 and e = "''x''"])
    (simp add: test_defs set_timeout_def, simp_all add: stats_test_eval)

subsection \<open>All of them\<close>

definition sync_tests_pass :: "bool \<Rightarrow> bool" where
  "sync_tests_pass dbg \<longleftrightarrow>
     (\<forall>system. passed (retries_on_err_then_returns_the_ok_value dbg system)
        \<and> passed (exhausts_with_the_final_outcome_when_stop_fires dbg system)
        \<and> passed (decide_returns_the_sought_error_through_ok dbg system)
        \<and> passed (until_polls_a_result_until_ready dbg system)
        \<and> passed (owned_outcome_type_returns_via_the_default_path dbg system)
        \<and> passed (retry_ext_starts_from_a_no_arg_closure dbg system)
        \<and> passed (retry_ext_supports_the_classifier_surface dbg system))
     \<and> (\<forall>system. passed (decide_can_abort_on_a_projected_payload dbg system)
        \<and> passed (when_aborts_on_a_rejected_error dbg system)
        \<and> passed (owned_outcome_type_aborts_via_the_default_path dbg system)
        \<and> passed (with_stats_reports_attempts_wait_elapsed_and_reason dbg system)
        \<and> passed (timeout_stops_the_loop_once_the_budget_is_exceeded dbg system))
     \<and> (\<forall>system. passed (after_attempt_fires_before_classification_on_every_attempt dbg system))
     \<and> (\<forall>system. passed (on_exit_reports_returned_with_the_final_attempt_count dbg system))
     \<and> (\<forall>system. passed (on_exit_reports_aborted_from_a_rejected_error dbg system))
     \<and> (\<forall>system. passed (on_exit_reports_exhausted_after_the_full_stop_budget dbg system))"

lemma sync_tests: "sync_tests_pass dbg"
  unfolding sync_tests_pass_def
  by (intro conjI allI retries_on_err_passes exhausts_passes decide_returns_passes until_polls_passes
      owned_returns_passes ext_starts_passes ext_until_passes decide_aborts_passes when_aborts_passes
      owned_aborts_passes with_stats_passes timeout_stops_passes after_attempt_fires_passes
      on_exit_returned_passes on_exit_aborted_passes on_exit_exhausted_passes)

end
