(* ===== verification/Tests_Async.thy ===== *)
theory Tests_Async
  imports Tests_Sync Async_Call
begin

text \<open>
  The unit tests of the async engine, in \<open>src/src/engine/async_engine.rs\<close>, run on the model with
  the executor of those tests. Each is carried over from the sync engine, which the async one
  is on the virtual clock.
\<close>

subsection \<open>What the tests share\<close>

text \<open>A closure on the captured cells that returns an \<open>async move\<close> block.\<close>

definition async_closure ::
    "('y, 'o) state \<Rightarrow> ('y virtual_clock_scheme, ('y virtual_clock_scheme, 'o) future) state" where
  "async_closure m = map_state ready_future (lift_state virtual_clock.more put_virtual m)"

text \<open>\<open>.stop(stop::attempts(bound)).wait(wait::fixed(dur)).clock(&clock)\<close>\<close>

definition with_async_budget ::
    "u32 \<Rightarrow> duration \<Rightarrow>
     panic + (('x virtual_clock_scheme, ('x virtual_clock_scheme, 'o) future) retry_op,
       ('x virtual_clock_scheme, 'o, 'r, 'a) classifier, 'x virtual_clock_scheme stop_strategy,
       'x virtual_clock_scheme wait_strategy, unit, ('x virtual_clock_scheme, retry_state) hook,
       ('x virtual_clock_scheme, 'o attempt_state) hook, ('x virtual_clock_scheme, ('r, 'a, 'o) exit) hook) async_retry \<Rightarrow>
     panic + ('x virtual_clock_scheme, 'o, 'r, 'a) filled_async_retry" where
  "with_async_budget bound dur b =
     unwind b (\<lambda>r. unwind (attempts bound) (\<lambda>stop.
       Inr (async_set_clock (async_set_wait (async_set_stop r stop) (fixed dur)) virtual_async_clock)))"

text \<open>\<open>block_on(... .call())\<close> and \<open>block_on(... .with_stats().call())\<close> on a fresh clock.\<close>

definition block_on_call ::
    "bool \<Rightarrow> panic + ('y virtual_clock_scheme, 'o, 'r, 'a) filled_async_retry \<Rightarrow> 'y \<Rightarrow>
     ((panic + ('r, ('a, 'o) retry_error) result) \<times> 'y virtual_clock_scheme) option" where
  "block_on_call dbg b y =
     (case b of Inl p \<Rightarrow> Some (Inl p, virtual_world y)
      | Inr a \<Rightarrow> map_option (\<lambda>((answer, _), x). (answer, x))
          (drive (drop_stats_poll (async_poll dbg)) (State_Monad.return ()) (async_call a) (virtual_world y)))"

definition block_on_call_with_stats ::
    "bool \<Rightarrow> panic + ('y virtual_clock_scheme, 'o, 'r, 'a) filled_async_retry \<Rightarrow> 'y \<Rightarrow>
     ((panic + ('r, ('a, 'o) retry_error) result \<times> retry_stats) \<times> 'y virtual_clock_scheme) option" where
  "block_on_call_with_stats dbg b y =
     (case b of Inl p \<Rightarrow> Some (Inl p, virtual_world y)
      | Inr a \<Rightarrow> map_option (\<lambda>((answer, _), x). (answer, x))
          (async_block_on dbg (State_Monad.return ()) (async_call_with_stats (async_with_stats a)) (virtual_world y)))"

lemma on_virtual_again: "set_clock (on_virtual_clock r) virtual_sync_clock = on_virtual_clock r"
  by (simp add: on_virtual_clock_def set_clock_def)

lemma block_on_call_with_stats_run:
  "block_on_call_with_stats dbg (Inr (async_of (on_virtual_clock r) virtual_async_clock)) y =
     map_option (\<lambda>(e, x). (map_sum id fst e, x)) (run dbg (on_virtual_clock r) (virtual_world y))"
  using virtual_async_parity [of dbg "State_Monad.return ()" "on_virtual_clock r" "virtual_world y"]
  by (simp add: block_on_call_with_stats_def async_call_with_stats_def async_with_stats_def
      on_virtual_again case_prod_beta)

lemma block_on_call_run:
  "block_on_call dbg (Inr (async_of (on_virtual_clock r) virtual_async_clock)) y =
     call_virtual dbg (Inr r) y"
proof -
  have "block_on_call dbg (Inr (async_of (on_virtual_clock r) virtual_async_clock)) y =
      map_option (\<lambda>(e, x). (map_sum id fst e, x))
        (block_on_call_with_stats dbg (Inr (async_of (on_virtual_clock r) virtual_async_clock)) y)"
    by (simp add: block_on_call_def block_on_call_with_stats_def async_call_answers option.map_comp
        comp_def case_prod_beta)
  also have "\<dots> = call_virtual dbg (Inr r) y"
    unfolding block_on_call_with_stats_run call_virtual_def call_def
    by (cases "run dbg (on_virtual_clock r) (virtual_world y)")
      (auto simp: sum.map_comp comp_def id_def)
  finally show ?thesis .
qed

text \<open>A sync retry with the tests' configuration, and its async counterpart.\<close>

definition plain_retry ::
    "('y, 'o) retry_op \<Rightarrow> ('o \<Rightarrow> ('r, 'a, 'o) verdict) \<Rightarrow> u32 \<Rightarrow> duration \<Rightarrow> ('y, 'o, 'r, 'a) hooks \<Rightarrow>
     ('y, 'o, 'r, 'a) sync_retry" where
  "plain_retry oper vf m d hooks =
     \<lparr>rt_op = oper, rt_classifier = (\<lambda>oc. State_Monad.return (vf oc)), rt_stop = StopAfterAttempts m,
      rt_wait = WaitFixed d,
      rt_clock = \<lparr>ck_now = State_Monad.return duration_zero, ck_wait = (\<lambda>_. State_Monad.return ())\<rparr>,
      rt_hooks = hooks, rt_timeout = None\<rparr>"

lemma lift_return: "lift_state virtual_clock.more put_virtual (State_Monad.return v) = State_Monad.return v"
  by (rule state_ext) (simp add: run_lift_state virtual_view.put_get)

lemma async_plain:
  "async_of (on_virtual_clock (plain_retry oper vf m d hooks)) virtual_async_clock =
     \<lparr>ac_op = async_op (lift_op virtual_clock.more put_virtual oper),
      ac_classifier = (\<lambda>oc. State_Monad.return (vf oc)), ac_stop = StopAfterAttempts m,
      ac_wait = WaitFixed d, ac_clock = virtual_async_clock,
      ac_hooks = \<lparr>hk_before_attempt = lift_hook virtual_clock.more put_virtual (hk_before_attempt hooks),
        hk_after_attempt = lift_hook virtual_clock.more put_virtual (hk_after_attempt hooks),
        hk_on_exit = lift_hook virtual_clock.more put_virtual (hk_on_exit hooks)\<rparr>,
      ac_timeout = None\<rparr>"
  by (simp add: async_of_def on_virtual_clock_def set_clock_def lift_retry_def plain_retry_def lift_return)

lemma async_counted_test:
  assumes b: "b = Inr (async_of (on_virtual_clock (plain_retry oper vf m d execution_hooks_new)) virtual_async_clock)"
    and "oper = OpFn (\<lambda>_. counted g) \<or> oper = StatelessOp (counted g)" and "m \<noteq> 0"
    and "spec_run (unat m) (\<lambda>n. vf (g (int n))) = (res, k)" and "p res (int k)"
  shows "passed (asserted (block_on_call dbg b 0) (\<lambda>res x. p res (virtual_clock.more x)))"
  unfolding b block_on_call_run
  by (rule counted_test [OF refl, where vf = vf and m = m and d = d and g = g and res = res and k = k])
    (use assms in \<open>simp_all add: plain_observers_def plain_retry_def\<close>)

lemma async_constant_test:
  assumes b: "b = Inr (async_of (on_virtual_clock
      (plain_retry (OpFn (\<lambda>_. State_Monad.return oc)) vf m d execution_hooks_new)) virtual_async_clock)"
    and "m \<noteq> 0" and "spec_run (unat m) (\<lambda>_. vf oc) = (res, k)" and "p res"
  shows "passed (asserted (block_on_call dbg b ()) (\<lambda>res _. p res))"
  unfolding b block_on_call_run
  by (rule constant_test [OF refl, where vf = vf and m = m and d = d and oc = oc and res = res and k = k])
    (use assms in \<open>simp_all add: plain_observers_def plain_retry_def\<close>)

lemmas async_test_defs = with_async_budget_def retry_async_def retry_async_ext_def async_from_op_def
  attempts_Inr async_builder_defs fixed_def exponential_def async_plain async_closure_def
  ASYNC_DEFAULT_MAX_ATTEMPTS_def ASYNC_DEFAULT_INITIAL_WAIT_def ARBITRARY_ATTEMPTS_def
  async_decide_def async_until_def default_decide_def closure_decide_def until_decide_def ok_def
  decision_into_verdict_def verdict_into_verdict_def execution_hooks_new_def

subsection \<open>The tests\<close>

definition async_retry_ext_starts_from_a_no_arg_closure :: "bool \<Rightarrow> (panic + unit) option" where
  "async_retry_ext_starts_from_a_no_arg_closure dbg =
     asserted (block_on_call dbg (with_async_budget ARBITRARY_ATTEMPTS duration_zero
         (retry_async_ext () classify_result
           (async_closure (counted (\<lambda>n. if n \<ge> 2 then Ok 5 else Err ''x'' :: int_result))))) 0)
       (\<lambda>result x. result = Ok 5 \<and> virtual_clock.more x = 2)"

lemma async_ext_passes: "passed (async_retry_ext_starts_from_a_no_arg_closure dbg)"
  unfolding async_retry_ext_starts_from_a_no_arg_closure_def
  by (rule async_counted_test [where vf = classify_result and k = 2 and m = 5 and res = "Ok 5" and d = duration_zero
        and g = "\<lambda>n. if n \<ge> 2 then Ok 5 else Err ''x''"
        and oper = "StatelessOp (counted (\<lambda>n. if n \<ge> 2 then Ok 5 else Err ''x''))"])
    (simp_all add: async_test_defs spec_eval fun_eq_iff)

definition async_default_path_retries_then_returns_ok :: "bool \<Rightarrow> (panic + unit) option" where
  "async_default_path_retries_then_returns_ok dbg =
     asserted (block_on_call dbg (with_async_budget ARBITRARY_ATTEMPTS duration_zero
         (retry_async () classify_result
           (\<lambda>_. async_closure (counted (\<lambda>n. if n \<ge> 2 then Ok 7 else Err ''x'' :: int_result))))) 0)
       (\<lambda>result x. result = Ok 7 \<and> virtual_clock.more x = 2)"

definition async_decide_infers_through_fut_output :: "bool \<Rightarrow> (panic + unit) option" where
  "async_decide_infers_through_fut_output dbg =
     asserted (block_on_call dbg (with_async_budget ARBITRARY_ATTEMPTS duration_zero
         (unwind (retry_async () classify_result
             (\<lambda>_. async_closure (State_Monad.return (Err ''fatal'' :: int_result))))
           (\<lambda>r. Inr (async_decide r verdict_into_verdict (\<lambda>o'. State_Monad.return
              (case o' of Ok v \<Rightarrow> Return v
               | Err e \<Rightarrow> if e = ''fatal'' then Abort ''boom'' else Retry o')))))) ())
       (\<lambda>result _. result = Err (Error_Aborted ''boom''))"

definition async_decide_returns_sought_error_through_ok :: "bool \<Rightarrow> (panic + unit) option" where
  "async_decide_returns_sought_error_through_ok dbg =
     asserted (block_on_call dbg (with_async_budget 10 duration_zero
         (unwind (retry_async () classify_result
             (\<lambda>_. async_closure (counted (\<lambda>n. if n \<ge> 3 then Err ''crash'' else Ok () :: (unit, string) result))))
           (\<lambda>r. Inr (async_decide r decision_into_verdict (\<lambda>o'. State_Monad.return
              (case o' of Err e \<Rightarrow> DReturn e | Ok _ \<Rightarrow> DRetry o')))))) 0)
       (\<lambda>result x. (result :: (string, (unit, (unit, string) result) retry_error) result) = Ok ''crash''
          \<and> virtual_clock.more x = 3)"

definition async_until_polls_a_result :: "bool \<Rightarrow> (panic + unit) option" where
  "async_until_polls_a_result dbg =
     asserted (block_on_call dbg (with_async_budget ARBITRARY_ATTEMPTS duration_zero
         (unwind (retry_async () classify_result (\<lambda>_. async_closure (counted (\<lambda>n. Ok n :: int_result))))
           (\<lambda>r. Inr (async_until r (ok (\<lambda>v. State_Monad.return (v \<ge> 3))))))) 0)
       (\<lambda>result x. result = Ok 3 \<and> virtual_clock.more x = 3)"

text \<open>The hook is a closure on the cell \<open>reason\<close>.\<close>

definition async_with_stats_and_on_exit_match_the_sync_engine :: "bool \<Rightarrow> (panic + unit) option" where
  "async_with_stats_and_on_exit_match_the_sync_engine dbg =
     asserted (block_on_call_with_stats dbg (with_async_budget 3 (from_millis 5)
         (unwind (retry_async () classify_result
             (\<lambda>_. async_closure (State_Monad.return (Err ''boom'' :: int_result))))
           (\<lambda>r. Inr (async_on_exit r (\<lambda>e. lift_state virtual_clock.more put_virtual
              (State (\<lambda>_. ((), Some (exit_stop_reason e))))))))) None)
       (\<lambda>(result, stats) x. result = Err (Error_Exhausted (Err ''boom'')) \<and> rs_attempts stats = 3
          \<and> rs_total_wait stats = from_millis 10 \<and> virtual_clock.more x = Some Exhausted)"

lemma async_default_passes: "passed (async_default_path_retries_then_returns_ok dbg)"
  unfolding async_default_path_retries_then_returns_ok_def
  by (rule async_counted_test [where vf = "classify_result" and k = 2 and m = 5
        and res = "Ok 7" and d = duration_zero and g = "\<lambda>n. if n \<ge> 2 then Ok 7 else Err ''x''"
        and oper = "OpFn (\<lambda>_. counted (\<lambda>n. if n \<ge> 2 then Ok 7 else Err ''x''))"])
    (simp_all add: async_test_defs lift_return spec_eval fun_eq_iff split: result.split)

lemma async_decide_aborts_passes: "passed (async_decide_infers_through_fut_output dbg)"
  unfolding async_decide_infers_through_fut_output_def
  by (rule async_constant_test [where vf = "\<lambda>o'. case o' of Ok v \<Rightarrow> Return v
        | Err e \<Rightarrow> if e = ''fatal'' then Abort ''boom'' else Retry o'" and k = 1 and m = 5
        and res = "Err (Error_Aborted ''boom'')" and d = duration_zero and oc = "Err ''fatal''"])
    (simp_all add: async_test_defs lift_return spec_eval fun_eq_iff split: result.split)

lemma async_decide_returns_passes: "passed (async_decide_returns_sought_error_through_ok dbg)"
  unfolding async_decide_returns_sought_error_through_ok_def
  by (rule async_counted_test [where vf = "\<lambda>o'. case o' of Err e \<Rightarrow> Return e | Ok _ \<Rightarrow> Retry o'" and k = 3 and m = 10
        and res = "Ok ''crash''" and d = duration_zero and g = "\<lambda>n. if n \<ge> 3 then Err ''crash'' else Ok ()"
        and oper = "OpFn (\<lambda>_. counted (\<lambda>n. if n \<ge> 3 then Err ''crash'' else Ok ()))"])
    (simp_all add: async_test_defs lift_return spec_eval fun_eq_iff split: result.split)

lemma async_until_passes: "passed (async_until_polls_a_result dbg)"
  unfolding async_until_polls_a_result_def
  by (rule async_counted_test [where vf = "\<lambda>o'. case o' of Ok v \<Rightarrow> if v \<ge> 3 then Return v else Retry o' | Err _ \<Rightarrow> Retry o'" and k = 3 and m = 5
        and res = "Ok 3" and d = duration_zero and g = "\<lambda>n. Ok n"
        and oper = "OpFn (\<lambda>_. counted (\<lambda>n. Ok n))"])
    (simp_all add: async_test_defs lift_return spec_eval fun_eq_iff split: result.split)

lemma async_stats_passes: "passed (async_with_stats_and_on_exit_match_the_sync_engine dbg)"
proof -
  define hooks :: "(stop_reason option, int_result, int, string) hooks" where
    "hooks = \<lparr>hk_before_attempt = HookUnit, hk_after_attempt = HookUnit, hk_on_exit =
       HookChain HookUnit (HookFn (\<lambda>e. State (\<lambda>_. ((), Some (exit_stop_reason e)))))\<rparr>"
  define r where "r = plain_retry (OpFn (\<lambda>_. State_Monad.return (Err ''boom''))) classify_result 3
    (from_millis 5) hooks"
  have build: "with_async_budget 3 (from_millis 5) (unwind (retry_async () classify_result
      (\<lambda>_. async_closure (State_Monad.return (Err ''boom'')))) (\<lambda>r. Inr (async_on_exit r (\<lambda>e.
        lift_state virtual_clock.more put_virtual (State (\<lambda>_. ((), Some (exit_stop_reason e)))))))) =
      Inr (async_of (on_virtual_clock r) virtual_async_clock)"
    by (simp add: r_def hooks_def async_test_defs async_on_exit_def chain_on_exit_def fun_eq_iff)
  have r: "plain_observers r classify_result" "follows_pages r (\<lambda>_. Err ''boom'') (\<lambda>_ _. True) (\<lambda>_ _. True) (\<lambda>_ _. True)"
      "rt_stop r = StopAfterAttempts 3" "rt_wait r = WaitFixed (from_millis 5)" "rt_timeout r = None"
      "rt_hooks r = hooks"
    by (simp_all add: r_def plain_retry_def plain_observers_def follows_pages_def)
  have "\<exists>w x'. run dbg (on_virtual_clock r) (virtual_world None) = Some (Inr ((Err (Error_Exhausted (Err ''boom'')),
      \<lparr>rs_attempts = 3, rs_total_elapsed = from_millis 10, rs_total_wait = from_millis 10,
       rs_stop_reason = Exhausted\<rparr>), w), x') \<and> virtual_clock.more x' = Some Exhausted"
    using virtual_pages_run [OF r(1,2), where x = "virtual_world None" and n = 2
        and ds = "[from_millis 5, from_millis 5]" and dbg = dbg]
    by (auto simp: r(3-6) hooks_def schedule_eval virtual_world_def stop_test_def word_le_nat_alt
        classify_result_def verdict_result_def result_stop_reason_def verdict_exit_def)
  then show ?thesis
    unfolding async_with_stats_and_on_exit_match_the_sync_engine_def build block_on_call_with_stats_run
    by (auto simp: asserted_passed)
qed

definition async_tests_pass :: "bool \<Rightarrow> bool" where
  "async_tests_pass dbg \<longleftrightarrow>
     passed (async_retry_ext_starts_from_a_no_arg_closure dbg)
     \<and> passed (async_default_path_retries_then_returns_ok dbg)
     \<and> passed (async_decide_infers_through_fut_output dbg)
     \<and> passed (async_decide_returns_sought_error_through_ok dbg)
     \<and> passed (async_until_polls_a_result dbg)
     \<and> passed (async_with_stats_and_on_exit_match_the_sync_engine dbg)"

text \<open>
  The crate's own unit tests of classifiers, views, errors, \<open>step\<close> and both engines pass on
  the model, in debug and in release builds: none panics and all their assertions hold.
\<close>

theorem unit_tests_pass:
  "all_pass (decision_tests @ attempt_state_tests dbg @ error_tests @ step_tests dbg)
   \<and> sync_tests_pass dbg \<and> async_tests_pass dbg"
  by (simp only: data_unit_tests_pass sync_tests async_tests_pass_def async_ext_passes async_default_passes
      async_decide_aborts_passes async_decide_returns_passes async_until_passes async_stats_passes simp_thms)

end
