(* ===== verification/Tests_Properties.thy ===== *)
theory Tests_Properties
  imports Tests_Data
begin

text \<open>
  The property tests of \<open>src/tests/properties.rs\<close>. The test tool samples their inputs; here a
  test is a function of its inputs, so what it asserts can be proved for all of them. A test
  gives nothing, or the panic of a failed assertion or of the code under test.
\<close>

definition EXACT_NANOS_LIMIT :: u64 where "EXACT_NANOS_LIMIT = push_bit 20 1"
definition EXACT_ATTEMPT_LIMIT :: u32 where "EXACT_ATTEMPT_LIMIT = 33"

text \<open>A strategy without user-written parts, asked once.\<close>

definition delay_of :: "unit wait_strategy \<Rightarrow> retry_state \<Rightarrow> panic + duration" where
  "delay_of strategy st = map_sum id fst (fst (run_state (next_wait strategy st) ()))"

text \<open>\<open>.with_seed(seed)\<close> exists on \<open>Jittered\<close> only; elsewhere the call does not type check.\<close>

fun strategy_with_seed :: "'x wait_strategy \<Rightarrow> u64 \<Rightarrow> 'x wait_strategy" where
  "strategy_with_seed (Jittered inner j) seed = Jittered inner (with_seed j seed)"
| "strategy_with_seed w seed = w"

text \<open>
  The conversion the linear test compares with. The sum is a \<open>u128\<close> in the test and a natural
  number here; that it stays below \<open>2 ^ 128\<close> is proved below.
\<close>

definition duration_from_nanos_u128 :: "nat \<Rightarrow> panic + duration" where
  "duration_from_nanos_u128 nanos =
     (case duration_new (word_of_nat (nanos div 1000000000)) (word_of_nat (nanos mod 1000000000)) of
        Some d \<Rightarrow> Inr d
      | None \<Rightarrow> Inl ''overflow in Duration::new'')"

definition linear_reference :: "duration \<Rightarrow> duration \<Rightarrow> u32 \<Rightarrow> nat" where
  "linear_reference initial increment attempt =
     as_nanos initial + unat (u32_saturating_sub attempt 1) * as_nanos increment"

subsection \<open>The tests\<close>

definition exponential_never_panics :: "bool \<Rightarrow> duration \<Rightarrow> f64 \<Rightarrow> u32 \<Rightarrow> panic + unit" where
  "exponential_never_panics dbg initial base attempt =
     (let strategy = wait_base (exponential initial) base
      in unwind (for_attempt dbg attempt) (\<lambda>st. unwind (delay_of strategy st) (\<lambda>_. Inr ())))"

definition exponential_matches_integer_reference_in_exact_window ::
    "bool \<Rightarrow> u64 \<Rightarrow> u32 \<Rightarrow> panic + unit" where
  "exponential_matches_integer_reference_in_exact_window dbg nanos attempt =
     (let strategy = exponential (from_nanos nanos);
          expected = from_nanos (push_bit (unat (attempt - 1)) nanos)
      in unwind (for_attempt dbg attempt) (\<lambda>st. unwind (delay_of strategy st) (\<lambda>d.
           rust_assert (d = expected))))"

definition exponential_zero_initial_is_always_zero :: "bool \<Rightarrow> f64 \<Rightarrow> u32 \<Rightarrow> panic + unit" where
  "exponential_zero_initial_is_always_zero dbg base attempt =
     (let strategy = wait_base (exponential duration_zero) base
      in unwind (for_attempt dbg attempt) (\<lambda>st. unwind (delay_of strategy st) (\<lambda>d.
           rust_assert (d = duration_zero))))"

definition linear_matches_u128_reference ::
    "bool \<Rightarrow> duration \<Rightarrow> duration \<Rightarrow> u32 \<Rightarrow> panic + unit" where
  "linear_matches_u128_reference dbg initial increment attempt =
     (let strategy = linear initial increment;
          reference = linear_reference initial increment attempt
      in unwind (if as_nanos duration_MAX < reference then Inr duration_MAX
                 else duration_from_nanos_u128 reference) (\<lambda>expected.
         unwind (for_attempt dbg attempt) (\<lambda>st. unwind (delay_of strategy st) (\<lambda>d.
           rust_assert (d = expected)))))"

definition full_jitter_stays_within_base ::
    "bool \<Rightarrow> u64 \<Rightarrow> duration \<Rightarrow> u64 \<Rightarrow> u32 \<Rightarrow> panic + unit" where
  "full_jitter_stays_within_base dbg nonce base seed attempt =
     (let strategy = strategy_with_seed (wait_full_jitter (fixed base) nonce) seed
      in unwind (for_attempt dbg attempt) (\<lambda>st. unwind (delay_of strategy st) (\<lambda>d.
           rust_assert (d \<le> base))))"

definition additive_jitter_stays_within_base_plus_max ::
    "bool \<Rightarrow> u64 \<Rightarrow> duration \<Rightarrow> duration \<Rightarrow> u64 \<Rightarrow> u32 \<Rightarrow> panic + unit" where
  "additive_jitter_stays_within_base_plus_max dbg nonce base max_jitter seed attempt =
     (let strategy = strategy_with_seed (wait_jitter (fixed base) max_jitter nonce) seed
      in unwind (for_attempt dbg attempt) (\<lambda>st. unwind (delay_of strategy st) (\<lambda>delay.
           unwind (rust_assert (base \<le> delay)) (\<lambda>_.
             rust_assert (delay \<le> saturating_add base max_jitter)))))"

definition equal_jitter_stays_within_half_to_base ::
    "bool \<Rightarrow> u64 \<Rightarrow> duration \<Rightarrow> u64 \<Rightarrow> u32 \<Rightarrow> panic + unit" where
  "equal_jitter_stays_within_half_to_base dbg nonce base seed attempt =
     (let strategy = strategy_with_seed (wait_equal_jitter (fixed base) nonce) seed
      in unwind (for_attempt dbg attempt) (\<lambda>st. unwind (delay_of strategy st) (\<lambda>delay.
           unwind (rust_assert (duration_half base \<le> delay)) (\<lambda>_. rust_assert (delay \<le> base)))))"

definition decorrelated_jitter_stays_within_feedback_bounds ::
    "bool \<Rightarrow> u64 \<Rightarrow> duration \<Rightarrow> duration \<Rightarrow> u64 \<Rightarrow> u32 \<Rightarrow> panic + unit" where
  "decorrelated_jitter_stays_within_feedback_bounds dbg nonce base previous seed attempt =
     (let strategy = strategy_with_seed (decorrelated_jitter base nonce) seed
      in unwind (for_attempt dbg attempt) (\<lambda>st0.
           let st = with_previous_delay st0 (Some previous)
           in unwind (delay_of strategy st) (\<lambda>delay.
                unwind (rust_assert (base \<le> delay)) (\<lambda>_.
                  rust_assert (delay \<le> max base (saturating_mul previous 3))))))"

subsection \<open>They hold for all inputs\<close>

lemma linear_reference_fits: "linear_reference initial increment attempt < 2 ^ 128"
proof -
  have "unat (u32_saturating_sub attempt 1) * as_nanos increment
      \<le> 4294967296 * 18446744073709551615999999999"
    using unat_u32_lt [of "u32_saturating_sub attempt 1"] as_nanos_bound [of increment]
    by (intro mult_mono) simp_all
  then show ?thesis unfolding linear_reference_def using as_nanos_bound [of initial] by simp
qed

lemma delay_of_range:
  obtains d where "delay_of w st = Inr d" and "wait_lower w st \<le> d" and "d \<le> wait_upper w st"
proof -
  obtain d w' x' where "run_state (next_wait w st) () = (Inr (d, w'), x')"
    and "wait_lower w st \<le> d" and "d \<le> wait_upper w st"
    by (rule next_wait_total)
  then show thesis by (intro that [of d]) (simp_all add: delay_of_def)
qed

lemma passes_in_range:
  assumes "\<And>d. wait_lower w st \<le> d \<Longrightarrow> d \<le> wait_upper w st \<Longrightarrow> P d = Inr ()"
  shows "unwind (delay_of w st) P = Inr ()"
  using delay_of_range [of w st] assms by (metis unwind_simps(2))

text \<open>Building the state is the one thing that can panic.\<close>

definition state_panics :: "bool \<Rightarrow> u32 \<Rightarrow> bool" where
  "state_panics dbg attempt \<longleftrightarrow> dbg \<and> attempt = 0"

lemma at_attempt:
  assumes "\<And>st. st_attempt st = attempt \<Longrightarrow> P st = Inr ()"
  shows "unwind (for_attempt dbg attempt) P =
    (if state_panics dbg attempt then Inl ''attempt is 1-indexed'' else Inr ())"
  using assms by (cases "attempt = 0"; cases dbg) (simp_all add: state_panics_def for_attempt_def)

lemma exponential_never_panics_eq:
  "exponential_never_panics dbg initial base attempt =
     (if state_panics dbg attempt then Inl ''attempt is 1-indexed'' else Inr ())"
  by (simp only: exponential_never_panics_def Let_def) (intro at_attempt passes_in_range refl)

lemma zero_initial_eq:
  "exponential_zero_initial_is_always_zero dbg base attempt =
     (if state_panics dbg attempt then Inl ''attempt is 1-indexed'' else Inr ())"
  unfolding exponential_zero_initial_is_always_zero_def Let_def
  by (intro at_attempt passes_in_range)
    (simp add: exponential_def saturating_duration_mul_f64_def order.antisym)

lemma exact_window:
  assumes nanos: "nanos < EXACT_NANOS_LIMIT" and attempt: "1 \<le> attempt" "attempt \<le> EXACT_ATTEMPT_LIMIT"
  shows "exponential_matches_integer_reference_in_exact_window dbg nanos attempt = Inr ()"
proof -
  let ?k = "unat attempt - 1"
  have n: "unat nanos < 2 ^ 20"
    using nanos by (simp add: word_less_nat_alt EXACT_NANOS_LIMIT_def)
  have k: "unat (attempt - 1) = ?k" "?k \<le> 32" "attempt \<noteq> 0"
    using attempt by (auto simp: word_le_nat_alt EXACT_ATTEMPT_LIMIT_def unat_sub)
  have "unat nanos * 2 ^ ?k < 2 ^ 20 * 2 ^ 32"
    using n k(2) by (intro mult_less_le_imp_less power_increasing) simp_all
  then have small: "unat nanos * 2 ^ ?k < 2 ^ 64" by simp
  then have "unat (push_bit ?k nanos) = unat nanos * 2 ^ ?k"
    by (simp only: unsigned_push_bit_eq) (simp add: push_bit_eq_mult take_bit_nat_eq_self)
  then have "duration_of (unat nanos * 2 ^ ?k) = from_nanos (push_bit ?k nanos)"
    using small by (simp add: dur_simps)
  then have "delay_of (exponential (from_nanos nanos)) st = Inr (from_nanos (push_bit ?k nanos))"
    if "st_attempt st = attempt" for st
    using next_wait_doubles [of "from_nanos nanos" st "()"] n that
    by (simp add: delay_of_def from_nanos.rep_eq)
  then show ?thesis
    unfolding exponential_matches_integer_reference_in_exact_window_def Let_def k(1) using k(3) by simp
qed

lemma duration_from_nanos_u128_eq:
  assumes "nanos \<le> as_nanos duration_MAX"
  shows "duration_from_nanos_u128 nanos = Inr (duration_of nanos)"
  using assms duration_new_split [of nanos]
  by (simp add: duration_from_nanos_u128_def duration_MAX.rep_eq duration_max_nanos_def)

lemma linear_reference_eq:
  "linear_matches_u128_reference dbg initial increment attempt =
     (if state_panics dbg attempt then Inl ''attempt is 1-indexed'' else Inr ())"
proof -
  let ?n = "linear_reference initial increment attempt"
  have d: "delay_of (linear initial increment) st = Inr (duration_of ?n)" if "st_attempt st = attempt" for st
    using that by (simp add: delay_of_def linear_def Let_def linear_step linear_reference_def
        unat_u32_saturating_sub)
  have expected: "(if as_nanos duration_MAX < ?n then Inr duration_MAX else duration_from_nanos_u128 ?n) =
      (Inr (duration_of ?n) :: panic + duration)"
    by (simp add: duration_from_nanos_u128_eq not_less as_nanos_inject_iff duration_of.rep_eq
        duration_MAX.rep_eq)
  show ?thesis
    unfolding linear_matches_u128_reference_def Let_def expected unwind_simps
    by (intro at_attempt) (simp add: d)
qed

lemma jitter_tests_eq:
  "full_jitter_stays_within_base dbg nonce base seed attempt =
     (if state_panics dbg attempt then Inl ''attempt is 1-indexed'' else Inr ())"
  "additive_jitter_stays_within_base_plus_max dbg nonce base max_jitter seed attempt =
     (if state_panics dbg attempt then Inl ''attempt is 1-indexed'' else Inr ())"
  "equal_jitter_stays_within_half_to_base dbg nonce base seed attempt =
     (if state_panics dbg attempt then Inl ''attempt is 1-indexed'' else Inr ())"
  "decorrelated_jitter_stays_within_feedback_bounds dbg nonce base previous seed attempt =
     (if state_panics dbg attempt then Inl ''attempt is 1-indexed'' else Inr ())"
  unfolding full_jitter_stays_within_base_def additive_jitter_stays_within_base_plus_max_def
    equal_jitter_stays_within_half_to_base_def decorrelated_jitter_stays_within_feedback_bounds_def Let_def
  by (intro at_attempt passes_in_range,
      simp add: wait_full_jitter_def wait_equal_jitter_def decorrelated_jitter_def fixed_def
        jittered_new_def with_seed_def rust_assert_def)+

text \<open>One sample of every test: the inputs, as the test tool draws them.\<close>

record sample =
  sm_initial :: duration
  sm_increment :: duration
  sm_base :: f64
  sm_max_jitter :: duration
  sm_seed :: u64
  sm_attempt :: u32
  sm_exact_nanos :: u64
  sm_exact_attempt :: u32

definition property_tests :: "bool \<Rightarrow> u64 \<Rightarrow> sample \<Rightarrow> unit_test list" where
  "property_tests dbg nonce s =
     [(''exponential_never_panics'',
       exponential_never_panics dbg (sm_initial s) (sm_base s) (sm_attempt s)),
      (''exponential_matches_integer_reference_in_exact_window'',
       exponential_matches_integer_reference_in_exact_window dbg (sm_exact_nanos s) (sm_exact_attempt s)),
      (''exponential_zero_initial_is_always_zero'',
       exponential_zero_initial_is_always_zero dbg (sm_base s) (sm_attempt s)),
      (''linear_matches_u128_reference'',
       linear_matches_u128_reference dbg (sm_initial s) (sm_increment s) (sm_attempt s)),
      (''full_jitter_stays_within_base'',
       full_jitter_stays_within_base dbg nonce (sm_initial s) (sm_seed s) (sm_attempt s)),
      (''additive_jitter_stays_within_base_plus_max'',
       additive_jitter_stays_within_base_plus_max dbg nonce (sm_initial s) (sm_max_jitter s)
         (sm_seed s) (sm_attempt s)),
      (''equal_jitter_stays_within_half_to_base'',
       equal_jitter_stays_within_half_to_base dbg nonce (sm_initial s) (sm_seed s) (sm_attempt s)),
      (''decorrelated_jitter_stays_within_feedback_bounds'',
       decorrelated_jitter_stays_within_feedback_bounds dbg nonce (sm_initial s) (sm_increment s)
         (sm_seed s) (sm_attempt s))]"

text \<open>
  C39: the property tests of the crate, which sample their inputs, hold for every input the test
  tool can draw: every initial wait, increment, base (NaN and the infinities too), jitter bound,
  seed and attempt number, and every pair of the exact window. The one exception is attempt zero:
  the tests draw it (\<open>any::<u32>()\<close>) and \<open>RetryState::for_attempt\<close> panics on it in debug
  builds, which are what tests run in; so the tests pass exactly when that does not happen.
\<close>

theorem property_tests_pass_for_all_inputs:
  assumes "sm_exact_nanos s < EXACT_NANOS_LIMIT"
    and "1 \<le> sm_exact_attempt s" and "sm_exact_attempt s \<le> EXACT_ATTEMPT_LIMIT"
  shows "all_pass (property_tests dbg nonce s) \<longleftrightarrow> \<not> (dbg \<and> sm_attempt s = 0)"
  by (simp add: property_tests_def exact_window [OF assms] exponential_never_panics_eq zero_initial_eq
      linear_reference_eq jitter_tests_eq state_panics_def)

theorem property_tests_pass_for_all_inputs_witness:
  "\<exists>s. sm_exact_nanos s < EXACT_NANOS_LIMIT \<and> 1 \<le> sm_exact_attempt s
     \<and> sm_exact_attempt s \<le> EXACT_ATTEMPT_LIMIT
     \<and> all_pass (property_tests True 0 s) \<and> \<not> all_pass (property_tests True 0 (s\<lparr>sm_attempt := 0\<rparr>))"
proof -
  let ?s = "\<lparr>sm_initial = duration_MAX, sm_increment = duration_MAX, sm_base = F64_NaN,
    sm_max_jitter = duration_MAX, sm_seed = 7, sm_attempt = - 1, sm_exact_nanos = 1048575,
    sm_exact_attempt = 33\<rparr>"
  have h: "sm_exact_nanos ?s < EXACT_NANOS_LIMIT" "1 \<le> sm_exact_attempt ?s"
    "sm_exact_attempt ?s \<le> EXACT_ATTEMPT_LIMIT"
    by (simp_all add: EXACT_NANOS_LIMIT_def EXACT_ATTEMPT_LIMIT_def word_less_nat_alt word_le_nat_alt)
  show ?thesis
    using h property_tests_pass_for_all_inputs [of ?s True 0]
      property_tests_pass_for_all_inputs [of "?s\<lparr>sm_attempt := 0\<rparr>" True 0]
    by (intro exI [of _ ?s]) simp
qed

end
