(* ===== verification/Wait_Error.thy ===== *)
theory Wait_Error
  imports Wait
begin

text \<open>
  How far the exponential backoff of \<open>src/src/wait/math.rs\<close> is from the power it stands for. Every
  product of the square-and-multiply loop is rounded once, and the roundings multiply up along the
  squarings; over a base of at least one the \<open>n\<close>-th power still suffers exactly \<open>n\<close> of them.
\<close>

subsection \<open>One rounding\<close>

text \<open>Half a unit in the last place, relative to a number of 53 bits.\<close>

definition half_ulp :: real where
  "half_ulp = 1 / 2 ^ 53"

lemma half_ulp_bounds [simp]: "0 < half_ulp" "0 \<le> half_ulp" "half_ulp \<le> 1" "0 \<le> 1 + half_ulp"
  by (simp_all add: half_ulp_def)

text \<open>The least number that rounds out of the format.\<close>

definition f64_limit :: real where
  "f64_limit = 2 ^ 1024"

text \<open>The float \<open>x\<close> is \<open>v\<close> after \<open>k\<close> roundings; an overflow is one only at the limit.\<close>

fun rounded :: "nat \<Rightarrow> real \<Rightarrow> f64 \<Rightarrow> bool" where
  "rounded k v F64_NaN = False"
| "rounded k v (F64_Inf s) = (\<not> s \<and> f64_limit \<le> (1 + half_ulp) ^ k * v)"
| "rounded k v (F64 s m e) =
     (\<not> s \<and> (1 - half_ulp) ^ k * v \<le> mag m e \<and> mag m e \<le> (1 + half_ulp) ^ k * v)"

lemma mag_ge_power: "m \<noteq> 0 \<Longrightarrow> 1024 < int (floorlog 2 m) + e \<Longrightarrow> f64_limit \<le> mag m e"
proof -
  assume m: "m \<noteq> 0" and e: "1024 < int (floorlog 2 m) + e"
  let ?l = "floorlog 2 m"
  have "2 ^ (?l - 1) \<le> m" "?l \<noteq> 0" using floorlog_bounds [of m 2] m by (auto simp: floorlog_def)
  have "f64_limit = 2 powi 1024" by (simp add: f64_limit_def power_int_def)
  also have "\<dots> \<le> 2 powi (int (?l - 1) + e)"
    using e \<open>?l \<noteq> 0\<close> by (intro power_int_increasing) auto
  also have "\<dots> = real (2 ^ (?l - 1)) * 2 powi e" by (simp add: power_int_add)
  also have "\<dots> \<le> real m * 2 powi e"
    using \<open>2 ^ (?l - 1) \<le> m\<close> by (intro mult_right_mono) (simp_all only: of_nat_le_iff zero_le_power_int zero_le_numeral)
  finally show ?thesis by (simp only: mag_def)
qed

lemma rounded_fit:
  assumes "(1 - half_ulp) ^ k * v \<le> mag m e" and "mag m e \<le> (1 + half_ulp) ^ k * v"
  shows "rounded k v (f64_fit False m e)"
  using assms mag_ge_power [of m e] by (auto simp: f64_fit_def mag_def intro: order_trans)

lemma nearest_quotient:
  fixes m h :: nat
  assumes "0 < h"
  defines "q \<equiv> m div (2 * h)" and "r \<equiv> m mod (2 * h)"
  defines "q' \<equiv> if h < r \<or> (r = h \<and> odd q) then q + 1 else q"
  shows "\<bar>real (q' * (2 * h)) - real m\<bar> \<le> real h"
proof -
  have "m = q * (2 * h) + r" unfolding q_def r_def by (rule div_mult_mod_eq [symmetric])
  then have m: "real m = real q * (2 * real h) + real r" by (metis of_nat_add of_nat_mult of_nat_numeral)
  have "r < 2 * h" using assms(1) by (simp add: r_def)
  then have "real r < 2 * real h" by linarith
  then show ?thesis
    unfolding m q'_def by (auto simp: algebra_simps abs_le_iff)
qed

lemma f64_round_rounded:
  assumes "1 \<le> mag m e"
  shows "rounded 1 (mag m e) (f64_round False m e)"
proof -
  let ?l = "floorlog 2 m"
  define sh where "sh = max (int ?l - 53) (-1074 - e)"
  show ?thesis
  proof (cases "sh \<le> 0")
    case True
    have "(1 - half_ulp) * mag m e \<le> 1 * mag m e" "1 * mag m e \<le> (1 + half_ulp) * mag m e"
      by (intro mult_right_mono; simp)+
    then have "rounded 1 (mag m e) (f64_fit False m e)" by (intro rounded_fit) simp_all
    with True show ?thesis by (simp add: f64_round_def sh_def [symmetric] Let_def)
  next
    case False
    have "m \<noteq> 0" using assms by (auto simp: mag_def intro!: gr0I)
    have "-1074 - e < int ?l - 53"
    proof -
      have "m < 2 ^ ?l" using floorlog_2_le_iff [of m ?l] by (simp only: order.refl)
      then have "real m < real (2 ^ ?l)" by (simp only: of_nat_less_iff)
      then have "mag m e < 2 ^ ?l * 2 powi e" by (simp add: mag_def)
      moreover have "2 ^ ?l * 2 powi e = (2 :: real) powi (int ?l + e)" by (simp add: power_int_add)
      ultimately have less: "1 < (2 :: real) powi (int ?l + e)" using assms by linarith
      have "0 < int ?l + e"
      proof (rule ccontr)
        assume "\<not> 0 < int ?l + e"
        then have "(2 :: real) powi (int ?l + e) \<le> 2 powi 0" by (intro power_int_increasing) simp_all
        with less show False by simp
      qed
      then show ?thesis by linarith
    qed
    with False have sh: "sh = int ?l - 53" "0 < sh" by (simp_all add: sh_def)
    define h :: nat where "h = 2 ^ (nat sh - 1)"
    have h2: "2 ^ nat sh = 2 * h" "0 < h" using sh(2) by (simp_all add: h_def flip: power_Suc)
    let ?q = "m div 2 ^ nat sh" and ?r = "m mod 2 ^ nat sh"
    define q' where "q' = (if h < ?r \<or> (?r = h \<and> odd ?q) then ?q + 1 else ?q)"
    have err: "\<bar>real (q' * 2 ^ nat sh) - real m\<bar> \<le> real h"
      using nearest_quotient [OF h2(2), of m] by (simp only: q'_def h2(1))
    have "2 ^ (?l - 1) \<le> m" using floorlog_bounds [of m 2] \<open>m \<noteq> 0\<close> by (auto simp: floorlog_def)
    moreover have "?l - 1 = 53 + (nat sh - 1)" using sh by simp
    ultimately have "2 ^ 53 * h \<le> m" by (simp only: h_def power_add)
    then have "real (2 ^ 53 * h) \<le> real m" by (simp only: of_nat_le_iff)
    then have "real h \<le> half_ulp * real m" by (simp add: half_ulp_def field_simps)
    with err have close: "(1 - half_ulp) * real m \<le> real (q' * 2 ^ nat sh)"
        "real (q' * 2 ^ nat sh) \<le> (1 + half_ulp) * real m"
      by (auto simp: abs_le_iff algebra_simps)
    have mag: "mag q' (e + sh) = real (q' * 2 ^ nat sh) * 2 powi e"
      using sh(2) mag_shift [of q' "nat sh" e] by (auto simp: mag_def)
    have "(1 - half_ulp) * real m * 2 powi e \<le> mag q' (e + sh)" "mag q' (e + sh) \<le> (1 + half_ulp) * real m * 2 powi e"
      unfolding mag using close by (intro mult_right_mono; simp)+
    then have fit: "rounded 1 (mag m e) (f64_fit False q' (e + sh))"
      by (intro rounded_fit) (simp_all add: mag_def mult.assoc)
    have "f64_round False m e = f64_fit False q' (e + sh)"
      using False unfolding f64_round_def sh_def [symmetric] Let_def q'_def h_def by (simp only: if_False)
    with fit show ?thesis by (simp only:)
  qed
qed

subsection \<open>Products and powers\<close>

lemma rounded_mono:
  assumes "rounded k v (F64_Inf False)" and "0 \<le> v" "k \<le> l" "v \<le> w"
  shows "rounded l w (F64_Inf False)"
proof -
  have "(1 + half_ulp) ^ k * v \<le> (1 + half_ulp) ^ l * w"
    using assms(2-4) by (intro mult_mono power_increasing) simp_all
  with assms(1) show ?thesis by simp
qed

lemma rounded_trans:
  assumes "rounded 1 p x" and "(1 - half_ulp) ^ k * v \<le> p" and "p \<le> (1 + half_ulp) ^ k * v"
  shows "rounded (Suc k) v x"
proof -
  have "(1 - half_ulp) * ((1 - half_ulp) ^ k * v) \<le> (1 - half_ulp) * p"
      "(1 + half_ulp) * p \<le> (1 + half_ulp) * ((1 + half_ulp) ^ k * v)"
    using assms(2,3) by (simp_all add: mult_left_mono)
  with assms(1) show ?thesis by (cases x) (auto simp: mult.assoc)
qed

lemma rounded_mul:
  assumes x: "rounded i v x" "f64_ge_real 1 x" and y: "rounded j w y" "f64_ge_real 1 y"
    and vw: "1 \<le> v" "1 \<le> w"
  shows "rounded (Suc (i + j)) (v * w) (f64_mul x y)"
proof -
  have le: "v \<le> v * w" "w \<le> v * w" using vw by simp_all
  show ?thesis
  proof (cases "x = F64_Inf False \<or> y = F64_Inf False")
    case True
    then have "rounded (Suc (i + j)) (v * w) (F64_Inf False)"
      using rounded_mono [of i v "Suc (i + j)" "v * w"] rounded_mono [of j w "Suc (i + j)" "v * w"] x(1) y(1) vw le
      by auto
    moreover have "f64_mul x y = F64_Inf False"
      using True x(2) y(2) by (cases x; cases y) (auto simp: mag_def intro: gr0I)
    ultimately show ?thesis by simp
  next
    case False
    then obtain m e n f where xy: "x = F64 False m e" "y = F64 False n f"
      using x(2) y(2) by (cases x; cases y) auto
    let ?p = "mag m e * mag n f"
    have "1 * 1 \<le> ?p" using x(2) y(2) xy by (intro mult_mono) auto
    then have "rounded 1 ?p (f64_mul x y)"
      using f64_round_rounded [of "m * n" "e + f"] xy by (simp add: mag_mult)
    moreover have "(1 - half_ulp) ^ i * v * ((1 - half_ulp) ^ j * w) \<le> ?p"
      using x(1) y(1) xy vw by (intro mult_mono) simp_all
    moreover have "?p \<le> (1 + half_ulp) ^ i * v * ((1 + half_ulp) ^ j * w)"
      using x(1) y(1) xy vw by (intro mult_mono) simp_all
    ultimately show ?thesis
      by (intro rounded_trans) (simp_all add: power_add mult_ac)
  qed
qed

lemma not_finite_ge_one: "f64_ge_real 1 x \<Longrightarrow> \<not> f64_is_finite x \<Longrightarrow> x = F64_Inf False"
  by (cases x) simp_all

text \<open>The loop adds one rounding per factor of the power, counted with multiplicity.\<close>

lemma pow_loop_rounded:
  assumes "rounded i a r" "f64_ge_real 1 r" and "rounded j b f" "f64_ge_real 1 f" and "1 \<le> a" "1 \<le> b"
  shows "rounded (i + unat w * Suc j) (a * b ^ unat w) (pow_loop r f w)"
  using assms
proof (induction r f w arbitrary: a b i j rule: pow_loop_induct)
  case (step r f w)
  let ?n = "unat w"
  define i' where "i' = (if odd ?n then i + Suc j else i)"
  define a' where "a' = (if odd ?n then a * b else a)"
  have count: "i + ?n * Suc j = i' + (?n div 2) * Suc (Suc (j + j))"
    by (auto simp: i'_def algebra_simps elim!: oddE)
  have power: "a * b ^ ?n = a' * (b * b) ^ (?n div 2)"
    by (auto simp: a'_def power_mult [symmetric] power2_eq_square [symmetric] elim!: oddE)
  have "1 \<le> a * b" "1 \<le> b * b"
    using mult_mono [of 1 a 1 b] mult_mono [of 1 b 1 b] step.prems(5,6) by simp_all
  then have ge: "1 \<le> a'" "1 \<le> b * b" using step.prems(5) by (simp_all add: a'_def)
  have mul: "rounded i' a' (pow_mul_bit r f w)" "f64_ge_real 1 (pow_mul_bit r f w)"
    using rounded_mul [OF step.prems(1-6)] step.prems pow_mul_bit_ge_one [OF step.prems(2,4)]
    by (simp_all add: pow_mul_bit_def i'_def a'_def)
  have ff: "f64_ge_real 1 (f64_mul f f)" using f64_ge_mul [of 1 f f] step.prems(4) by simp
  have "pow_square f = f64_mul f f"
    using not_finite_ge_one [OF ff] by (auto simp: pow_square_def)
  then have sq: "rounded (Suc (j + j)) (b * b) (pow_square f)" "f64_ge_real 1 (pow_square f)"
    using rounded_mul [OF step.prems(3,4) step.prems(3,4) step.prems(6,6)] ff by simp_all
  have "1 \<le> (b * b) ^ (?n div 2)" using ge(2) by (rule one_le_power)
  then have le: "a' \<le> a' * (b * b) ^ (?n div 2)"
    using ge(1) mult_left_mono [of 1 "(b * b) ^ (?n div 2)" a'] by simp
  have inf: "rounded (i + ?n * Suc j) (a * b ^ ?n) (F64_Inf False)" if r: "pow_mul_bit r f w = F64_Inf False"
    unfolding count power
    by (rule rounded_mono [OF mul(1) [unfolded r] _ le_add1 le]) (use ge(1) in linarith)
  note unfold = pow_loop_unfold [of r f w]
  show ?case
  proof (cases "odd ?n \<and> \<not> f64_is_finite (pow_mul_bit r f w)")
    case True
    then have "pow_loop r f w = F64_Inf False" unfolding unfold by (rule if_P)
    with inf not_finite_ge_one [OF mul(2)] True show ?thesis by simp
  next
    case fin: False
    show ?thesis
    proof (cases "?n div 2 = 0")
      case True
      then have "pow_loop r f w = pow_mul_bit r f w" unfolding unfold if_not_P [OF fin] by simp
      then show ?thesis using mul(1) True unfolding count power by simp
    next
      case False
      have "rounded (i' + unat (drop_bit 1 w) * Suc (Suc (j + j))) (a' * (b * b) ^ unat (drop_bit 1 w))
          (pow_loop (pow_mul_bit r f w) (pow_square f) (drop_bit 1 w))"
        by (rule step.IH [OF False mul sq ge])
      then show ?thesis
        using False fin unfolding count power unat_shift_right_one unfold by (simp only: if_False)
    qed
  qed
qed

subsection \<open>The wait\<close>

text \<open>The real number of a finite float.\<close>

fun f64_real :: "f64 \<Rightarrow> real" where
  "f64_real (F64 s m e) = (if s then - mag m e else mag m e)"
| "f64_real _ = 0"

text \<open>The base the backoff works with: at least one, and one for what is not a number.\<close>

lemma clamp_exponential_base_real:
  "\<exists>m e. clamp_exponential_base b = F64 False m e \<and> mag m e = max 1 (f64_real b)"
proof (cases b)
  case (F64 s m e)
  show ?thesis
  proof (cases "f64_le b f64_one")
    case True
    then have "f64_real b \<le> 1"
      using F64 f64_le_mag [of m e 1 0] by (cases s) (auto simp: f64_one_def intro: order_trans [OF _ mag_nonneg])
    with True F64 show ?thesis
      by (simp add: clamp_exponential_base_def f64_max_def MIN_EXPONENTIAL_BASE_def f64_one_def)
  next
    case False
    with not_le_one_ge_one [of b] F64 have "\<not> s" "1 \<le> mag m e" by simp_all
    with False F64 show ?thesis
      by (simp add: clamp_exponential_base_def f64_max_def MIN_EXPONENTIAL_BASE_def f64_one_def)
  qed
qed (simp_all add: clamp_exponential_base_def MIN_EXPONENTIAL_BASE_def f64_one_def)

lemma pow_nonnegative_rounded:
  assumes "b = F64 False m e" and "1 \<le> mag m e"
  shows "rounded (unat n) (mag m e ^ unat n) (pow_nonnegative_f64 b n)"
proof -
  have one: "rounded 0 1 f64_one" by (simp add: f64_one_def)
  consider "n = 0" | "n \<noteq> 0" "mag m e = 1" | "n \<noteq> 0" "\<not> f64_le b f64_one"
    using assms f64_le_mag [of m e 1 0] by (auto simp: f64_one_def)
  then show ?thesis
  proof cases
    case 1
    then show ?thesis using one by (simp add: pow_nonnegative_f64_def)
  next
    case 2
    then have "pow_nonnegative_f64 b n = f64_one"
      using assms f64_le_mag [of m e 1 0] by (simp add: pow_nonnegative_f64_def MIN_EXPONENTIAL_BASE_def f64_one_def)
    moreover have "(1 - half_ulp) ^ unat n \<le> 1" "1 \<le> (1 + half_ulp) ^ unat n"
      by (simp_all add: power_le_one one_le_power)
    ultimately show ?thesis using 2(2) by (simp add: f64_one_def)
  next
    case 3
    have "rounded (0 + unat n * Suc 0) (1 * mag m e ^ unat n) (pow_loop f64_one b n)"
      using one assms by (intro pow_loop_rounded) simp_all
    with 3 show ?thesis by (simp add: pow_nonnegative_f64_def MIN_EXPONENTIAL_BASE_def)
  qed
qed

lemma f64_to_u128_rounded:
  assumes "rounded k v x"
  shows "real (min (f64_to_u128 x) duration_max_nanos) \<le> (1 + half_ulp) ^ k * v"
    and "duration_max_nanos \<le> f64_to_u128 x \<or> (1 - half_ulp) ^ k * v - 1 < real (f64_to_u128 x)"
proof -
  have small: "duration_max_nanos \<le> 2 ^ 128 - 1" "real duration_max_nanos \<le> f64_limit"
    by (simp_all add: duration_max_nanos_def f64_limit_def)
  show "real (min (f64_to_u128 x) duration_max_nanos) \<le> (1 + half_ulp) ^ k * v"
  proof (cases x)
    case (F64 s m e)
    have "real (min (f64_to_u128 x) duration_max_nanos) \<le> real (f64_trunc m e)" using F64 by (simp add: min.coboundedI1 min.coboundedI2)
    also have "\<dots> \<le> mag m e" using f64_trunc_ge_iff [of "f64_trunc m e" m e] by simp
    finally show ?thesis using assms F64 by simp
  next
    case (F64_Inf s)
    have "real (min (f64_to_u128 x) duration_max_nanos) \<le> real duration_max_nanos" by simp
    also note small(2)
    finally show ?thesis using assms F64_Inf by simp
  qed (use assms in simp)
  show "duration_max_nanos \<le> f64_to_u128 x \<or> (1 - half_ulp) ^ k * v - 1 < real (f64_to_u128 x)"
  proof (cases x)
    case (F64 s m e)
    have "mag m e < real (Suc (f64_trunc m e))"
      using f64_trunc_ge_iff [of "Suc (f64_trunc m e)" m e] by linarith
    then show ?thesis using assms F64 small(1) by (auto simp: min_def)
  qed (use assms small in auto)
qed

text \<open>
  C33: the exponential backoff computes the power it stands for up to the roundings of \<open>f64\<close>,
  whatever base is set: with \<open>B\<close> the base or one, whichever is greater (one for NaN and the
  infinities), the wait after attempt \<open>n\<close> is \<open>initial * B ^ (n - 1)\<close> nanoseconds up to a relative
  error of \<open>n + 1\<close> roundings (one for the cast of the initial wait, one per factor and one for the
  last product) and a nanosecond cut off at the end, unless that power reaches \<open>Duration::MAX\<close>,
  where the wait ends.
\<close>

theorem exponential_within_rounding_errors:
  "\<exists>d. fst (run_state (next_wait (wait_base (exponential initial) b) st) x) =
       Inr (d, wait_base (exponential initial) b)
     \<and> real (as_nanos d) \<le> (1 + 1 / 2 ^ 53) ^ (unat (st_attempt st) - 1 + 2) *
         (real (as_nanos initial) * max 1 (f64_real b) ^ (unat (st_attempt st) - 1))
     \<and> (d = duration_MAX \<or>
        (1 - 1 / 2 ^ 53) ^ (unat (st_attempt st) - 1 + 2) *
          (real (as_nanos initial) * max 1 (f64_real b) ^ (unat (st_attempt st) - 1)) - 1 < real (as_nanos d))"
proof -
  let ?B = "max 1 (f64_real b)" and ?k = "u32_saturating_sub (st_attempt st) 1"
  obtain m e where c: "clamp_exponential_base b = F64 False m e" "mag m e = ?B"
    using clamp_exponential_base_real by blast
  let ?p = "pow_nonnegative_f64 (clamp_exponential_base b) ?k"
  let ?x = "f64_mul (f64_of_nat (as_nanos initial)) ?p"
  have k: "unat ?k = unat (st_attempt st) - 1" by (simp add: unat_u32_saturating_sub)
  show ?thesis
  proof (cases "initial = duration_zero")
    case True
    then show ?thesis
      unfolding exponential_def wait_base.simps next_wait_exponential by (simp add: duration_zero.rep_eq duration_of.rep_eq)
  next
    case False
    then have N: "1 \<le> real (as_nanos initial)" by (simp add: dur_simps)
    have "rounded 1 (real (as_nanos initial)) (f64_of_nat (as_nanos initial))"
      using f64_round_rounded [of "as_nanos initial" 0] N by (simp add: f64_of_nat_def)
    moreover have "f64_ge_real 1 (f64_of_nat (as_nanos initial))"
      using f64_round_ge [of 1 0 "as_nanos initial" 0] N by (simp add: f64_of_nat_def)
    moreover have "rounded (unat ?k) (?B ^ unat ?k) ?p"
      using pow_nonnegative_rounded [OF c(1)] c(2) by simp
    moreover have "f64_ge_real 1 ?p" by (rule pow_nonnegative_ge_one) (simp add: c(1))
    ultimately have "rounded (unat ?k + 2) (real (as_nanos initial) * ?B ^ unat ?k) ?x"
      using rounded_mul [of 1 "real (as_nanos initial)" _ "unat ?k" "?B ^ unat ?k" ?p] N by (simp add: one_le_power)
    note bounds = f64_to_u128_rounded [OF this, unfolded half_ulp_def k]
    have "fst (run_state (next_wait (wait_base (exponential initial) b) st) x) =
        Inr (duration_of (f64_to_u128 ?x), wait_base (exponential initial) b)"
      using False unfolding exponential_def wait_base.simps next_wait_exponential by simp
    moreover have "as_nanos (duration_of (f64_to_u128 ?x)) = min (f64_to_u128 ?x) duration_max_nanos"
      by (simp add: duration_of.rep_eq)
    moreover have "duration_max_nanos \<le> f64_to_u128 ?x \<Longrightarrow> duration_of (f64_to_u128 ?x) = duration_MAX"
      by (simp add: as_nanos_inject_iff duration_of.rep_eq duration_MAX.rep_eq)
    ultimately show ?thesis using bounds by (auto simp: min_def not_le)
  qed
qed

end
