(* ===== verification/Spec2Isabelle.thy ===== *)
theory Spec2Isabelle
  imports Engine_Trace Virtual_Run Async_Parity Policy Observers Virtual_Async Async_Race
    Jitter_Threads Cloning Call_Order Examples_Time Examples_Cancel Bench Tests_Async
    Tests_Properties Wait_Error
begin

text \<open>
  A model of \<open>relentless\<close>, a Rust library that calls a fallible operation again until a
  classifier accepts or rejects its outcome, a stop strategy gives up, or a timeout ends, and
  waits between the calls for as long as a wait strategy says.

  \<^bold>\<open>How the program is put together.\<close> A builder (\<open>Retry\<close>, \<open>AsyncRetry\<close>, or one started from a
  reusable \<open>RetryPolicy\<close>) holds an operation, a classifier, a stop strategy, a wait strategy, a
  clock, hooks and a timeout. The sync engine loops: \<open>before_attempt\<close>, the operation, then
  \<open>step\<close>, then a blocking wait on the clock. The async engine is a future with four phases that
  does the same across polls, and shares \<open>step\<close>. \<open>step\<close> fires \<open>after_attempt\<close>, classifies, asks
  the stop strategy, and either fires \<open>on_exit\<close> and ends or asks the wait strategy for a delay
  and clamps it to the timeout.

  \<^bold>\<open>The world.\<close> Everything the library is given (operations, hooks, classifiers, predicates,
  clocks, strategies written by the user) may read and change the program's state. It is a
  computation of the state monad over a type \<open>'x\<close>, the world, that the model never looks into.
  The order and the number of the calls are then visible in the final world. A callback
  returns and does not panic; the panics of the library itself are values (\<open>Inl\<close> a message),
  those of \<open>debug_assert!\<close> under a flag \<open>dbg\<close> for the build. Generators inside wait strategies are
  interior mutability: \<open>next_wait\<close> gives the strategy back. A loop that may not end is
  \<open>partial_function (option)\<close>, no fuel is involved: \<^const>\<open>None\<close> is a run that never returns,
  and theorems that a run returns say \<^const>\<open>Some\<close>.

  \<^bold>\<open>Theories\<close>, each with the source it models (under \<open>src/src/\<close>):

  \<^item> \<open>Prelude\<close>: \<open>u32\<close> and \<open>u64\<close> as words, \<open>Result\<close>, \<open>Poll\<close>, the loop \<open>rust_loop\<close> with its rules
    (invariant, termination, divergence, simulation, fusion of two nested loops), and \<open>keeps\<close>,
    a relation between the worlds before and after a computation.
  \<^item> \<open>Rust_Duration\<close>, \<open>Rust_F64\<close>: \<open>core::time::Duration\<close> as the nanosecond counts it can hold,
    with its saturating operations, and \<open>f64\<close> with NaN, infinities and rounding to nearest
    even, as far as the source uses them (no subnormal arises from its products).
  \<^item> \<open>Retry_State\<close> (\<open>state.rs\<close>), \<open>Wait_Math\<close> (\<open>wait/math.rs\<close>), \<open>Wait_Jitter\<close> (\<open>wait/jitter.rs\<close>), \<open>Wait\<close>
    (\<open>wait/mod.rs\<close>, \<open>strategies.rs\<close>, \<open>composition.rs\<close>), \<open>Stop\<close> (\<open>stop/\<close>), \<open>Predicates\<close>
    (\<open>predicate/mod.rs\<close>), \<open>Decision\<close> (\<open>decision.rs\<close>): the strategies and classifiers. One
    constructor per strategy struct, one definition per \<open>impl\<close>; a user's own implementation of
    \<open>Wait\<close> or \<open>Stop\<close> is a constructor of its own.
  \<^item> \<open>Futures\<close>: \<open>core::future::Future\<close> as a codatatype of polls, and the poll loop of the tests.
  \<^item> \<open>Clock\<close> (\<open>clock.rs\<close>): the clock traits as records of operations; \<open>VirtualClock\<close> with its async
    wait, \<open>SystemClock\<close> over a model of the time of the operating system, and the runtime
    adapters, whose runtimes are parameters. The trait's documented contract is the locale
    \<open>lawful_sync_clock\<close>, interpreted on \<open>VirtualClock\<close> and \<open>SystemClock\<close>.
  \<^item> \<open>Engine_State\<close> (\<open>engine/state.rs\<close>, \<open>error.rs\<close>, \<open>stats.rs\<close>), \<open>Hooks\<close> (\<open>engine/hooks.rs\<close>),
    \<open>Engine_Step\<close> (\<open>engine/step.rs\<close>), \<open>Engine_Sync\<close> (\<open>engine/op.rs\<close>, \<open>engine/mod.rs\<close>),
    \<open>Engine_Async\<close> (\<open>engine/async_engine.rs\<close>), \<open>Policy\<close> (\<open>policy/mod.rs\<close>): the engines and
    builders. \<open>run_body\<close> is one iteration of the loop of \<open>Retry::run\<close>, \<open>poll_body\<close> one turn of the
    loop inside \<open>AsyncRun::poll\<close>.
  \<^item> \<open>Engine_Run\<close>, \<open>World_Lift\<close>, \<open>Engine_Trace\<close>, \<open>Engine_Time\<close>, \<open>Virtual_Run\<close>, \<open>Async_Parity\<close>: what
    the engines do as a whole. \<open>World_Lift\<close> runs any retry in a larger world, so that a log of
    the hooks or a clock can be added to it without touching what it does; \<open>World_View\<close> reads
    such a run back (locales \<open>world_view\<close> and \<open>tracking\<close>), \<open>Observers\<close> adds hooks that only
    record, and \<open>Call_Order\<close> a recorder next to every part (\<open>recorded\<close>, locale \<open>call_log\<close>).
  \<^item> \<open>Quiet_Run\<close>, \<open>Virtual_Schedule\<close>, \<open>Scripts\<close>: retries whose strategies are plain functions and
    whose operation follows a script of outcomes (locales \<open>quiet_observers\<close>, \<open>quiet_script\<close>,
    \<open>virtual_script\<close>), beside any clock that leaves the captured variables alone
    (\<open>clocked_view\<close>, interpreted on \<open>VirtualClock\<close>, \<open>SystemClock\<close> and the benchmark's clock).
    \<open>schedule\<close> computes the delays of such a run.
  \<^item> \<open>Virtual_Async\<close>, \<open>Async_Cancel\<close>, \<open>Jitter_Threads\<close>: the async engine on the virtual clock, a
    retry future that is dropped (\<open>poll_for\<close>), and threads that draw from one generator (the
    step relation \<open>rng_step\<close>). \<open>Jitter_Uniform\<close> counts how often a bounded draw gives a value,
    \<open>Cloning\<close> has \<open>Clone\<close> of strategies and policies, with the nonces the clones take.
  \<^item> \<open>Examples\<close>, \<open>Examples_Time\<close>, \<open>Examples_Async\<close>, \<open>Examples_Cancel\<close> (\<open>src/examples/\<close>), \<open>Bench\<close>
    (\<open>src/benches/retry_hot_paths.rs\<close>): the crate's own clients, with their assertions. A program
    is \<open>passed\<close> if it returns without a panic.
  \<^item> \<open>Async_Call\<close>: the future of \<open>call()\<close> under any loop that polls it (\<open>drive\<close>). \<open>Async_Wake\<close>:
    when \<open>poll\<close> gives control back to the executor, over any sequence of polls with anything done to
    the world between them (\<open>polled\<close>), and the contract of \<open>Future::poll\<close> (\<open>arms\<close>). \<open>Async_Race\<close>: what
    such a future answers (\<open>answers_only\<close>), and the contract of a race (locale \<open>lawful_race\<close>).
  \<^item> \<open>Wait_Error\<close>: how far the float code of the exponential backoff is from the power it computes.
  \<^item> \<open>Tests_Data\<close>, \<open>Tests_Sync\<close>, \<open>Tests_Async\<close>: the unit tests inside \<open>clock.rs\<close>, \<open>decision.rs\<close> and \<open>engine/\<close>,
    each a program with its assertions, run on the model. \<open>Tests_Properties\<close>: the property tests
    of \<open>src/tests/properties.rs\<close>, each a function of the inputs the test tool draws.

  \<^bold>\<open>What the lemmas show.\<close>

  \<^item> Strategies: the exact delays of the linear and of the exponential backoff (for the float
    code too, within stated bounds), the error of the float code for any base (one rounding for each
    factor), a range for every composition, no panic anywhere, caps that
    hold, the period, the decorrelation and the uniformity of the generator, stop strategies that are all asked
    and stay fired.
  \<^item> \<open>step\<close> and the sync engine: no panic in either build; consistent results, statistics and
    exits; termination within a bounded stop strategy's attempts, refinement of a small
    specification (\<open>spec_run\<close>), divergence where nothing can end the run, such as a clock that stands
    still (\<open>can_expire\<close>).
  \<^item> Hooks: an observer sees the protocol \<open>follows_protocol\<close> in every run (locale \<open>hook_log\<close>,
    interpreted on every retry with logging hooks), and recorders see every call an engine makes
    in the order of the specification.
  \<^item> Time (locale \<open>timed_run\<close>, interpreted on both synchronous clocks of the crate): waits are
    elapsed time, a timeout bounds the waits, a timeout or an elapsed stop ends the run; on \<open>VirtualClock\<close> every
    nanosecond is accounted for.
  \<^item> Async: driven to completion it is the sync engine, for every operation, clock, strategy
    and hook whose futures complete. The proof fuses the poll loop with the driver's loop
    (\<open>machine\<close>) and simulates one iteration of the sync loop by its turns. What is proved of the
    sync engine then holds of the async one.
  \<^item> Polls: if the futures inside arrange for a wake-up when they answer \<open>Pending\<close>, the retry's future
    does; futures that are ready at once are run to the end in one poll; whatever happens between the polls, the answer is a verdict on an
    outcome of the last attempt and every earlier attempt was passed over.
  \<^item> Scripts: on the virtual clock a run ends at exactly the attempt, and with exactly the delays,
    that \<open>schedule\<close> gives for its strategies and timeout; recording hooks do not interfere; a
    dropped future does not run \<open>on_exit\<close>; a generator shared by threads is one stream.
  \<^item> Clones: they keep the configuration, and without \<open>std\<close> no two of them share a stream, though
    one can repeat the stream of an original whose nonce or seed the user set.
  \<^item> Clients: the example programs pass their assertions, and what they show holds for every
    script or operation in the place of the one they use; the unit tests pass, the
    property tests hold for all inputs but attempt zero; \<open>--exact\<close> runs the benchmark it names. Under
    Tokio's timers the deadline of the cancellation example falls into its second call.
  \<^item> Builders: the default policy is the default retry, and borrowing or boxing strategies
    changes nothing a caller observes.

  \<^bold>\<open>Hypotheses.\<close> Statements about time assume that the clock keeps the contract documented at
  the \<open>Clock\<close> trait and that no callback turns it back (\<open>timed_run\<close>); statements about the async
  engine driven to completion assume that the futures of the operation and of the clock
  complete (\<open>completes\<close>), or are ready at once (\<open>ready_at_once\<close>); the cancellation example assumes of
  Tokio's races that the value they return is the future's (\<open>lawful_race\<close>), and of its timers that a
  sleep lasts at least as long as asked for and is ready soon after (\<open>makes_sleeps\<close>, \<open>not_overdue\<close>,
  with a total delay below 15 ms). Each has an instance on which it holds.

  \<^bold>\<open>Not modelled.\<close> Wakers as values (the engine passes the context through; that a wake-up is arranged is a
  predicate of the world in \<open>Async_Wake\<close>), the destructors that run
  when a future is dropped, \<open>Debug\<close> output and what the programs print, marker traits and auto traits, unwinding out of user callbacks, the
  timers of tokio, embassy, futures-timer and gloo and Tokio's races, tasks and channels (third-party: parameters), the empty \<open>Error\<close> impls of the
  \<open>Option\<close> and \<open>ControlFlow\<close> errors, and the other
  integration tests under \<open>tests/\<close>.
  \<open>Infallible\<close> is a type variable whose arm is shown to be unreachable. The instance counter of
  the jitter nonces is a \<open>usize\<close> of any width, \<open>'w word\<close>.
\<close>

end
